(* ===== verification/FzPrelude.thy ===== *)
theory FzPrelude
  imports Main "HOL-Library.Word"
begin

section \<open>Shared vocabulary: widths, fallible statements, indexed access\<close>

text \<open>
  Everything the component theories share: the machine widths of the code, the
  combinators that let a C++ function body be written as a list of statements that may
  fail, a weakest-precondition calculus over them (the collection \<open>wp\<close>), and
  partial access to lists (\<open>nth_opt\<close>, \<open>upd_at\<close>) with its laws.
\<close>

subsection \<open>Widths\<close>

type_synonym u8 = "8 word"
type_synonym u16 = "16 word"
type_synonym u32 = "32 word"
type_synonym u64 = "64 word"

subsection \<open>Statements that may fail\<close>

text \<open>
  A statement maps a state to \<open>Inr\<close> of the next state or to \<open>Inl\<close> of an error. A
  function body is the list of its statements; the first error stops it.
\<close>

type_synonym ('e, 's) stmt = "'s \<Rightarrow> 'e + 's"

definition bindE :: "'e + 'a \<Rightarrow> ('a \<Rightarrow> 'e + 'b) \<Rightarrow> 'e + 'b" where
  "bindE r f = (case r of Inl e \<Rightarrow> Inl e | Inr a \<Rightarrow> f a)"

primrec seqE :: "('e, 's) stmt list \<Rightarrow> ('e, 's) stmt" where
  "seqE [] s = Inr s"
| "seqE (f # fs) s = bindE (f s) (seqE fs)"

definition skip :: "('e, 's) stmt" where
  "skip s = Inr s"

definition modify :: "('s \<Rightarrow> 's) \<Rightarrow> ('e, 's) stmt" where
  "modify f s = Inr (f s)"

lemma bindE_simps [simp]:
  "bindE (Inl e) f = Inl e"
  "bindE (Inr a) f = f a"
  by (simp_all add: bindE_def)

lemma bindE_assoc: "bindE (bindE r f) g = bindE r (\<lambda>a. bindE (f a) g)"
  by (cases r) simp_all

lemma bindE_Inr_iff: "bindE r f = Inr b \<longleftrightarrow> (\<exists>a. r = Inr a \<and> f a = Inr b)"
  by (cases r) simp_all

lemma seqE_append: "seqE (fs @ gs) s = bindE (seqE fs s) (seqE gs)"
  by (induction fs arbitrary: s) (auto simp: bindE_def split: sum.splits)

subsection \<open>Weakest preconditions\<close>

text \<open>
  \<open>wpE E Q r\<close>: the result \<open>r\<close> is a state where \<open>Q\<close> holds or one of the errors
  that \<open>E\<close> admits. Rules for the statement forms are collected in \<open>wp\<close>, so that
  \<open>simp add: wp\<close> turns a goal about a body into goals about its states.
\<close>

named_theorems wp \<open>weakest preconditions of statement forms\<close>

definition wpE :: "('e \<Rightarrow> bool) \<Rightarrow> ('a \<Rightarrow> bool) \<Rightarrow> 'e + 'a \<Rightarrow> bool" where
  "wpE E Q r = (case r of Inl e \<Rightarrow> E e | Inr a \<Rightarrow> Q a)"

lemma wpE_Inl [wp]: "wpE E Q (Inl e) = E e"
  by (simp add: wpE_def)

lemma wpE_Inr [wp]: "wpE E Q (Inr a) = Q a"
  by (simp add: wpE_def)

lemma wpE_bindE [wp]: "wpE E Q (bindE r f) = wpE E (\<lambda>a. wpE E Q (f a)) r"
  by (cases r) (simp_all add: wpE_def)

lemma wpE_skip [wp]: "wpE E Q (skip s) = Q s"
  by (simp add: skip_def wpE_def)

lemma wpE_modify [wp]: "wpE E Q (modify f s) = Q (f s)"
  by (simp add: modify_def wpE_def)

lemma wpE_seqE_Nil [wp]: "wpE E Q (seqE [] s) = Q s"
  by (simp add: wpE_def)

lemma wpE_seqE_Cons [wp]:
  "wpE E Q (seqE (f # fs) s) = wpE E (\<lambda>t. wpE E Q (seqE fs t)) (f s)"
  by (cases "f s") (simp_all add: wpE_def)

lemma wpE_if [wp]: "wpE E Q (if b then r else r') = (if b then wpE E Q r else wpE E Q r')"
  by simp

lemma wpE_if_fun [wp]:
  "wpE E Q ((if b then f else g) s) = (if b then wpE E Q (f s) else wpE E Q (g s))"
  by simp

lemma wpE_mono: "wpE E Q r \<Longrightarrow> (\<And>a. Q a \<Longrightarrow> Q' a) \<Longrightarrow> wpE E Q' r"
  by (auto simp: wpE_def split: sum.splits)

lemma wpE_mono_strong:
  "wpE E Q r \<Longrightarrow> (\<And>a. r = Inr a \<Longrightarrow> Q a \<Longrightarrow> Q' a) \<Longrightarrow> wpE E Q' r"
  by (auto simp: wpE_def split: sum.splits)

lemma wpE_conj: "wpE E (\<lambda>a. Q a \<and> R a) r \<longleftrightarrow> wpE E Q r \<and> wpE E R r"
  by (auto simp: wpE_def split: sum.splits)

lemma wpE_Inr_D: "wpE E Q r \<Longrightarrow> r = Inr a \<Longrightarrow> Q a"
  by (simp add: wpE_def)

lemma wpE_Inl_D: "wpE E Q r \<Longrightarrow> r = Inl e \<Longrightarrow> E e"
  by (simp add: wpE_def)

lemma wpE_trueI: "(\<And>a. r = Inr a \<Longrightarrow> Q a) \<Longrightarrow> wpE (\<lambda>_. True) Q r"
  by (simp add: wpE_def split: sum.splits)

subsection \<open>Partial access to lists\<close>

definition nth_opt :: "'a list \<Rightarrow> nat \<Rightarrow> 'a option" where
  "nth_opt xs i = (if i < length xs then Some (xs ! i) else None)"

definition upd_at :: "nat \<Rightarrow> ('a \<Rightarrow> 'a) \<Rightarrow> 'a list \<Rightarrow> 'a list" where
  "upd_at i f xs = (if i < length xs then xs[i := f (xs ! i)] else xs)"

lemma nth_opt_None: "nth_opt xs i = None \<longleftrightarrow> length xs \<le> i"
  by (simp add: nth_opt_def)

lemma nth_opt_Some: "nth_opt xs i = Some x \<longleftrightarrow> i < length xs \<and> xs ! i = x"
  by (simp add: nth_opt_def)

lemma length_upd_at [simp]: "length (upd_at i f xs) = length xs"
  by (simp add: upd_at_def)

lemma nth_opt_upd_at:
  "nth_opt (upd_at i f xs) j = (if i = j then map_option f (nth_opt xs j) else nth_opt xs j)"
  by (simp add: nth_opt_def upd_at_def)

lemma nth_opt_append1:
  "nth_opt (xs @ [x]) j = (if j = length xs then Some x else nth_opt xs j)"
  by (auto simp: nth_opt_def nth_append)

lemma nth_opt_Nil [simp]: "nth_opt [] i = None"
  by (simp add: nth_opt_def)

end
