(* ===== verification/FzFloat.thy ===== *)
theory FzFloat
  imports FzPrelude
begin

section \<open>Single-precision arithmetic\<close>

text \<open>
  The tag-format transitions compute energies and the baseline in \<open>float\<close>. This theory
  gives the IEEE single-precision operations the code uses on the values it can have:
  conversion from integers, division, multiplication by a constant, and truncation to
  \<open>uint32_t\<close>. A finite float is a sign and a magnitude \<open>n / 2 ^ k\<close>; rounding is to
  nearest, ties to even, with a 24-bit significand and the subnormal limit
  \<open>2 ^ -149\<close>. Magnitudes above the largest float do not arise (every operand is
  below \<open>2 ^ 42\<close>), so there is no infinity other than the one a division by zero makes,
  which is \<open>None\<close> here.
\<close>

type_synonym f32 = "bool \<times> int \<times> nat"   \<comment> \<open>sign, n, k: the value is n / 2 ^ k\<close>

definition round_half_even :: "int \<Rightarrow> int \<Rightarrow> int" where
  "round_half_even a b =
     (let q = a div b; r = a mod b in
      if 2 * r < b then q else if b < 2 * r then q + 1 else if even q then q else q + 1)"

text \<open>How often \<open>a / b\<close> must be doubled to reach \<open>2 ^ 23\<close>, at most \<open>m\<close> times.\<close>

primrec scale_up :: "nat \<Rightarrow> int \<Rightarrow> int \<Rightarrow> nat" where
  "scale_up 0 a b = 0"
| "scale_up (Suc m) a b = (if 8388608 * b \<le> a then 0 else Suc (scale_up m (2 * a) b))"

text \<open>How often \<open>b\<close> must be doubled to bring \<open>a / b\<close> below \<open>2 ^ 24\<close>.\<close>

primrec scale_down :: "nat \<Rightarrow> int \<Rightarrow> int \<Rightarrow> nat" where
  "scale_down 0 a b = 0"
| "scale_down (Suc m) a b = (if a < 16777216 * b then 0 else Suc (scale_down m a (2 * b)))"

text \<open>The float nearest to the magnitude \<open>a / b\<close>, for \<open>0 \<le> a\<close> and \<open>0 < b\<close>.\<close>

definition round24 :: "int \<Rightarrow> int \<Rightarrow> int \<times> nat" where
  "round24 a b =
     (if a = 0 then (0, 0)
      else if a < 16777216 * b
      then (let k = scale_up 149 a b in (round_half_even (a * 2 ^ k) b, k))
      else (let j = scale_down 104 a b in (round_half_even a (b * 2 ^ j) * 2 ^ j, 0)))"

definition f32_of_int :: "int \<Rightarrow> f32" where
  "f32_of_int x = (x < 0, round24 \<bar>x\<bar> 1)"

fun f32_div :: "f32 \<Rightarrow> f32 \<Rightarrow> f32 option" where
  "f32_div (s, n, k) (t, m, l) =
     (if m = 0 then None else Some (s \<noteq> t, round24 (n * 2 ^ l) (m * 2 ^ k)))"

fun f32_mul :: "f32 \<Rightarrow> f32 \<Rightarrow> f32" where
  "f32_mul (s, n, k) (t, m, l) = (s \<noteq> t, round24 (n * m) (2 ^ (k + l)))"

text \<open>Conversion to \<open>uint32_t\<close>: \<open>None\<close> where the C++ conversion is undefined.\<close>

fun f32_to_u32 :: "f32 \<Rightarrow> u32 option" where
  "f32_to_u32 (s, n, k) =
     (let t = n div 2 ^ k in
      if (s \<and> 0 < t) \<or> 2 ^ 32 \<le> t then None else Some (word_of_int t))"

subsection \<open>Rounding is exact on small integers\<close>

lemma round_half_even_exact [simp]: "0 < b \<Longrightarrow> round_half_even (q * b) b = q"
  by (simp add: round_half_even_def)

lemma round24_exact:
  assumes "0 \<le> x" and "x < 16777216"
  shows "fst (round24 x 1) = x * 2 ^ snd (round24 x 1)"
  using assms by (auto simp: round24_def Let_def round_half_even_def)

lemma f32_of_int_exact:
  assumes "0 \<le> x" and "x < 16777216"
  shows "f32_to_u32 (f32_of_int x) = Some (word_of_int x)"
proof -
  obtain n k where r: "round24 x 1 = (n, k)" by fastforce
  with round24_exact [OF assms] have n: "n = x * 2 ^ k" by simp
  then have "n div 2 ^ k = x" by simp
  with assms show ?thesis by (simp add: f32_of_int_def r n)
qed

end
