(* ===== verification/FzEventSet.thy ===== *)
theory FzEventSet
  imports FzFloat
begin

section \<open>The event messages (proto/FzEventSet.proto)\<close>

text \<open>
  The messages of the DAQ package as records, one field per field of the schema: an
  optional or required scalar is an \<open>option\<close> (its has-bit), a repeated field is a list.
  Enum fields other than the data type hold the integer the code casts into them,
  because the code stores values that are not enumerators. \<open>new_X\<close> is the message
  after \<open>Clear()\<close>; the accessors that read an unset field return its default.
\<close>

datatype FzDataType = QH1 | I1 | QL1 | Q2 | I2 | Q3 | ADC | UNKDT

definition FzDataType_value :: "FzDataType \<Rightarrow> nat" where
  "FzDataType_value t = (case t of QH1 \<Rightarrow> 0 | I1 \<Rightarrow> 1 | QL1 \<Rightarrow> 2 | Q2 \<Rightarrow> 3 | I2 \<Rightarrow> 4
     | Q3 \<Rightarrow> 5 | ADC \<Rightarrow> 6 | UNKDT \<Rightarrow> 7)"

definition FEC0 :: nat where "FEC0 = 0"
definition ADCF :: nat where "ADCF = 15"
definition UNKFEC :: nat where "UNKFEC = 16"
definition Tel_A :: nat where "Tel_A = 0"
definition Tel_B :: nat where "Tel_B = 1"
definition UNKT :: nat where "UNKT = 2"
definition Si1 :: nat where "Si1 = 0"
definition Si2 :: nat where "Si2 = 1"
definition CsI :: nat where "CsI = 2"
definition UNKD :: nat where "UNKD = 3"

definition FzFec_IsValid :: "nat \<Rightarrow> bool" where
  "FzFec_IsValid v \<longleftrightarrow> v \<le> 7 \<or> v = ADCF \<or> v = UNKFEC"

definition FzTelescope_IsValid :: "nat \<Rightarrow> bool" where
  "FzTelescope_IsValid v \<longleftrightarrow> v \<le> 2"

definition FzDetector_IsValid :: "nat \<Rightarrow> bool" where
  "FzDetector_IsValid v \<longleftrightarrow> v \<le> 3"

record Energy =
  en_value :: "u32 list"
  en_len_error :: "bool option"

record Waveform =
  wf_pretrig :: "u32 option"
  wf_sample :: "u32 list"
  wf_len_error :: "bool option"

record FzData =
  d_type :: "FzDataType option"
  d_energy :: "Energy option"
  d_waveform :: "Waveform option"
  d_sine :: "u64 option"
  d_cosine :: "u64 option"
  d_baseline :: "f32 option"

record FzHit =
  h_ec :: "u32 option"
  h_telid :: "nat option"
  h_detid :: "nat option"
  h_feeid :: "nat option"
  h_gttag :: "u32 option"
  h_dettag :: "u32 option"
  h_data :: "FzData list"
  h_trigpat :: "u32 option"

record FzFee =
  f_feeid :: "nat option"
  f_hit :: "FzHit list"
  f_len_error :: "bool option"
  f_crc_error :: "bool option"

record FzBlock =
  b_blkid :: "u32 option"
  b_fee :: "FzFee list"
  b_len_error :: "bool option"
  b_crc_error :: "bool option"

record FzTrigInfo =
  ti_id :: "u32 option"
  ti_attr :: "string option"
  ti_value :: "u64 option"

record FzEvent =
  e_ec :: "u32 option"
  e_block :: "FzBlock list"
  e_regid :: "u32 option"
  e_trinfo :: "FzTrigInfo list"

definition new_Energy :: Energy where
  "new_Energy = \<lparr>en_value = [], en_len_error = None\<rparr>"

definition new_Waveform :: Waveform where
  "new_Waveform = \<lparr>wf_pretrig = None, wf_sample = [], wf_len_error = None\<rparr>"

definition new_FzData :: FzData where
  "new_FzData = \<lparr>d_type = None, d_energy = None, d_waveform = None, d_sine = None,
     d_cosine = None, d_baseline = None\<rparr>"

definition new_FzHit :: FzHit where
  "new_FzHit = \<lparr>h_ec = None, h_telid = None, h_detid = None, h_feeid = None,
     h_gttag = None, h_dettag = None, h_data = [], h_trigpat = None\<rparr>"

definition new_FzFee :: FzFee where
  "new_FzFee = \<lparr>f_feeid = None, f_hit = [], f_len_error = None, f_crc_error = None\<rparr>"

definition new_FzBlock :: FzBlock where
  "new_FzBlock = \<lparr>b_blkid = None, b_fee = [], b_len_error = None, b_crc_error = None\<rparr>"

definition new_FzEvent :: FzEvent where
  "new_FzEvent = \<lparr>e_ec = None, e_block = [], e_regid = None, e_trinfo = []\<rparr>"

text \<open>An accessor returns the default (the enum's first value) while the field is unset.\<close>

definition get_or :: "'a \<Rightarrow> 'a option \<Rightarrow> 'a" where
  "get_or z x = (case x of None \<Rightarrow> z | Some v \<Rightarrow> v)"

lemma get_or_simps [simp]:
  "get_or z None = z"
  "get_or z (Some v) = v"
  by (simp_all add: get_or_def)

text \<open>\<open>mutable_energy()\<close> and \<open>mutable_waveform()\<close> create the sub-message if it is unset.\<close>

definition mutable_energy :: "FzData \<Rightarrow> FzData" where
  "mutable_energy d = d\<lparr>d_energy := Some (get_or new_Energy (d_energy d))\<rparr>"

definition mutable_waveform :: "FzData \<Rightarrow> FzData" where
  "mutable_waveform d = d\<lparr>d_waveform := Some (get_or new_Waveform (d_waveform d))\<rparr>"

subsection \<open>Required fields\<close>

text \<open>
  \<open>IsInitialized()\<close> of each message, on the message as its sender built it: every required
  field is set, in the message and in the messages it holds. A reader may find less: see
  \<open>event_read\<close>.
\<close>

definition init_Energy :: "Energy \<Rightarrow> bool" where
  "init_Energy x \<longleftrightarrow> en_len_error x \<noteq> None"

definition init_Waveform :: "Waveform \<Rightarrow> bool" where
  "init_Waveform x \<longleftrightarrow> wf_pretrig x \<noteq> None \<and> wf_len_error x \<noteq> None"

definition init_FzData :: "FzData \<Rightarrow> bool" where
  "init_FzData x \<longleftrightarrow> d_type x \<noteq> None \<and> pred_option init_Energy (d_energy x)
     \<and> pred_option init_Waveform (d_waveform x)"

definition init_FzHit :: "FzHit \<Rightarrow> bool" where
  "init_FzHit x \<longleftrightarrow> h_ec x \<noteq> None \<and> h_telid x \<noteq> None \<and> h_detid x \<noteq> None
     \<and> h_feeid x \<noteq> None \<and> h_gttag x \<noteq> None \<and> h_dettag x \<noteq> None
     \<and> list_all init_FzData (h_data x)"

definition init_FzFee :: "FzFee \<Rightarrow> bool" where
  "init_FzFee x \<longleftrightarrow> f_feeid x \<noteq> None \<and> list_all init_FzHit (f_hit x)
     \<and> f_len_error x \<noteq> None \<and> f_crc_error x \<noteq> None"

definition init_FzBlock :: "FzBlock \<Rightarrow> bool" where
  "init_FzBlock x \<longleftrightarrow> b_blkid x \<noteq> None \<and> list_all init_FzFee (b_fee x)
     \<and> b_len_error x \<noteq> None \<and> b_crc_error x \<noteq> None"

definition init_FzTrigInfo :: "FzTrigInfo \<Rightarrow> bool" where
  "init_FzTrigInfo x \<longleftrightarrow> ti_id x \<noteq> None \<and> ti_attr x \<noteq> None \<and> ti_value x \<noteq> None"

definition init_FzEvent :: "FzEvent \<Rightarrow> bool" where
  "init_FzEvent x \<longleftrightarrow> e_ec x \<noteq> None \<and> list_all init_FzBlock (e_block x)
     \<and> e_regid x \<noteq> None \<and> list_all init_FzTrigInfo (e_trinfo x)"

subsection \<open>What a reader finds\<close>

text \<open>
  What a reader of the wire format finds in an enum field: a value that is no enumerator is
  kept with the unknown fields, and the field reads as unset. The machine stores detector
  fields from 0 to 7 and card fields from 0 to 15, of which 4 to 7 and 8 to 14 are none. A
  message a reader finds without a required field is not initialized for it.
\<close>

definition known :: "(nat \<Rightarrow> bool) \<Rightarrow> nat option \<Rightarrow> nat option" where
  "known valid x = (case x of None \<Rightarrow> None | Some v \<Rightarrow> if valid v then Some v else None)"

definition hit_read :: "FzHit \<Rightarrow> FzHit" where
  "hit_read h = h\<lparr>h_telid := known FzTelescope_IsValid (h_telid h), h_detid := known FzDetector_IsValid (h_detid h),
     h_feeid := known FzFec_IsValid (h_feeid h)\<rparr>"

definition fee_read :: "FzFee \<Rightarrow> FzFee" where
  "fee_read f = f\<lparr>f_feeid := known FzFec_IsValid (f_feeid f), f_hit := map hit_read (f_hit f)\<rparr>"

definition event_read :: "FzEvent \<Rightarrow> FzEvent" where
  "event_read m = m\<lparr>e_block := map (b_fee_update (map fee_read)) (e_block m)\<rparr>"

end
