(* ===== verification/FzEventTree.thy ===== *)
theory FzEventTree
  imports FzEventSet
begin

section \<open>Pointers into an event\<close>

text \<open>
  The state machine keeps raw pointers into the event it fills (\<open>blk\<close>, \<open>fee\<close>,
  \<open>hit\<close>, \<open>d\<close>). A pointer is modelled by the path it was obtained at: the index in
  the parent's repeated field, next to the parent's path. Paths are also how the
  message library hands objects out again: clearing or shortening a repeated field
  keeps the objects, and the next \<open>add_\<close> returns the object at that index. A path that
  is not in the current event is a stale pointer, which \<open>get_\<close> reports as \<open>None\<close>.
\<close>

type_synonym blk_path = nat
type_synonym fee_path = "blk_path \<times> nat"
type_synonym hit_path = "fee_path \<times> nat"
type_synonym data_path = "hit_path \<times> nat"

text \<open>Paths stay whole in proofs, and presence stays written \<open>\<noteq> None\<close>.\<close>

declare split_paired_All [simp del] split_paired_Ex [simp del] not_None_eq [simp del]

subsection \<open>The operations\<close>

definition get_blk :: "FzEvent \<Rightarrow> blk_path \<Rightarrow> FzBlock option" where
  "get_blk ev b = nth_opt (e_block ev) b"

definition upd_blk :: "blk_path \<Rightarrow> (FzBlock \<Rightarrow> FzBlock) \<Rightarrow> FzEvent \<Rightarrow> FzEvent" where
  "upd_blk b f ev = ev\<lparr>e_block := upd_at b f (e_block ev)\<rparr>"

fun get_fee :: "FzEvent \<Rightarrow> fee_path \<Rightarrow> FzFee option" where
  "get_fee ev (p, i) = Option.bind (get_blk ev p) (\<lambda>x. nth_opt (b_fee x) i)"

fun upd_fee :: "fee_path \<Rightarrow> (FzFee \<Rightarrow> FzFee) \<Rightarrow> FzEvent \<Rightarrow> FzEvent" where
  "upd_fee (p, i) f = upd_blk p (b_fee_update (upd_at i f))"

fun get_hit :: "FzEvent \<Rightarrow> hit_path \<Rightarrow> FzHit option" where
  "get_hit ev (p, i) = Option.bind (get_fee ev p) (\<lambda>x. nth_opt (f_hit x) i)"

fun upd_hit :: "hit_path \<Rightarrow> (FzHit \<Rightarrow> FzHit) \<Rightarrow> FzEvent \<Rightarrow> FzEvent" where
  "upd_hit (p, i) f = upd_fee p (f_hit_update (upd_at i f))"

fun get_data :: "FzEvent \<Rightarrow> data_path \<Rightarrow> FzData option" where
  "get_data ev (p, i) = Option.bind (get_hit ev p) (\<lambda>x. nth_opt (h_data x) i)"

fun upd_data :: "data_path \<Rightarrow> (FzData \<Rightarrow> FzData) \<Rightarrow> FzEvent \<Rightarrow> FzEvent" where
  "upd_data (p, i) f = upd_hit p (h_data_update (upd_at i f))"

definition add_block :: "FzBlock \<Rightarrow> FzEvent \<Rightarrow> FzEvent" where
  "add_block x ev = ev\<lparr>e_block := e_block ev @ [x]\<rparr>"

definition add_fee :: "blk_path \<Rightarrow> FzFee \<Rightarrow> FzEvent \<Rightarrow> FzEvent" where
  "add_fee p x = upd_blk p (b_fee_update (\<lambda>xs. xs @ [x]))"

definition add_hit :: "fee_path \<Rightarrow> FzHit \<Rightarrow> FzEvent \<Rightarrow> FzEvent" where
  "add_hit p x = upd_fee p (f_hit_update (\<lambda>xs. xs @ [x]))"

definition add_data :: "hit_path \<Rightarrow> FzData \<Rightarrow> FzEvent \<Rightarrow> FzEvent" where
  "add_data p x = upd_hit p (h_data_update (\<lambda>xs. xs @ [x]))"

subsection \<open>The laws of one level and of a level below it\<close>

text \<open>
  Each level offers reading and updating at a path; a level below another reaches its
  objects through the repeated field of the object above.
\<close>

locale path_store =
  fixes get :: "'r \<Rightarrow> 'p \<Rightarrow> 'a option"
    and upd :: "'p \<Rightarrow> ('a \<Rightarrow> 'a) \<Rightarrow> 'r \<Rightarrow> 'r"
  assumes get_upd: "get (upd p f r) q = (if p = q then map_option f (get r q) else get r q)"
begin

lemma get_upd_same: "get (upd p f r) p = map_option f (get r p)"
  by (simp add: get_upd)

lemma get_upd_other: "p \<noteq> q \<Longrightarrow> get (upd p f r) q = get r q"
  by (simp add: get_upd)

lemma get_upd_None: "get (upd p f r) q = None \<longleftrightarrow> get r q = None"
  by (simp add: get_upd)

lemma upd_get_Some: "get r p = Some x \<Longrightarrow> get (upd p f r) p = Some (f x)"
  by (simp add: get_upd)

end

locale child_store = path_store get upd
  for get :: "'r \<Rightarrow> 'p \<Rightarrow> 'a option" and upd :: "'p \<Rightarrow> ('a \<Rightarrow> 'a) \<Rightarrow> 'r \<Rightarrow> 'r" +
  fixes kids :: "'a \<Rightarrow> 'c list"
    and map_kids :: "('c list \<Rightarrow> 'c list) \<Rightarrow> 'a \<Rightarrow> 'a"
    and getc :: "'r \<Rightarrow> 'p \<times> nat \<Rightarrow> 'c option"
    and updc :: "'p \<times> nat \<Rightarrow> ('c \<Rightarrow> 'c) \<Rightarrow> 'r \<Rightarrow> 'r"
    and addc :: "'p \<Rightarrow> 'c \<Rightarrow> 'r \<Rightarrow> 'r"
  assumes kids_map: "kids (map_kids g x) = g (kids x)"
    and getc_eq: "getc r (p, i) = Option.bind (get r p) (\<lambda>x. nth_opt (kids x) i)"
    and updc_eq: "updc (p, i) f = upd p (map_kids (upd_at i f))"
    and addc_eq: "addc p c = upd p (map_kids (\<lambda>xs. xs @ [c]))"
begin

lemma getc_updc: "getc (updc p f r) q = (if p = q then map_option f (getc r q) else getc r q)"
proof -
  obtain p' i where p: "p = (p', i)" by fastforce
  obtain q' j where q: "q = (q', j)" by fastforce
  show ?thesis
  proof (cases "get r q'")
    case None
    then show ?thesis by (simp add: p q getc_eq updc_eq get_upd)
  next
    case (Some x)
    then show ?thesis
      by (simp add: p q getc_eq updc_eq get_upd kids_map nth_opt_upd_at)
  qed
qed

lemma getc_upd_frame:
  assumes "\<And>x. kids (f x) = kids x"
  shows "getc (upd p f r) q = getc r q"
  using assms by (cases q; cases "get r (fst q)") (auto simp: getc_eq get_upd)

lemma get_updc_None: "get (updc p f r) q = None \<longleftrightarrow> get r q = None"
  by (cases p) (simp add: updc_eq get_upd)

lemma get_addc_None: "get (addc p c r) q = None \<longleftrightarrow> get r q = None"
  by (simp add: addc_eq get_upd)

lemma getc_addc:
  assumes "get r p = Some x"
  shows "getc (addc p c r) (q, i)
         = (if q = p \<and> i = length (kids x) then Some c else getc r (q, i))"
  using assms
  by (cases "get r q") (auto simp: addc_eq getc_eq get_upd kids_map nth_opt_append1)

lemma getc_addc_mono: "getc r q = Some y \<Longrightarrow> getc (addc p c r) q = Some y"
  by (cases q; cases "get r (fst q)"; cases "p = fst q")
    (auto simp: addc_eq getc_eq get_upd kids_map nth_opt_append1 nth_opt_def nth_append
      split: if_splits)

lemma get_of_getc: "getc r (p, i) = Some y \<Longrightarrow> get r p \<noteq> None"
  by (cases "get r p") (simp_all add: getc_eq)

end

sublocale child_store \<subseteq> child: path_store getc updc
  by unfold_locales (rule getc_updc)

subsection \<open>The levels of an event\<close>

lemma get_blk_upd_blk:
  "get_blk (upd_blk p f ev) q = (if p = q then map_option f (get_blk ev q) else get_blk ev q)"
  by (simp add: get_blk_def upd_blk_def nth_opt_upd_at)

interpretation blk_store: path_store get_blk upd_blk
  by unfold_locales (rule get_blk_upd_blk)

interpretation fee_store: child_store get_blk upd_blk b_fee b_fee_update get_fee upd_fee add_fee
  by unfold_locales (simp_all add: add_fee_def)

interpretation hit_store: child_store get_fee upd_fee f_hit f_hit_update get_hit upd_hit add_hit
  by unfold_locales (simp_all add: add_hit_def fee_store.getc_updc)

interpretation data_store: child_store get_hit upd_hit h_data h_data_update get_data upd_data add_data
  by unfold_locales (simp_all add: add_data_def hit_store.getc_updc)

subsection \<open>What each operation leaves alone\<close>

text \<open>
  The collection \<open>tree\<close> evaluates \<open>get_X (op e) q\<close>: on the level of the operation by a
  case split on the path, on a deeper level unchanged when the operation keeps the
  repeated field, on a shallower level as far as presence goes.
\<close>

named_theorems tree \<open>reading an event after an operation on it\<close>

declare get_fee.simps [simp del] get_hit.simps [simp del] get_data.simps [simp del]
  upd_fee.simps [simp del] upd_hit.simps [simp del] upd_data.simps [simp del]

lemma get_upd_level [tree]:
  "get_blk (upd_blk b f e) b' = (if b = b' then map_option f (get_blk e b') else get_blk e b')"
  "get_fee (upd_fee p g e) p' = (if p = p' then map_option g (get_fee e p') else get_fee e p')"
  "get_hit (upd_hit q h e) q' = (if q = q' then map_option h (get_hit e q') else get_hit e q')"
  "get_data (upd_data r k e) r' = (if r = r' then map_option k (get_data e r') else get_data e r')"
  by (rule get_blk_upd_blk fee_store.getc_updc hit_store.getc_updc data_store.getc_updc)+

lemma get_upd_fee_above [tree]: "get_blk (upd_fee p f e) b = None \<longleftrightarrow> get_blk e b = None"
  by (rule fee_store.get_updc_None)

lemma get_upd_hit_above [tree]:
  "get_fee (upd_hit p f e) q = None \<longleftrightarrow> get_fee e q = None"
  "get_blk (upd_hit p f e) b = None \<longleftrightarrow> get_blk e b = None"
  by (rule hit_store.get_updc_None, cases p, simp add: upd_hit.simps get_upd_fee_above)

lemma get_upd_data_above [tree]:
  "get_hit (upd_data p f e) q = None \<longleftrightarrow> get_hit e q = None"
  "get_fee (upd_data p f e) r = None \<longleftrightarrow> get_fee e r = None"
  "get_blk (upd_data p f e) b = None \<longleftrightarrow> get_blk e b = None"
  by (rule data_store.get_updc_None, (cases p, simp add: upd_data.simps get_upd_hit_above)+)

lemma get_upd_blk_below [tree]:
  assumes "\<And>x. b_fee (f x) = b_fee x"
  shows "get_fee (upd_blk b f e) q = get_fee e q"
    and "get_hit (upd_blk b f e) r = get_hit e r"
    and "get_data (upd_blk b f e) d = get_data e d"
proof -
  show fee: "get_fee (upd_blk b f e) q = get_fee e q" for q
    by (rule fee_store.getc_upd_frame [OF assms])
  show hit: "get_hit (upd_blk b f e) r = get_hit e r" for r
    by (cases r) (simp add: get_hit.simps fee)
  show "get_data (upd_blk b f e) d = get_data e d"
    by (cases d) (simp add: get_data.simps hit)
qed

lemma get_upd_fee_below [tree]:
  assumes "\<And>x. f_hit (f x) = f_hit x"
  shows "get_hit (upd_fee p f e) r = get_hit e r"
    and "get_data (upd_fee p f e) d = get_data e d"
proof -
  show hit: "get_hit (upd_fee p f e) r = get_hit e r" for r
    by (rule hit_store.getc_upd_frame [OF assms])
  show "get_data (upd_fee p f e) d = get_data e d"
    by (cases d) (simp add: get_data.simps hit)
qed

lemma get_upd_hit_below [tree]:
  assumes "\<And>x. h_data (f x) = h_data x"
  shows "get_data (upd_hit p f e) d = get_data e d"
  by (rule data_store.getc_upd_frame [OF assms])

lemma get_add_block [tree]:
  "get_blk (add_block x e) b = (if b = length (e_block e) then Some x else get_blk e b)"
  by (simp add: get_blk_def add_block_def nth_opt_append1)

lemma get_add_block_below [tree]:
  assumes "b_fee x = []"
  shows "get_fee (add_block x e) q = get_fee e q"
    and "get_hit (add_block x e) r = get_hit e r"
    and "get_data (add_block x e) d = get_data e d"
proof -
  have new: "get_blk e (length (e_block e)) = None"
    by (simp add: get_blk_def nth_opt_def)
  show fee: "get_fee (add_block x e) q = get_fee e q" for q
    using assms new by (cases q) (auto simp: get_fee.simps get_add_block)
  show hit: "get_hit (add_block x e) r = get_hit e r" for r
    by (cases r) (simp add: get_hit.simps fee)
  show "get_data (add_block x e) d = get_data e d"
    by (cases d) (simp add: get_data.simps hit)
qed

lemma get_add_fee_above [tree]: "get_blk (add_fee b x e) c = None \<longleftrightarrow> get_blk e c = None"
  by (rule fee_store.get_addc_None)

lemma get_add_fee [tree]:
  assumes "get_blk e b = Some y"
  shows "get_fee (add_fee b x e) (c, i)
         = (if c = b \<and> i = length (b_fee y) then Some x else get_fee e (c, i))"
  by (rule fee_store.getc_addc [OF assms])

lemma get_add_fee_below [tree]:
  assumes b: "get_blk e b = Some y" and x: "f_hit x = []"
  shows "get_hit (add_fee b x e) r = get_hit e r"
    and "get_data (add_fee b x e) d = get_data e d"
proof -
  have new: "get_fee e (b, length (b_fee y)) = None"
    using b by (simp add: get_fee.simps nth_opt_def)
  show hit: "get_hit (add_fee b x e) r = get_hit e r" for r
    using x new by (cases r; cases "fst r") (auto simp: get_hit.simps get_add_fee [OF b])
  show "get_data (add_fee b x e) d = get_data e d"
    by (cases d) (simp add: get_data.simps hit)
qed

lemma get_add_hit_above [tree]:
  "get_fee (add_hit p x e) q = None \<longleftrightarrow> get_fee e q = None"
  "get_blk (add_hit p x e) b = None \<longleftrightarrow> get_blk e b = None"
  by (rule hit_store.get_addc_None, simp add: add_hit_def get_upd_fee_above)

lemma get_add_hit [tree]:
  assumes "get_fee e p = Some y"
  shows "get_hit (add_hit p x e) (q, i)
         = (if q = p \<and> i = length (f_hit y) then Some x else get_hit e (q, i))"
  by (rule hit_store.getc_addc [OF assms])

lemma get_add_hit_below [tree]:
  assumes p: "get_fee e p = Some y" and x: "h_data x = []"
  shows "get_data (add_hit p x e) d = get_data e d"
proof -
  have new: "get_hit e (p, length (f_hit y)) = None"
    using p by (simp add: get_hit.simps nth_opt_def)
  show ?thesis
    using x new by (cases d; cases "fst d") (auto simp: get_data.simps get_add_hit [OF p])
qed

lemma get_add_data_above [tree]:
  "get_hit (add_data p x e) r = None \<longleftrightarrow> get_hit e r = None"
  "get_fee (add_data p x e) q = None \<longleftrightarrow> get_fee e q = None"
  "get_blk (add_data p x e) b = None \<longleftrightarrow> get_blk e b = None"
  by (rule data_store.get_addc_None, simp_all add: add_data_def get_upd_hit_above)

lemma get_add_data [tree]:
  assumes "get_hit e p = Some y"
  shows "get_data (add_data p x e) (q, i)
         = (if q = p \<and> i = length (h_data y) then Some x else get_data e (q, i))"
  by (rule data_store.getc_addc [OF assms])

lemma get_beyond [tree]:
  "get_blk e (length (e_block e)) = None"
  "get_fee e (length (e_block e), i) = None"
  by (simp_all add: get_blk_def get_fee.simps nth_opt_def)

text \<open>Fields of the event other than its blocks.\<close>

lemma get_same_blocks:
  assumes "e_block e' = e_block e"
  shows "get_blk e' b = get_blk e b" and "get_fee e' q = get_fee e q"
    and "get_hit e' r = get_hit e r" and "get_data e' d = get_data e d"
proof -
  show blk: "get_blk e' b = get_blk e b" for b
    using assms by (simp add: get_blk_def)
  show fee: "get_fee e' q = get_fee e q" for q
    by (cases q) (simp add: get_fee.simps blk)
  show hit: "get_hit e' r = get_hit e r" for r
    by (cases r) (simp add: get_hit.simps fee)
  show "get_data e' d = get_data e d"
    by (cases d) (simp add: get_data.simps hit)
qed

lemmas get_other_fields [tree] =
  get_same_blocks [of "e\<lparr>e_ec := v\<rparr>" e for e v, simplified]
  get_same_blocks [of "e\<lparr>e_regid := v\<rparr>" e for e v, simplified]
  get_same_blocks [of "e_trinfo_update f e" e for e f, simplified]

end
