(* ===== verification/FzFSM_State.thy ===== *)
theory FzFSM_State
  imports FzEventTree
begin

section \<open>The parser state machine: tables, state and statements (parser/FzFSM.h)\<close>

text \<open>
  The constants and the transition table of FzFSM.h, the private state of the class
  \<open>FzFSM\<close> as a record, and the elementary statements its transition functions are
  made of. A statement fails where the C++ has no defined behaviour: a read of
  \<open>event[]\<close> past \<open>event_size\<close>, a pointer that was never set or whose object is no
  longer in the event, a repeated field or a static table indexed out of range, a
  \<open>float\<close> that does not fit the \<open>uint32_t\<close> it is converted to.
\<close>

unbundle bit_operations_syntax

datatype rep_field = Rep_hit | Rep_data | Rep_energy | Rep_sample

datatype fsm_error =
    EventOverrun
  | WildPtr
  | StalePtr
  | RepeatedIndex rep_field
  | TableIndex
  | FloatToUint

subsection \<open>Masks, tags and word types\<close>

definition REGID_MASK :: u16 where "REGID_MASK = 0x07FF"
definition BLKID_MASK :: u16 where "BLKID_MASK = 0x07FF"
definition EC_MASK :: u16 where "EC_MASK = 0x0FFF"
definition TELID_MASK :: u16 where "TELID_MASK = 0x0001"
definition FEEID_MASK :: u16 where "FEEID_MASK = 0x001E"
definition DTYPE_MASK :: u16 where "DTYPE_MASK = 0x0700"
definition DETID_MASK :: u16 where "DETID_MASK = 0x00E0"
definition LENGTH_MASK :: u16 where "LENGTH_MASK = 0x0FFF"
definition CRCFE_MASK :: u16 where "CRCFE_MASK = 0x0FF0"
definition CRCBL_MASK :: u16 where "CRCBL_MASK = 0x0FF0"

lemmas mask_defs = REGID_MASK_def BLKID_MASK_def EC_MASK_def TELID_MASK_def FEEID_MASK_def
  DTYPE_MASK_def DETID_MASK_def LENGTH_MASK_def CRCFE_MASK_def CRCBL_MASK_def

definition nibble :: "nat \<Rightarrow> u16 \<Rightarrow> u16" where
  "nibble n word = drop_bit (n * 4) word AND 0x000F"

definition bit_at :: "nat \<Rightarrow> u16 \<Rightarrow> u16" where
  "bit_at n word = drop_bit n word AND 0x0001"

definition PARSE_OK :: nat where "PARSE_OK = 1"
definition PARSE_FAIL :: nat where "PARSE_FAIL = 0"

definition FMT_BASIC :: int where "FMT_BASIC = 0"
definition FMT_TAG :: int where "FMT_TAG = 1"

lemmas fmt_defs = FMT_BASIC_def FMT_TAG_def

definition TAG_VOID :: u16 where "TAG_VOID = 0x3030"
definition TAG_SLOW :: u16 where "TAG_SLOW = 0x7001"
definition TAG_FAST :: u16 where "TAG_FAST = 0x7002"
definition TAG_BASELINE :: u16 where "TAG_BASELINE = 0x7003"
definition TAG_PRETRIGGER :: u16 where "TAG_PRETRIGGER = 0x7004"
definition TAG_WAVEFORM :: u16 where "TAG_WAVEFORM = 0x7005"
definition TAG_RB_COUNTERS :: u16 where "TAG_RB_COUNTERS = 0x7100"
definition TAG_RB_TIME :: u16 where "TAG_RB_TIME = 0x7101"
definition TAG_RB_GTTAG :: u16 where "TAG_RB_GTTAG = 0x7110"
definition TAG_RB_EC :: u16 where "TAG_RB_EC = 0x7111"
definition TAG_RB_TRIGPAT :: u16 where "TAG_RB_TRIGPAT = 0x7112"
definition TAG_RB_TEMP :: u16 where "TAG_RB_TEMP = 0x7113"
definition TAG_RB_CENTRUM :: u16 where "TAG_RB_CENTRUM = 0x7200"

lemmas tag_defs = TAG_VOID_def TAG_SLOW_def TAG_FAST_def TAG_BASELINE_def
  TAG_PRETRIGGER_def TAG_WAVEFORM_def TAG_RB_COUNTERS_def TAG_RB_TIME_def
  TAG_RB_GTTAG_def TAG_RB_EC_def TAG_RB_TRIGPAT_def TAG_RB_TEMP_def TAG_RB_CENTRUM_def

subsection \<open>Static tables\<close>

definition WORDTYPE_NUM :: nat where "WORDTYPE_NUM = 18"
definition STATES_NUM :: nat where "STATES_NUM = 11"
definition TRANSITION_NUM :: nat where "TRANSITION_NUM = 19"

text \<open>Row: word type. Column: current state. Entry: transition.\<close>

definition ttable :: "nat list list" where
  "ttable =
    [[ 1,  0,  4,  5,  7,  8,  0,  0,  0,  0,  0],
     [ 1,  0,  4,  5,  7,  8,  0,  0,  0,  0,  0],
     [ 1,  0,  4,  5,  7,  8,  0,  0,  0,  0,  0],
     [ 1,  0,  4,  5,  7,  8,  0,  0,  0,  0,  0],
     [ 1,  0,  4,  5,  7,  8,  0,  0,  0,  0,  0],
     [ 1,  0,  4,  5,  7,  8,  0,  0,  0,  0,  0],
     [ 1,  0,  4,  5,  7,  8,  0,  0,  0,  0,  0],
     [ 1,  0,  4,  5,  7,  8,  0,  0,  0,  0,  0],
     [ 0,  0,  0,  0,  0,  0,  0,  0,  0,  0,  0],
     [ 1,  3,  0,  0,  0, 10,  0,  0,  0,  0,  0],
     [ 1,  0,  0,  0,  0, 11,  0,  0, 15,  0,  0],
     [ 1,  0,  0,  0,  0,  0, 12,  0,  0,  0,  0],
     [ 1,  0,  0,  0,  0,  0,  0,  0,  0,  0, 18],
     [ 1,  0,  0,  0,  0,  0,  0,  0,  0, 16,  0],
     [ 2,  0,  0,  0,  0,  0,  0, 13,  0,  0, 17],
     [ 1,  0,  0,  0,  0,  0,  0,  0,  0,  0,  0],
     [ 1,  0,  0,  6,  0,  9,  0,  0,  0,  0,  0],
     [ 1, 14,  0,  0,  0,  0,  0,  0,  0,  0,  0]]"

definition FzFec_str :: "string list" where
  "FzFec_str = [''FEC#0'', ''FEC#1'', ''FEC#2'', ''FEC#3'', ''FEC#4'', ''FEC#5'', ''FEC#6'',
     ''FEC#7'', '''', '''', '''', '''', '''', '''', '''', ''ADC'', ''UNK'']"

definition FzDataType_str :: "string list" where
  "FzDataType_str = [''QH1'', ''I1'', ''QL1'', ''Q2'', ''I2'', ''Q3'', ''ADC'', ''UNK'']"

definition FzTelescope_str :: "string list" where
  "FzTelescope_str = [''A'', ''B'', ''UNK'']"

definition FzDetector_str :: "string list" where
  "FzDetector_str = [''Si1'', ''Si2'', ''CsI'', ''UNK'']"

definition FzTriggerInfoBasic_str :: "string list" where
  "FzTriggerInfoBasic_str = [''validation'', ''globtrg'', ''trigger0'', ''trigger1'',
     ''trigger2'', ''trigger3'', ''trigger4'', ''trigger5'', ''trigger6'', ''trigger7'',
     ''mantrig'', ''exttrig'', ''totaltime'', ''gttagmsb'', ''evtcntrmsb'', ''trigpattern'',
     ''temperature'']"

definition FzCentrumInfo_str :: "string list" where
  "FzCentrumInfo_str = [''centrum0'', ''centrum1'', ''centrum2'', ''centrum3'']"

text \<open>Reading a static table of strings.\<close>

definition tbl :: "string list \<Rightarrow> nat \<Rightarrow> fsm_error + string" where
  "tbl xs i = (case nth_opt xs i of None \<Rightarrow> Inl TableIndex | Some x \<Rightarrow> Inr x)"

subsection \<open>The counters (Report::FzFSM) and the log\<close>

record FsmReport =
  fr_in_bytes :: u64
  fr_out_bytes :: u64
  fr_in_events :: u64
  fr_out_events :: u64
  fr_state_invalid :: u64
  fr_events_empty :: u64
  fr_events_good :: u64
  fr_events_bad :: u64

definition new_FsmReport :: FsmReport where
  "new_FsmReport = \<lparr>fr_in_bytes = 0, fr_out_bytes = 0, fr_in_events = 0, fr_out_events = 0,
     fr_state_invalid = 0, fr_events_empty = 0, fr_events_good = 0, fr_events_bad = 0\<rparr>"

text \<open>
  The lines the machine logs, with the values it prints: the waveform and energy length
  errors carry the block, the four names looked up in the static tables, the event
  counter, the length read and the length found.
\<close>

datatype logline =
    Log_waveform_len string u32 string string string string u32 nat nat u16
  | Log_energy_len u32 string string string string u32 nat nat
  | Log_fee_len u32 u16 u32
  | Log_fee_crc u32 u16 u8
  | Log_block_len u32 u32 u16 u32
  | Log_block_crc u32 u32 u16 u8
  | Log_empty u32

subsection \<open>The state of an \<open>FzFSM\<close>\<close>

text \<open>
  \<open>event\<close> is the buffer of \<open>event_size\<close> words. The pointers \<open>blk_p\<close> to \<open>wf_p\<close> are
  \<open>None\<close> until first set (the constructor leaves them uninitialised); \<open>en_p\<close> and
  \<open>wf_p\<close> point to the energy or waveform of the datum at the path. The event under
  construction, which the caller owns, is \<open>ev\<close>.
\<close>

record fsm =
  evformat :: int
  state_id :: nat
  event :: "u16 list"
  event_index :: nat
  ev :: FzEvent
  blk_p :: "blk_path option"
  fee_p :: "fee_path option"
  hit_p :: "hit_path option"
  d_p :: "data_path option"
  en_p :: "data_path option"
  wf_p :: "data_path option"
  tmp_ec :: u16
  tmp_rawec :: u16
  tag :: u16
  tag_done :: bool
  dettag_done :: bool
  energy1_done :: bool
  energy2_done :: bool
  pretrig_done :: bool
  wflen_done :: bool
  rd_wflen :: u16
  blklen :: u32
  rd_blklen :: u16
  feelen :: u32
  rd_feelen :: u16
  blkcrc :: u16
  rd_blkcrc :: u16
  feecrc :: u16
  rd_feecrc :: u16
  save_blkcrc :: u16
  save_feecrc :: u16
  err_in_event :: bool
  event_is_empty :: bool
  fsm_report :: FsmReport
  logs :: "logline list"

type_synonym fsm_stmt = "(fsm_error, fsm) stmt"

definition event_size :: "fsm \<Rightarrow> nat" where
  "event_size s = length (event s)"

end
