(* ===== verification/FzFSM_Stmt.thy ===== *)
theory FzFSM_Stmt
  imports FzFSM_State
begin

section \<open>Elementary statements of the transition functions\<close>

text \<open>
  The reads, pointer dereferences and message accessors the bodies in FzFSM.cpp are made
  of, each with its weakest precondition in the collection \<open>wp\<close>.
\<close>

subsection \<open>Reading the event buffer\<close>

text \<open>\<open>cur f\<close> reads \<open>event[event_index]\<close>, \<open>at_off k f\<close> reads \<open>event[event_index + k]\<close>.\<close>

definition at_off :: "nat \<Rightarrow> (u16 \<Rightarrow> fsm_stmt) \<Rightarrow> fsm_stmt" where
  "at_off k f s = (case nth_opt (event s) (event_index s + k) of
     None \<Rightarrow> Inl EventOverrun | Some w \<Rightarrow> f w s)"

definition cur :: "(u16 \<Rightarrow> fsm_stmt) \<Rightarrow> fsm_stmt" where
  "cur f s = (case nth_opt (event s) (event_index s) of
     None \<Rightarrow> Inl EventOverrun | Some w \<Rightarrow> f w s)"

subsection \<open>Dereferencing the pointers\<close>

definition with_blk :: "(FzBlock \<Rightarrow> fsm_stmt) \<Rightarrow> fsm_stmt" where
  "with_blk f s = (case blk_p s of None \<Rightarrow> Inl WildPtr
     | Some p \<Rightarrow> (case get_blk (ev s) p of None \<Rightarrow> Inl StalePtr | Some x \<Rightarrow> f x s))"

definition with_fee :: "(FzFee \<Rightarrow> fsm_stmt) \<Rightarrow> fsm_stmt" where
  "with_fee f s = (case fee_p s of None \<Rightarrow> Inl WildPtr
     | Some p \<Rightarrow> (case get_fee (ev s) p of None \<Rightarrow> Inl StalePtr | Some x \<Rightarrow> f x s))"

definition with_hit :: "(FzHit \<Rightarrow> fsm_stmt) \<Rightarrow> fsm_stmt" where
  "with_hit f s = (case hit_p s of None \<Rightarrow> Inl WildPtr
     | Some p \<Rightarrow> (case get_hit (ev s) p of None \<Rightarrow> Inl StalePtr | Some x \<Rightarrow> f x s))"

definition with_d :: "(FzData \<Rightarrow> fsm_stmt) \<Rightarrow> fsm_stmt" where
  "with_d f s = (case d_p s of None \<Rightarrow> Inl WildPtr
     | Some p \<Rightarrow> (case get_data (ev s) p of None \<Rightarrow> Inl StalePtr | Some x \<Rightarrow> f x s))"

definition en_of :: "fsm \<Rightarrow> data_path \<Rightarrow> Energy option" where
  "en_of s p = Option.bind (get_data (ev s) p) d_energy"

definition wf_of :: "fsm \<Rightarrow> data_path \<Rightarrow> Waveform option" where
  "wf_of s p = Option.bind (get_data (ev s) p) d_waveform"

definition with_en :: "(Energy \<Rightarrow> fsm_stmt) \<Rightarrow> fsm_stmt" where
  "with_en f s = (case en_p s of None \<Rightarrow> Inl WildPtr
     | Some p \<Rightarrow> (case en_of s p of None \<Rightarrow> Inl StalePtr | Some x \<Rightarrow> f x s))"

definition with_wf :: "(Waveform \<Rightarrow> fsm_stmt) \<Rightarrow> fsm_stmt" where
  "with_wf f s = (case wf_p s of None \<Rightarrow> Inl WildPtr
     | Some p \<Rightarrow> (case wf_of s p of None \<Rightarrow> Inl StalePtr | Some x \<Rightarrow> f x s))"

subsection \<open>Setting fields through the pointers\<close>

definition on_blk :: "(FzBlock \<Rightarrow> FzBlock) \<Rightarrow> fsm_stmt" where
  "on_blk f = with_blk (\<lambda>_ s. Inr (s\<lparr>ev := upd_blk (the (blk_p s)) f (ev s)\<rparr>))"

definition on_fee :: "(FzFee \<Rightarrow> FzFee) \<Rightarrow> fsm_stmt" where
  "on_fee f = with_fee (\<lambda>_ s. Inr (s\<lparr>ev := upd_fee (the (fee_p s)) f (ev s)\<rparr>))"

definition on_hit :: "(FzHit \<Rightarrow> FzHit) \<Rightarrow> fsm_stmt" where
  "on_hit f = with_hit (\<lambda>_ s. Inr (s\<lparr>ev := upd_hit (the (hit_p s)) f (ev s)\<rparr>))"

definition on_d :: "(FzData \<Rightarrow> FzData) \<Rightarrow> fsm_stmt" where
  "on_d f = with_d (\<lambda>_ s. Inr (s\<lparr>ev := upd_data (the (d_p s)) f (ev s)\<rparr>))"

definition on_en :: "(Energy \<Rightarrow> Energy) \<Rightarrow> fsm_stmt" where
  "on_en f = with_en (\<lambda>_ s. Inr (s\<lparr>ev :=
     upd_data (the (en_p s)) (d_energy_update (map_option f)) (ev s)\<rparr>))"

definition on_wf :: "(Waveform \<Rightarrow> Waveform) \<Rightarrow> fsm_stmt" where
  "on_wf f = with_wf (\<lambda>_ s. Inr (s\<lparr>ev :=
     upd_data (the (wf_p s)) (d_waveform_update (map_option f)) (ev s)\<rparr>))"

subsection \<open>Adding objects and pointing at them\<close>

definition blk_add_block :: fsm_stmt where
  "blk_add_block s = Inr (s\<lparr>ev := add_block new_FzBlock (ev s),
     blk_p := Some (length (e_block (ev s)))\<rparr>)"

definition fee_add_fee :: fsm_stmt where
  "fee_add_fee = with_blk (\<lambda>x s. Inr (s\<lparr>ev := add_fee (the (blk_p s)) new_FzFee (ev s),
     fee_p := Some (the (blk_p s), length (b_fee x))\<rparr>))"

definition hit_add_hit :: fsm_stmt where
  "hit_add_hit = with_fee (\<lambda>x s. Inr (s\<lparr>ev := add_hit (the (fee_p s)) new_FzHit (ev s),
     hit_p := Some (the (fee_p s), length (f_hit x))\<rparr>))"

definition d_add_data :: fsm_stmt where
  "d_add_data = with_hit (\<lambda>x s. Inr (s\<lparr>ev := add_data (the (hit_p s)) new_FzData (ev s),
     d_p := Some (the (hit_p s), length (h_data x))\<rparr>))"

text \<open>\<open>wf = d->mutable_waveform()\<close> and \<open>en = d->mutable_energy()\<close>.\<close>

definition wf_mutable :: fsm_stmt where
  "wf_mutable = seqE [on_d mutable_waveform, modify (\<lambda>s. s\<lparr>wf_p := d_p s\<rparr>)]"

definition en_mutable :: fsm_stmt where
  "en_mutable = seqE [on_d mutable_energy, modify (\<lambda>s. s\<lparr>en_p := d_p s\<rparr>)]"

definition ev_add_trinfo :: "u32 \<Rightarrow> string \<Rightarrow> u64 \<Rightarrow> fsm_stmt" where
  "ev_add_trinfo n attr v s = Inr (s\<lparr>ev := e_trinfo_update (\<lambda>ts. ts @
     [\<lparr>ti_id = Some n, ti_attr = Some attr, ti_value = Some v\<rparr>]) (ev s)\<rparr>)"

definition write_log :: "logline \<Rightarrow> fsm_stmt" where
  "write_log l s = Inr (s\<lparr>logs := logs s @ [l]\<rparr>)"

subsection \<open>Weakest preconditions\<close>

lemma wpE_cur [wp]:
  "wpE E Q (cur f s) = (case nth_opt (event s) (event_index s) of
     None \<Rightarrow> E EventOverrun | Some w \<Rightarrow> wpE E Q (f w s))"
  by (simp add: cur_def wp split: option.split)

lemma wpE_at_off [wp]:
  "wpE E Q (at_off k f s) = (case nth_opt (event s) (event_index s + k) of
     None \<Rightarrow> E EventOverrun | Some w \<Rightarrow> wpE E Q (f w s))"
  by (simp add: at_off_def wp split: option.split)

lemma wpE_with_blk [wp]:
  "wpE E Q (with_blk f s) = (case blk_p s of None \<Rightarrow> E WildPtr
     | Some p \<Rightarrow> (case get_blk (ev s) p of None \<Rightarrow> E StalePtr | Some x \<Rightarrow> wpE E Q (f x s)))"
  by (simp add: with_blk_def wp split: option.split)

lemma wpE_with_fee [wp]:
  "wpE E Q (with_fee f s) = (case fee_p s of None \<Rightarrow> E WildPtr
     | Some p \<Rightarrow> (case get_fee (ev s) p of None \<Rightarrow> E StalePtr | Some x \<Rightarrow> wpE E Q (f x s)))"
  by (simp add: with_fee_def wp split: option.split)

lemma wpE_with_hit [wp]:
  "wpE E Q (with_hit f s) = (case hit_p s of None \<Rightarrow> E WildPtr
     | Some p \<Rightarrow> (case get_hit (ev s) p of None \<Rightarrow> E StalePtr | Some x \<Rightarrow> wpE E Q (f x s)))"
  by (simp add: with_hit_def wp split: option.split)

lemma wpE_with_d [wp]:
  "wpE E Q (with_d f s) = (case d_p s of None \<Rightarrow> E WildPtr
     | Some p \<Rightarrow> (case get_data (ev s) p of None \<Rightarrow> E StalePtr | Some x \<Rightarrow> wpE E Q (f x s)))"
  by (simp add: with_d_def wp split: option.split)

lemma wpE_with_en [wp]:
  "wpE E Q (with_en f s) = (case en_p s of None \<Rightarrow> E WildPtr
     | Some p \<Rightarrow> (case en_of s p of None \<Rightarrow> E StalePtr | Some x \<Rightarrow> wpE E Q (f x s)))"
  by (simp add: with_en_def wp split: option.split)

lemma wpE_with_wf [wp]:
  "wpE E Q (with_wf f s) = (case wf_p s of None \<Rightarrow> E WildPtr
     | Some p \<Rightarrow> (case wf_of s p of None \<Rightarrow> E StalePtr | Some x \<Rightarrow> wpE E Q (f x s)))"
  by (simp add: with_wf_def wp split: option.split)

lemma wpE_on_blk [wp]:
  "wpE E Q (on_blk f s) = (case blk_p s of None \<Rightarrow> E WildPtr
     | Some p \<Rightarrow> if get_blk (ev s) p = None then E StalePtr else Q (s\<lparr>ev := upd_blk p f (ev s)\<rparr>))"
  by (simp add: on_blk_def wp split: option.split)

lemma wpE_on_fee [wp]:
  "wpE E Q (on_fee f s) = (case fee_p s of None \<Rightarrow> E WildPtr
     | Some p \<Rightarrow> if get_fee (ev s) p = None then E StalePtr else Q (s\<lparr>ev := upd_fee p f (ev s)\<rparr>))"
  by (simp add: on_fee_def wp split: option.split)

lemma wpE_on_hit [wp]:
  "wpE E Q (on_hit f s) = (case hit_p s of None \<Rightarrow> E WildPtr
     | Some p \<Rightarrow> if get_hit (ev s) p = None then E StalePtr else Q (s\<lparr>ev := upd_hit p f (ev s)\<rparr>))"
  by (simp add: on_hit_def wp split: option.split)

lemma wpE_on_d [wp]:
  "wpE E Q (on_d f s) = (case d_p s of None \<Rightarrow> E WildPtr
     | Some p \<Rightarrow> if get_data (ev s) p = None then E StalePtr else Q (s\<lparr>ev := upd_data p f (ev s)\<rparr>))"
  by (simp add: on_d_def wp split: option.split)

lemma wpE_on_en [wp]:
  "wpE E Q (on_en f s) = (case en_p s of None \<Rightarrow> E WildPtr
     | Some p \<Rightarrow> if en_of s p = None then E StalePtr
         else Q (s\<lparr>ev := upd_data p (d_energy_update (map_option f)) (ev s)\<rparr>))"
  by (simp add: on_en_def wp split: option.split)

lemma wpE_on_wf [wp]:
  "wpE E Q (on_wf f s) = (case wf_p s of None \<Rightarrow> E WildPtr
     | Some p \<Rightarrow> if wf_of s p = None then E StalePtr
         else Q (s\<lparr>ev := upd_data p (d_waveform_update (map_option f)) (ev s)\<rparr>))"
  by (simp add: on_wf_def wp split: option.split)

lemma wpE_fee_add_fee [wp]:
  "wpE E Q (fee_add_fee s) = (case blk_p s of None \<Rightarrow> E WildPtr
     | Some p \<Rightarrow> (case get_blk (ev s) p of None \<Rightarrow> E StalePtr
       | Some x \<Rightarrow> Q (s\<lparr>ev := add_fee p new_FzFee (ev s), fee_p := Some (p, length (b_fee x))\<rparr>)))"
  by (simp add: fee_add_fee_def wp split: option.split)

lemma wpE_hit_add_hit [wp]:
  "wpE E Q (hit_add_hit s) = (case fee_p s of None \<Rightarrow> E WildPtr
     | Some p \<Rightarrow> (case get_fee (ev s) p of None \<Rightarrow> E StalePtr
       | Some x \<Rightarrow> Q (s\<lparr>ev := add_hit p new_FzHit (ev s), hit_p := Some (p, length (f_hit x))\<rparr>)))"
  by (simp add: hit_add_hit_def wp split: option.split)

lemma wpE_d_add_data [wp]:
  "wpE E Q (d_add_data s) = (case hit_p s of None \<Rightarrow> E WildPtr
     | Some p \<Rightarrow> (case get_hit (ev s) p of None \<Rightarrow> E StalePtr
       | Some x \<Rightarrow> Q (s\<lparr>ev := add_data p new_FzData (ev s), d_p := Some (p, length (h_data x))\<rparr>)))"
  by (simp add: d_add_data_def wp split: option.split)

lemma wpE_blk_add_block [wp]:
  "wpE E Q (blk_add_block s) = Q (s\<lparr>ev := add_block new_FzBlock (ev s),
     blk_p := Some (length (e_block (ev s)))\<rparr>)"
  by (simp add: blk_add_block_def wp)

lemma wpE_ev_add_trinfo [wp]:
  "wpE E Q (ev_add_trinfo n attr v s) = Q (s\<lparr>ev := e_trinfo_update (\<lambda>ts. ts @
     [\<lparr>ti_id = Some n, ti_attr = Some attr, ti_value = Some v\<rparr>]) (ev s)\<rparr>)"
  by (simp add: ev_add_trinfo_def wp)

lemma wpE_write_log [wp]: "wpE E Q (write_log l s) = Q (s\<lparr>logs := logs s @ [l]\<rparr>)"
  by (simp add: write_log_def wp)

lemma wpE_tbl [wp]:
  "wpE E Q (tbl xs i) = (if i < length xs then Q (xs ! i) else E TableIndex)"
  by (simp add: tbl_def nth_opt_def wp)

end
