(* ===== verification/FzFSM_Trans.thy ===== *)
theory FzFSM_Trans
  imports FzFSM_Stmt
begin

section \<open>The transition functions of FzFSM.cpp\<close>

text \<open>
  One definition per transition function, its body the list of the C++ statements in
  their order. Code that the C++ repeats in several transitions (the waveform and energy
  length checks, the data type of a detector header, the tag dispatch) is one definition
  here, used wherever the C++ has the copy.
\<close>

subsection \<open>Classifying a word\<close>

definition getword_id :: "u16 \<Rightarrow> nat" where
  "getword_id word =
     (let nibble3 = nibble 3 word in
      if nibble3 < 0x8 then 0
      else if nibble3 = 0x9 then (if bit_at 11 word = 0 then 16 else 9)
      else if nibble3 = 0x8 then 8
      else if nibble3 = 0xA then 10
      else if nibble3 = 0xB then 11
      else if nibble3 = 0xC then (if bit_at 11 word = 0 then 17 else 12)
      else if nibble3 = 0xD then 13
      else if nibble3 = 0xE then 14
      else 15)"

subsection \<open>Lengths and checksums\<close>

definition update_blk_len :: fsm_stmt where
  "update_blk_len = modify (\<lambda>s. s\<lparr>blklen := blklen s + 1\<rparr>)"

definition update_blk_crc :: fsm_stmt where
  "update_blk_crc = cur (\<lambda>w. modify (\<lambda>s. s\<lparr>blkcrc := blkcrc s XOR w\<rparr>))"

definition update_blk :: fsm_stmt where
  "update_blk = seqE [update_blk_len, update_blk_crc]"

definition update_fee_len :: fsm_stmt where
  "update_fee_len = modify (\<lambda>s. s\<lparr>feelen := feelen s + 1\<rparr>)"

definition update_fee_crc :: fsm_stmt where
  "update_fee_crc = cur (\<lambda>w. modify (\<lambda>s. s\<lparr>feecrc := feecrc s XOR w\<rparr>))"

definition update_fee :: fsm_stmt where
  "update_fee = seqE [update_fee_len, update_fee_crc]"

definition next_event_word :: fsm_stmt where
  "next_event_word = seqE [modify (\<lambda>s. s\<lparr>event_index := event_index s + 1\<rparr>), update_blk, update_fee]"

text \<open>The 8-bit checksum a 16-bit XOR is folded to.\<close>

definition crc8 :: "u16 \<Rightarrow> u8" where
  "crc8 crc = (let crc_lsb = ucast (crc AND 0x00FF); crc_msb = ucast (drop_bit 8 (crc AND 0xFF00))
               in (crc_lsb XOR crc_msb) AND 0xFF)"

subsection \<open>Fields of a header word\<close>

definition telid_of :: "u16 \<Rightarrow> nat" where
  "telid_of w = unat (w AND TELID_MASK)"

definition feeid_of :: "u16 \<Rightarrow> nat" where
  "feeid_of w = unat (drop_bit 1 (w AND FEEID_MASK))"

definition detid_of :: "u16 \<Rightarrow> nat" where
  "detid_of w = unat (drop_bit 5 (w AND DETID_MASK))"

definition dtype_field :: "u16 \<Rightarrow> nat" where
  "dtype_field w = unat (drop_bit 8 (w AND DTYPE_MASK))"

definition valid_feeid :: "nat \<Rightarrow> nat" where
  "valid_feeid feeid = (if feeid < FEC0 \<or> feeid > ADCF then UNKFEC else feeid)"

definition valid_telid :: "nat \<Rightarrow> nat" where
  "valid_telid telid = (if telid < Tel_A \<or> telid > Tel_B then UNKT else telid)"

definition dtype_of :: "nat \<Rightarrow> nat \<Rightarrow> FzDataType" where
  "dtype_of detid dtype =
     (if detid = Si1 \<and> dtype = 0 then QH1
      else if detid = Si1 \<and> dtype = 1 then I1
      else if detid = Si1 \<and> dtype = 2 then QL1
      else if detid = Si2 \<and> dtype = 0 then Q2
      else if detid = Si2 \<and> dtype = 1 then I2
      else if detid = CsI \<and> dtype = 0 then Q3
      else UNKDT)"

subsection \<open>Transitions from idle, S1, S2 and S3\<close>

definition trans02 :: fsm_stmt where
  "trans02 = cur (\<lambda>w. let ec = w AND EC_MASK in seqE [
     modify (\<lambda>s. s\<lparr>err_in_event := False\<rparr>),
     blk_add_block,
     on_blk (\<lambda>b. b\<lparr>b_len_error := Some True\<rparr>),
     on_blk (\<lambda>b. b\<lparr>b_crc_error := Some True\<rparr>),
     modify (\<lambda>s. s\<lparr>blklen := 1\<rparr>),
     modify (\<lambda>s. s\<lparr>blkcrc := w\<rparr>),
     modify (\<lambda>s. s\<lparr>tmp_rawec := w\<rparr>),
     modify (\<lambda>s. s\<lparr>tmp_ec := ec\<rparr>),
     modify (\<lambda>s. s\<lparr>ev := (ev s)\<lparr>e_ec := Some (ucast ec)\<rparr>\<rparr>)])"

definition trans03 :: fsm_stmt where
  "trans03 = cur (\<lambda>w. let telid = telid_of w; feeid = feeid_of w in seqE [
     update_blk,
     modify (\<lambda>s. s\<lparr>feelen := 2\<rparr>),
     modify (\<lambda>s. s\<lparr>feecrc := tmp_rawec s XOR w\<rparr>),
     fee_add_fee,
     on_fee (\<lambda>f. f\<lparr>f_len_error := Some True\<rparr>),
     on_fee (\<lambda>f. f\<lparr>f_crc_error := Some True\<rparr>),
     on_fee (\<lambda>f. f\<lparr>f_feeid := Some (valid_feeid feeid)\<rparr>),
     hit_add_hit,
     (\<lambda>s. on_hit (\<lambda>h. h\<lparr>h_ec := Some (ucast (tmp_ec s))\<rparr>) s),
     on_hit (\<lambda>h. h\<lparr>h_telid := Some (valid_telid telid)\<rparr>),
     with_fee (\<lambda>f. on_hit (\<lambda>h. h\<lparr>h_feeid := Some (get_or FEC0 (f_feeid f))\<rparr>))])"

definition trans04 :: fsm_stmt where
  "trans04 = seqE [
     update_blk,
     update_fee,
     cur (\<lambda>w. on_hit (\<lambda>h. h\<lparr>h_gttag := Some (ucast w)\<rparr>)),
     modify (\<lambda>s. s\<lparr>dettag_done := False\<rparr>)]"

definition trans05 :: fsm_stmt where
  "trans05 = seqE [
     update_blk,
     update_fee,
     (\<lambda>s. if \<not> dettag_done s
          then seqE [cur (\<lambda>w. on_hit (\<lambda>h. h\<lparr>h_dettag := Some (ucast w)\<rparr>)),
                     modify (\<lambda>s. s\<lparr>dettag_done := True\<rparr>)] s
          else cur (\<lambda>w. on_hit (\<lambda>h. h\<lparr>h_trigpat := Some (ucast w)\<rparr>)) s)]"

definition d_set_type :: "FzDataType \<Rightarrow> fsm_stmt" where
  "d_set_type t = on_d (\<lambda>d. d\<lparr>d_type := Some t\<rparr>)"

text \<open>\<open>wf = d->mutable_waveform(); wf->set_len_error(true);\<close>\<close>

definition wf_begin :: fsm_stmt where
  "wf_begin = seqE [wf_mutable, on_wf (\<lambda>x. x\<lparr>wf_len_error := Some True\<rparr>)]"

definition en_begin :: "bool \<Rightarrow> fsm_stmt" where
  "en_begin err = seqE [en_mutable, on_en (\<lambda>x. x\<lparr>en_len_error := Some err\<rparr>)]"

definition set_err_in_event :: fsm_stmt where
  "set_err_in_event = modify (\<lambda>s. s\<lparr>err_in_event := True\<rparr>)"

definition when_basic :: "fsm_stmt list \<Rightarrow> fsm_stmt" where
  "when_basic fs s = (if evformat s = FMT_BASIC then seqE fs s else Inr s)"

definition trans06_data :: "nat \<Rightarrow> FzDataType \<Rightarrow> fsm_stmt" where
  "trans06_data feeid dtype =
     (if feeid = ADCF then seqE [d_set_type ADC, when_basic [wf_begin]]
      else if dtype = QH1 then seqE [d_set_type QH1, when_basic [en_begin False, wf_begin]]
      else if dtype = I1 then seqE [d_set_type I1, when_basic [wf_begin]]
      else if dtype = QL1 then seqE [d_set_type QL1, when_basic [wf_begin]]
      else if dtype = Q2 then seqE [d_set_type Q2, when_basic [en_begin False, wf_begin]]
      else if dtype = I2 then seqE [d_set_type I2, when_basic [wf_begin]]
      else if dtype = Q3 then seqE [d_set_type Q3, when_basic [en_begin False, wf_begin]]
      else seqE [d_set_type UNKDT, when_basic [wf_begin], set_err_in_event])"

definition trans06 :: fsm_stmt where
  "trans06 = cur (\<lambda>w.
     let feeid = feeid_of w; detid = detid_of w; dtype = dtype_of detid (dtype_field w) in seqE [
     update_blk,
     update_fee,
     on_hit (\<lambda>h. h\<lparr>h_detid := Some detid\<rparr>),
     d_add_data,
     trans06_data feeid dtype])"

end
