(* ===== verification/FzFSM_Basic.thy ===== *)
theory FzFSM_Basic
  imports FzFSM_Trans
begin

section \<open>Transitions of the basic event format\<close>

text \<open>
  The transitions of S4 and S5 for \<open>evformat == FMT_BASIC\<close>, where a datum is its energy
  words (QH1, Q2, Q3), the pretrigger, the waveform length and the samples, and the
  checks on the lengths that the S5 transitions of both formats share.
\<close>

definition d_type_of :: "FzData \<Rightarrow> FzDataType" where
  "d_type_of x = get_or QH1 (d_type x)"

definition without_energy :: "FzDataType \<Rightarrow> bool" where
  "without_energy t \<longleftrightarrow> t = I1 \<or> t = QL1 \<or> t = I2 \<or> t = ADC \<or> t = UNKDT"

definition en_add_value :: "u16 \<Rightarrow> fsm_stmt" where
  "en_add_value w = on_en (\<lambda>e. e\<lparr>en_value := en_value e @ [ucast w]\<rparr>)"

text \<open>\<open>en->set_value(i, v)\<close> with \<open>v\<close> computed from \<open>en->value(i)\<close>.\<close>

definition en_map_value :: "nat \<Rightarrow> (u32 \<Rightarrow> fsm_error + u32) \<Rightarrow> fsm_stmt" where
  "en_map_value i g = with_en (\<lambda>e s. case nth_opt (en_value e) i of
     None \<Rightarrow> Inl (RepeatedIndex Rep_energy)
   | Some v \<Rightarrow> bindE (g v) (\<lambda>v'. on_en (\<lambda>e. e\<lparr>en_value := (en_value e)[i := v']\<rparr>) s))"

text \<open>\<open>en->set_value(i, (en->value(i) << 15) + event[event_index])\<close>\<close>

definition en_low_word :: "nat \<Rightarrow> fsm_stmt" where
  "en_low_word i = cur (\<lambda>w. en_map_value i (\<lambda>v. Inr (push_bit 15 v + ucast w)))"

definition wf_add_sample :: fsm_stmt where
  "wf_add_sample = cur (\<lambda>w. on_wf (\<lambda>x. x\<lparr>wf_sample := wf_sample x @ [ucast w]\<rparr>))"

definition wf_set_pretrig :: fsm_stmt where
  "wf_set_pretrig = cur (\<lambda>w. on_wf (\<lambda>x. x\<lparr>wf_pretrig := Some (ucast w)\<rparr>))"

subsection \<open>S4 \<open>\<rightarrow>\<close> S5\<close>

definition trans07_basic :: fsm_stmt where
  "trans07_basic = seqE [
     modify (\<lambda>s. s\<lparr>energy1_done := False, energy2_done := False, pretrig_done := False,
       wflen_done := False\<rparr>),
     modify (\<lambda>s. s\<lparr>rd_wflen := 0\<rparr>),
     update_blk,
     update_fee,
     with_d (\<lambda>x s.
       if without_energy (d_type_of x)
       then (if \<not> pretrig_done s
             then seqE [wf_set_pretrig, modify (\<lambda>s. s\<lparr>pretrig_done := True\<rparr>)] s
             else Inr s)
       else if d_type_of x = QH1 \<or> d_type_of x = Q2 \<or> d_type_of x = Q3
       then (if \<not> energy1_done s then cur en_add_value s else Inr s)
       else Inr s)]"

subsection \<open>Collecting samples in S5\<close>

text \<open>One round of the sample loops: store the word, keep the sums before it, add it.\<close>

definition sample_body :: fsm_stmt where
  "sample_body = seqE [
     wf_add_sample,
     modify (\<lambda>s. s\<lparr>save_blkcrc := blkcrc s\<rparr>),
     update_blk,
     modify (\<lambda>s. s\<lparr>save_feecrc := feecrc s\<rparr>),
     update_fee,
     modify (\<lambda>s. s\<lparr>event_index := event_index s + 1\<rparr>)]"

lemma sample_body_frame:
  "sample_body s = Inr t \<Longrightarrow> event t = event s \<and> event_index t = Suc (event_index s)"
  by (auto simp: sample_body_def wf_add_sample_def update_blk_def update_fee_def
      update_blk_len_def update_blk_crc_def update_fee_len_def update_fee_crc_def
      cur_def on_wf_def with_wf_def modify_def bindE_Inr_iff split: option.splits)

text \<open>\<open>while(event[event_index] <= 0x7FFF)\<close>\<close>

function boost_loop :: fsm_stmt where
  "boost_loop s =
     (if event_index s < length (event s)
      then if event s ! event_index s \<le> 0x7FFF
           then (case sample_body s of Inl e \<Rightarrow> Inl e | Inr t \<Rightarrow> boost_loop t)
           else Inr s
      else Inl EventOverrun)"
  by pat_completeness auto
termination
  by (relation "measure (\<lambda>s. length (event s) - event_index s)") (auto dest!: sample_body_frame)

declare boost_loop.simps [simp del]

text \<open>\<open>while(nsample < rd_wflen)\<close>, with \<open>n\<close> samples still to read.\<close>

primrec wflen_loop :: "nat \<Rightarrow> fsm_stmt" where
  "wflen_loop 0 s = Inr s"
| "wflen_loop (Suc n) s = bindE (sample_body s) (wflen_loop n)"

definition restore_saved_crc :: fsm_stmt where
  "restore_saved_crc = seqE [
     modify (\<lambda>s. s\<lparr>blkcrc := save_blkcrc s\<rparr>),
     modify (\<lambda>s. s\<lparr>feecrc := save_feecrc s\<rparr>)]"

text \<open>
  The index goes back by one because the caller's loop adds one. It is at least one here:
  S5 is never the state of the first word of an event.
\<close>

definition step_back :: fsm_stmt where
  "step_back = seqE [
     modify (\<lambda>s. s\<lparr>event_index := event_index s - 1\<rparr>),
     modify (\<lambda>s. s\<lparr>blklen := blklen s - 1\<rparr>),
     modify (\<lambda>s. s\<lparr>feelen := feelen s - 1\<rparr>)]"

definition gather_boost :: fsm_stmt where
  "gather_boost = seqE [restore_saved_crc, boost_loop, step_back]"

text \<open>
  The first six words of an ADC waveform: two values of three words. The shifts are done
  on \<open>int\<close>, so at 32 bits; the sign of the sum is extended to 64.
\<close>

definition adc_word3 :: "u16 \<Rightarrow> u16 \<Rightarrow> u16 \<Rightarrow> u64" where
  "adc_word3 a b c =
     scast (push_bit 22 (ucast a :: u32) + push_bit 7 (ucast b) + ucast (drop_bit 8 c) :: u32)"

definition adc_sign :: "u64 \<Rightarrow> u64" where
  "adc_sign v = (if v AND 0x1000000000 \<noteq> 0 then 0xFFFFFFE000000000 + v else v)"

definition adc_skip :: fsm_stmt where
  "adc_skip = seqE [update_blk, update_fee, modify (\<lambda>s. s\<lparr>event_index := event_index s + 1\<rparr>)]"

definition adc_sine_cosine :: fsm_stmt where
  "adc_sine_cosine = seqE ([
     at_off 0 (\<lambda>a. at_off 1 (\<lambda>b. at_off 2 (\<lambda>c. at_off 3 (\<lambda>a'. at_off 4 (\<lambda>b'. at_off 5 (\<lambda>c'.
       seqE [on_d (\<lambda>d. d\<lparr>d_sine := Some (adc_sign (adc_word3 a b c))\<rparr>),
             on_d (\<lambda>d. d\<lparr>d_cosine := Some (adc_sign (adc_word3 a' b' c'))\<rparr>)])))))),
     adc_skip, adc_skip, adc_skip, adc_skip, adc_skip, adc_skip,
     modify (\<lambda>s. s\<lparr>save_blkcrc := blkcrc s\<rparr>),
     modify (\<lambda>s. s\<lparr>save_feecrc := feecrc s\<rparr>)])"

subsection \<open>S5 \<open>\<rightarrow>\<close> S5\<close>

definition store_wflen :: fsm_stmt where
  "store_wflen = cur (\<lambda>w. seqE [modify (\<lambda>s. s\<lparr>rd_wflen := w\<rparr>), modify (\<lambda>s. s\<lparr>wflen_done := True\<rparr>)])"

definition store_pretrig :: fsm_stmt where
  "store_pretrig = seqE [wf_set_pretrig, modify (\<lambda>s. s\<lparr>pretrig_done := True\<rparr>)]"

definition store_energy1 :: fsm_stmt where
  "store_energy1 = seqE [en_low_word 0, modify (\<lambda>s. s\<lparr>energy1_done := True\<rparr>)]"

definition store_energy2 :: fsm_stmt where
  "store_energy2 = with_en (\<lambda>e.
     if length (en_value e) = 1 then cur en_add_value
     else seqE [en_low_word 1, modify (\<lambda>s. s\<lparr>energy2_done := True\<rparr>)])"

definition trans08_one_energy :: fsm_stmt where
  "trans08_one_energy s =
     (if \<not> energy1_done s then store_energy1 s
      else if \<not> pretrig_done s then store_pretrig s
      else if \<not> wflen_done s then store_wflen s
      else gather_boost s)"

definition trans08_two_energies :: fsm_stmt where
  "trans08_two_energies s =
     (if \<not> energy1_done s then store_energy1 s
      else if \<not> energy2_done s
      then store_energy2 s
      else if \<not> pretrig_done s then store_pretrig s
      else if \<not> wflen_done s then store_wflen s
      else gather_boost s)"

definition trans08_no_energy :: "FzDataType \<Rightarrow> fsm_stmt" where
  "trans08_no_energy t s =
     (if \<not> wflen_done s then store_wflen s
      else seqE [restore_saved_crc,
                 if t = ADC then adc_sine_cosine else skip,
                 (\<lambda>s. wflen_loop (unat (rd_wflen s)) s),
                 step_back] s)"

definition trans08_basic :: fsm_stmt where
  "trans08_basic = seqE [
     update_blk,
     update_fee,
     with_d (\<lambda>x.
       if d_type_of x = QH1 \<or> d_type_of x = Q2 then trans08_one_energy
       else if d_type_of x = Q3 then trans08_two_energies
       else if without_energy (d_type_of x) then trans08_no_energy (d_type_of x)
       else skip)]"

subsection \<open>The length checks on leaving S5\<close>

text \<open>
  The warnings name the block, the front-end, the telescope, the detector and the data
  type, looked up in the static tables with the values stored in the event.
\<close>

definition log_names ::
  "(u32 \<Rightarrow> string \<Rightarrow> string \<Rightarrow> string \<Rightarrow> string \<Rightarrow> u32 \<Rightarrow> fsm_stmt) \<Rightarrow> fsm_stmt" where
  "log_names f = with_blk (\<lambda>b. with_hit (\<lambda>h. with_d (\<lambda>d s.
     bindE (tbl FzFec_str (get_or FEC0 (h_feeid h))) (\<lambda>fec.
     bindE (tbl FzTelescope_str (get_or Tel_A (h_telid h))) (\<lambda>tel.
     bindE (tbl FzDetector_str (get_or Si1 (h_detid h))) (\<lambda>det.
     bindE (tbl FzDataType_str (FzDataType_value (d_type_of d))) (\<lambda>dt.
       f (get_or 0 (b_blkid b)) fec tel det dt (get_or 0 (e_ec (ev s))) s)))))))"

definition log_waveform_len :: "string \<Rightarrow> fsm_stmt" where
  "log_waveform_len lbl = log_names (\<lambda>blkid fec tel det dt ec. with_wf (\<lambda>x. cur (\<lambda>w s.
     write_log (Log_waveform_len lbl blkid fec tel det dt ec (unat (rd_wflen s))
       (length (wf_sample x)) w) s)))"

definition check_waveform_len :: "string \<Rightarrow> fsm_stmt" where
  "check_waveform_len lbl = with_wf (\<lambda>x s.
     if unat (rd_wflen s) = length (wf_sample x)
     then on_wf (\<lambda>x. x\<lparr>wf_len_error := Some False\<rparr>) s
     else seqE [log_waveform_len lbl,
                on_wf (\<lambda>x. x\<lparr>wf_len_error := Some True\<rparr>),
                set_err_in_event] s)"

definition check_energy_size :: "nat \<Rightarrow> fsm_stmt" where
  "check_energy_size n = with_en (\<lambda>e.
     if length (en_value e) = n
     then on_en (\<lambda>e. e\<lparr>en_len_error := Some False\<rparr>)
     else seqE [log_names (\<lambda>blkid fec tel det dt ec.
                  write_log (Log_energy_len blkid fec tel det dt ec (length (en_value e)) n)),
                on_en (\<lambda>e. e\<lparr>en_len_error := Some True\<rparr>),
                set_err_in_event])"

definition check_energy_len :: fsm_stmt where
  "check_energy_len = with_d (\<lambda>x.
     if d_type_of x = Q3 then check_energy_size 2
     else if d_type_of x = QH1 \<or> d_type_of x = Q2 then check_energy_size 1
     else skip)"

subsection \<open>S5 \<open>\<rightarrow>\<close> S4, S5 \<open>\<rightarrow>\<close> S2, S5 \<open>\<rightarrow>\<close> S6\<close>

definition trans09_basic_data :: "nat \<Rightarrow> FzDataType \<Rightarrow> fsm_stmt" where
  "trans09_basic_data feeid dtype =
     (if feeid = ADCF then seqE [d_set_type ADC, wf_begin]
      else if dtype = QH1 then seqE [d_set_type QH1, en_begin True, wf_begin]
      else if dtype = I1 then seqE [d_set_type I1, wf_begin]
      else if dtype = QL1 then seqE [d_set_type QL1, wf_begin]
      else if dtype = Q2 then seqE [d_set_type Q2, en_begin True, wf_begin]
      else if dtype = I2 then seqE [d_set_type I2, wf_begin]
      else if dtype = Q3 then seqE [d_set_type Q3, en_begin True, wf_begin]
      else seqE [d_set_type UNKDT, wf_begin, set_err_in_event])"

text \<open>The new hit takes the tags of the one before it, and gets its first datum.\<close>

definition trans09_basic_hit :: "nat \<Rightarrow> nat \<Rightarrow> nat \<Rightarrow> fsm_stmt" where
  "trans09_basic_hit feeid telid detid = seqE [
     with_hit (\<lambda>h. let gttag = get_or 0 (h_gttag h); dettag = get_or 0 (h_dettag h) in seqE [
       hit_add_hit,
       (\<lambda>s. on_hit (\<lambda>h. h\<lparr>h_ec := Some (get_or 0 (e_ec (ev s)))\<rparr>) s),
       on_hit (\<lambda>h. h\<lparr>h_gttag := Some gttag\<rparr>),
       on_hit (\<lambda>h. h\<lparr>h_dettag := Some dettag\<rparr>)]),
     on_hit (\<lambda>h. h\<lparr>h_detid := Some detid\<rparr>),
     on_hit (\<lambda>h. h\<lparr>h_telid := Some (valid_telid telid)\<rparr>),
     on_hit (\<lambda>h. h\<lparr>h_feeid := Some (valid_feeid feeid)\<rparr>),
     d_add_data]"

definition trans09_basic :: fsm_stmt where
  "trans09_basic = cur (\<lambda>w.
     let feeid = feeid_of w; telid = telid_of w; detid = detid_of w;
         dtype = dtype_of detid (dtype_field w) in seqE [
     update_blk,
     update_fee,
     check_waveform_len ''S5->S4'',
     check_energy_len,
     trans09_basic_hit feeid telid detid,
     trans09_basic_data (valid_feeid feeid) dtype])"

text \<open>The new hit both formats begin on a telescope header inside S5.\<close>

definition trans10_hit :: "u16 \<Rightarrow> fsm_stmt" where
  "trans10_hit w = seqE [
     hit_add_hit,
     (\<lambda>s. on_hit (\<lambda>h. h\<lparr>h_ec := Some (get_or 0 (e_ec (ev s)))\<rparr>) s),
     on_hit (\<lambda>h. h\<lparr>h_feeid := Some (valid_feeid (feeid_of w))\<rparr>),
     on_hit (\<lambda>h. h\<lparr>h_telid := Some (valid_telid (telid_of w))\<rparr>)]"

definition trans10_basic :: fsm_stmt where
  "trans10_basic = cur (\<lambda>w. seqE [
     update_blk,
     update_fee,
     check_waveform_len ''S5->S2'',
     check_energy_len,
     trans10_hit w])"

definition trans11_basic :: fsm_stmt where
  "trans11_basic = cur (\<lambda>w. let len = w AND LENGTH_MASK in seqE [
     modify (\<lambda>s. s\<lparr>rd_feelen := len\<rparr>),
     update_blk,
     check_waveform_len ''S5->S6'',
     check_energy_len])"

end
