(* ===== verification/FzFSM_Tag.thy ===== *)
theory FzFSM_Tag
  imports FzFSM_Basic
begin

section \<open>Transitions of the tag event format\<close>

text \<open>
  The transitions of S4 and S5 for \<open>evformat == FMT_TAG\<close>, where a datum is a sequence of
  tagged values: a tag word, a length word, then the words of the value.
\<close>

subsection \<open>The tag word\<close>

text \<open>\<open>if(d->has_waveform() == false) { wf = d->mutable_waveform(); wf->set_len_error(true); }\<close>\<close>

definition wf_begin_if_none :: fsm_stmt where
  "wf_begin_if_none = with_d (\<lambda>x. if d_waveform x = None then wf_begin else skip)"

definition select_tag :: fsm_stmt where
  "select_tag = seqE [
     cur (\<lambda>w. modify (\<lambda>s. s\<lparr>tag := w\<rparr>)),
     (\<lambda>s. if tag s \<noteq> TAG_VOID
          then seqE [
            (\<lambda>s. if tag s = TAG_PRETRIGGER then wf_begin_if_none s
                 else if tag s = TAG_WAVEFORM then wf_begin_if_none s
                 else if tag s = TAG_SLOW then en_begin False s
                 else if tag s = TAG_FAST then en_begin False s
                 else Inr s),
            modify (\<lambda>s. s\<lparr>tag_done := True\<rparr>)] s
          else Inr s)]"

definition trans07_tag :: fsm_stmt where
  "trans07_tag = seqE [
     modify (\<lambda>s. s\<lparr>tag_done := False, wflen_done := False\<rparr>),
     modify (\<lambda>s. s\<lparr>rd_wflen := 0\<rparr>),
     update_blk,
     update_fee,
     (\<lambda>s. if \<not> tag_done s then select_tag s else Inr s)]"

subsection \<open>The values\<close>

text \<open>One round of \<open>while (nsample < rd_wflen)\<close>: the word is already in the sums.\<close>

definition tag_sample_body :: fsm_stmt where
  "tag_sample_body = seqE [
     wf_add_sample,
     modify (\<lambda>s. s\<lparr>save_blkcrc := blkcrc s\<rparr>),
     modify (\<lambda>s. s\<lparr>save_feecrc := feecrc s\<rparr>),
     next_event_word]"

primrec tag_sample_loop :: "nat \<Rightarrow> fsm_stmt" where
  "tag_sample_loop 0 s = Inr s"
| "tag_sample_loop (Suc n) s = bindE (tag_sample_body s) (tag_sample_loop n)"

definition tag_waveform :: fsm_stmt where
  "tag_waveform = seqE [
     (\<lambda>s. tag_sample_loop (unat (rd_wflen s)) s),
     step_back,
     restore_saved_crc]"

text \<open>\<open>(uint32_t)((float)value / (float)risetime * 1000)\<close>\<close>

definition energy_scale :: "u16 \<Rightarrow> u32 \<Rightarrow> fsm_error + u32" where
  "energy_scale risetime v =
     (case f32_div (f32_of_int (uint v)) (f32_of_int (uint risetime)) of
        None \<Rightarrow> Inl FloatToUint
      | Some q \<Rightarrow> (case f32_to_u32 (f32_mul q (f32_of_int 1000)) of
          None \<Rightarrow> Inl FloatToUint | Some u \<Rightarrow> Inr u))"

definition tag_energy :: "nat \<Rightarrow> fsm_stmt" where
  "tag_energy i = cur (\<lambda>risetime. seqE [
     next_event_word,
     cur en_add_value,
     next_event_word,
     en_low_word i,
     en_map_value i (energy_scale risetime)])"

text \<open>A 30-bit two's complement number in sixteenths.\<close>

definition baseline_int :: "u16 \<Rightarrow> u16 \<Rightarrow> int" where
  "baseline_int a b =
     (let temp_baseline = sint (push_bit 15 (ucast a :: u32) + ucast b) in
      if temp_baseline > 536870911 then temp_baseline - 1073741824 else temp_baseline)"

definition f32_div16 :: "f32 \<Rightarrow> f32" where
  "f32_div16 x = (case x of (s, n, k) \<Rightarrow> (s, n, k + 4))"

definition tag_baseline :: fsm_stmt where
  "tag_baseline = cur (\<lambda>a. seqE [
     next_event_word,
     cur (\<lambda>b. on_d (\<lambda>d. d\<lparr>d_baseline := Some (f32_div16 (f32_of_int (baseline_int a b)))\<rparr>))])"

text \<open>\<open>for(int i=0; i<rd_wflen; i++)\<close> with \<open>n\<close> counters still to read.\<close>

primrec rb_counters :: "nat \<Rightarrow> nat \<Rightarrow> fsm_stmt" where
  "rb_counters 0 i s = Inr s"
| "rb_counters (Suc n) i s =
     bindE (tbl FzTriggerInfoBasic_str i) (\<lambda>attr.
       seqE [cur (\<lambda>w. ev_add_trinfo (0x100 + of_nat i) attr (ucast w)),
             if n \<noteq> 0 then next_event_word else skip,
             rb_counters n (Suc i)] s)"

definition trinfo_attr :: "nat \<Rightarrow> string" where
  "trinfo_attr i = FzTriggerInfoBasic_str ! i"

definition tag_rb_time :: fsm_stmt where
  "tag_rb_time = cur (\<lambda>a. seqE [
     next_event_word,
     cur (\<lambda>b. ev_add_trinfo 0x10C (trinfo_attr 0xC) ((push_bit 15 (ucast a) + ucast b) * 4 div 150))])"

definition tag_rb_gttag :: fsm_stmt where
  "tag_rb_gttag = cur (\<lambda>a. seqE [
     next_event_word,
     cur (\<lambda>b. with_hit (\<lambda>h. ev_add_trinfo 0x10D (trinfo_attr 0xD)
       (push_bit 15 (push_bit 15 (ucast a) + ucast b) + ucast (get_or 0 (h_gttag h)))))])"

definition tag_rb_ec :: fsm_stmt where
  "tag_rb_ec = cur (\<lambda>a. seqE [
     next_event_word,
     cur (\<lambda>b. with_hit (\<lambda>h. ev_add_trinfo 0x10E (trinfo_attr 0xE)
       (push_bit 12 (push_bit 15 (ucast a) + ucast b) + ucast (get_or 0 (h_ec h)))))])"

definition tag_rb_centrum_pair :: "u32 \<Rightarrow> string \<Rightarrow> fsm_stmt" where
  "tag_rb_centrum_pair n attr = cur (\<lambda>a. seqE [
     next_event_word,
     cur (\<lambda>b. ev_add_trinfo n attr (push_bit 15 (ucast a) + ucast b))])"

definition tag_rb_centrum :: fsm_stmt where
  "tag_rb_centrum = seqE [
     cur (\<lambda>w. ev_add_trinfo 0x200 ''centrum0''
       (ucast (w AND 0x003F) + push_bit 15 (ucast (w AND 0xF800)))),
     next_event_word,
     tag_rb_centrum_pair 0x201 ''centrum1'',
     next_event_word,
     tag_rb_centrum_pair 0x202 ''centrum2'',
     next_event_word,
     tag_rb_centrum_pair 0x203 ''centrum3'']"

definition tag_value :: fsm_stmt where
  "tag_value s =
     (if tag s = TAG_PRETRIGGER then wf_set_pretrig s
      else if tag s = TAG_WAVEFORM then tag_waveform s
      else if tag s = TAG_SLOW then tag_energy 0 s
      else if tag s = TAG_FAST then tag_energy 1 s
      else if tag s = TAG_BASELINE then tag_baseline s
      else if tag s = TAG_RB_COUNTERS then rb_counters (unat (rd_wflen s)) 0 s
      else if tag s = TAG_RB_TIME then tag_rb_time s
      else if tag s = TAG_RB_GTTAG then tag_rb_gttag s
      else if tag s = TAG_RB_EC then tag_rb_ec s
      else if tag s = TAG_RB_TRIGPAT
      then cur (\<lambda>w. ev_add_trinfo 0x10F (trinfo_attr 0xF) (ucast w)) s
      else if tag s = TAG_RB_TEMP
      then cur (\<lambda>w. ev_add_trinfo 0x110 (trinfo_attr 0x10) (ucast w)) s
      else if tag s = TAG_RB_CENTRUM then tag_rb_centrum s
      else Inr s)"

definition trans08_tag :: fsm_stmt where
  "trans08_tag = seqE [
     update_blk,
     update_fee,
     (\<lambda>s. if \<not> tag_done s then select_tag s
          else if \<not> wflen_done s then store_wflen s
          else seqE [
            tag_value,
            (\<lambda>s. if tag s = TAG_WAVEFORM then check_waveform_len ''S5->S5'' s else Inr s),
            modify (\<lambda>s. s\<lparr>tag_done := False, wflen_done := False\<rparr>),
            modify (\<lambda>s. s\<lparr>rd_wflen := 0\<rparr>)] s)]"

subsection \<open>S5 \<open>\<rightarrow>\<close> S4, S5 \<open>\<rightarrow>\<close> S2, S5 \<open>\<rightarrow>\<close> S6\<close>

definition trans09_tag_data :: "nat \<Rightarrow> FzDataType \<Rightarrow> fsm_stmt" where
  "trans09_tag_data feeid dtype =
     (if feeid = ADCF then d_set_type ADC
      else if dtype = UNKDT then seqE [d_set_type UNKDT, set_err_in_event]
      else d_set_type dtype)"

definition trans09_tag_hit :: "nat \<Rightarrow> nat \<Rightarrow> nat \<Rightarrow> fsm_stmt" where
  "trans09_tag_hit feeid telid detid = seqE [
     with_hit (\<lambda>h. let gttag = get_or 0 (h_gttag h); dettag = get_or 0 (h_dettag h);
         trigpat = get_or 0 (h_trigpat h) in seqE [
       hit_add_hit,
       (\<lambda>s. on_hit (\<lambda>h. h\<lparr>h_ec := Some (get_or 0 (e_ec (ev s)))\<rparr>) s),
       on_hit (\<lambda>h. h\<lparr>h_gttag := Some gttag\<rparr>),
       on_hit (\<lambda>h. h\<lparr>h_dettag := Some dettag\<rparr>),
       on_hit (\<lambda>h. h\<lparr>h_trigpat := Some trigpat\<rparr>)]),
     on_hit (\<lambda>h. h\<lparr>h_detid := Some detid\<rparr>),
     on_hit (\<lambda>h. h\<lparr>h_telid := Some (valid_telid telid)\<rparr>),
     on_hit (\<lambda>h. h\<lparr>h_feeid := Some (valid_feeid feeid)\<rparr>),
     d_add_data]"

definition trans09_tag :: fsm_stmt where
  "trans09_tag = cur (\<lambda>w.
     let feeid = feeid_of w; telid = telid_of w; detid = detid_of w;
         dtype = dtype_of detid (dtype_field w) in seqE [
     update_blk,
     update_fee,
     trans09_tag_hit feeid telid detid,
     trans09_tag_data (valid_feeid feeid) dtype])"

definition trans10_tag :: fsm_stmt where
  "trans10_tag = cur (\<lambda>w. seqE [update_blk, update_fee, trans10_hit w])"

definition trans11_tag :: fsm_stmt where
  "trans11_tag = cur (\<lambda>w. let len = w AND LENGTH_MASK in seqE [
     modify (\<lambda>s. s\<lparr>rd_feelen := len\<rparr>),
     update_blk])"

end
