(* ===== verification/FzFSM_Process.thy ===== *)
theory FzFSM_Process
  imports FzFSM_Tag
begin

section \<open>Closing transitions and the event loop\<close>

text \<open>
  The transitions that check and close a front-end card, a block and an event, the
  trigger information of the basic format, and \<open>init\<close>, \<open>import\<close> and \<open>process\<close>. The
  loop of \<open>process\<close> may not end, so it is a \<open>partial_function (option)\<close>: \<open>None\<close> is a
  run that does not return.
\<close>

subsection \<open>S6 \<open>\<rightarrow>\<close> S7, S7 \<open>\<rightarrow>\<close> S1, S1 \<open>\<rightarrow>\<close> S8, S8 \<open>\<rightarrow>\<close> S9\<close>

definition trans12 :: fsm_stmt where
  "trans12 = cur (\<lambda>w. let crcfe = drop_bit 4 (w AND CRCFE_MASK) in seqE [
     update_blk,
     modify (\<lambda>s. s\<lparr>rd_feecrc := crcfe\<rparr>),
     modify (\<lambda>s. s\<lparr>rd_feecrc := rd_feecrc s AND 0x00FF\<rparr>),
     (\<lambda>s. if feelen s AND 0xFFF = ucast (rd_feelen s)
          then on_fee (\<lambda>f. f\<lparr>f_len_error := Some False\<rparr>) s
          else seqE [
            write_log (Log_fee_len (get_or 0 (e_ec (ev s))) (rd_feelen s) (feelen s)),
            on_fee (\<lambda>f. f\<lparr>f_len_error := Some True\<rparr>),
            set_err_in_event] s),
     (\<lambda>s. let crc_calc = crc8 (feecrc s) in
          if rd_feecrc s = ucast crc_calc
          then on_fee (\<lambda>f. f\<lparr>f_crc_error := Some False\<rparr>) s
          else seqE [
            write_log (Log_fee_crc (get_or 0 (e_ec (ev s))) (rd_feecrc s) crc_calc),
            on_fee (\<lambda>f. f\<lparr>f_crc_error := Some True\<rparr>),
            set_err_in_event] s)])"

definition trans13 :: fsm_stmt where
  "trans13 = cur (\<lambda>w. let ec = w AND EC_MASK in seqE [
     modify (\<lambda>s. s\<lparr>tmp_ec := ec\<rparr>),
     modify (\<lambda>s. s\<lparr>tmp_rawec := w\<rparr>),
     update_blk])"

definition trans14 :: fsm_stmt where
  "trans14 = cur (\<lambda>w. let blkid = w AND BLKID_MASK in seqE [
     update_blk,
     on_blk (\<lambda>b. b\<lparr>b_blkid := Some (ucast blkid)\<rparr>)])"

definition trans15 :: fsm_stmt where
  "trans15 = cur (\<lambda>w. let len = w AND LENGTH_MASK in seqE [
     modify (\<lambda>s. s\<lparr>rd_blklen := len\<rparr>),
     modify (\<lambda>s. s\<lparr>blkcrc := blkcrc s XOR w\<rparr>)])"

subsection \<open>Trigger information of the basic format\<close>

definition trig_attr :: "u32 \<Rightarrow> fsm_error + string" where
  "trig_attr a =
     (let idx = unat (ucast a :: u8) in
      if sint a \<ge> 0x200
      then (if idx \<le> 4 then tbl FzCentrumInfo_str idx else Inr ''unknown'')
      else (if idx \<le> 15 then tbl FzTriggerInfoBasic_str idx else Inr ''unknown''))"

definition trig_supp :: "FzHit \<Rightarrow> u32 \<Rightarrow> u32 \<Rightarrow> u32 \<Rightarrow> u32" where
  "trig_supp h a b c =
     (let supp = push_bit 15 b + c in
      if a = 0x10C then (supp * 4) div 150000000
      else if a = 0x10D then push_bit 15 supp + get_or 0 (h_gttag h)
      else if a = 0x10E then push_bit 12 supp + get_or 0 (h_ec h)
      else if a = 0x10F then supp AND 0x00FF
      else supp)"

fun read_trig_samples :: "FzHit \<Rightarrow> u32 list \<Rightarrow> fsm_stmt" where
  "read_trig_samples h [] s = Inr s"
| "read_trig_samples h (a # b # c # rest) s =
     bindE (trig_attr a) (\<lambda>attr.
       seqE [ev_add_trinfo a attr (ucast (trig_supp h a b c)), read_trig_samples h rest] s)"
| "read_trig_samples h _ s = Inl (RepeatedIndex Rep_sample)"

definition read_triggerinfo :: "FzFee \<Rightarrow> fsm_stmt" where
  "read_triggerinfo fee s =
     (case nth_opt (f_hit fee) 0 of None \<Rightarrow> Inl (RepeatedIndex Rep_hit)
      | Some hit \<Rightarrow> (case nth_opt (h_data hit) 0 of None \<Rightarrow> Inl (RepeatedIndex Rep_data)
      | Some data \<Rightarrow>
          if evformat s = FMT_BASIC
          then read_trig_samples hit (wf_sample (get_or new_Waveform (d_waveform data))) s
          else Inr s))"

subsection \<open>S9 \<open>\<rightarrow>\<close> S10, S10 \<open>\<rightarrow>\<close> S1, S10 \<open>\<rightarrow>\<close> idle\<close>

definition block_RemoveLast :: fsm_stmt where
  "block_RemoveLast = modify (\<lambda>s. s\<lparr>ev := e_block_update butlast (ev s)\<rparr>)"

definition check_block_len :: fsm_stmt where
  "check_block_len = with_blk (\<lambda>b s. if (blklen s AND 0x0FFF) + 2 = ucast (rd_blklen s)
          then on_blk (\<lambda>b. b\<lparr>b_len_error := Some False\<rparr>) s
          else seqE [
            write_log (Log_block_len (get_or 0 (b_blkid b)) (get_or 0 (e_ec (ev s)))
              (rd_blklen s) (blklen s AND 0x0FFF)),
            on_blk (\<lambda>b. b\<lparr>b_len_error := Some True\<rparr>),
            set_err_in_event] s)"

definition check_block_crc :: fsm_stmt where
  "check_block_crc = with_blk (\<lambda>b s. let crc_calc = crc8 (blkcrc s) in
          if rd_blkcrc s = ucast crc_calc
          then seqE [
            on_blk (\<lambda>b. b\<lparr>b_crc_error := Some False\<rparr>),
            if get_or 0 (b_blkid b) = 0x7FF
            then seqE [
              (\<lambda>s. if evformat s = FMT_BASIC
                   then (case b_fee b of [] \<Rightarrow> Inr s | fee # _ \<Rightarrow> read_triggerinfo fee s)
                   else Inr s),
              block_RemoveLast]
            else skip] s
          else seqE [
            write_log (Log_block_crc (get_or 0 (b_blkid b)) (get_or 0 (e_ec (ev s)))
              (rd_blkcrc s) crc_calc),
            on_blk (\<lambda>b. b\<lparr>b_crc_error := Some True\<rparr>),
            set_err_in_event] s)"

definition trans16 :: fsm_stmt where
  "trans16 = cur (\<lambda>w. let crcbl = drop_bit 4 (w AND CRCBL_MASK) in seqE [
     modify (\<lambda>s. s\<lparr>rd_blkcrc := crcbl\<rparr>),
     modify (\<lambda>s. s\<lparr>rd_blkcrc := rd_blkcrc s AND 0x00FF\<rparr>),
     check_block_len,
     check_block_crc])"

definition trans17 :: fsm_stmt where
  "trans17 = cur (\<lambda>w. let ec = w AND EC_MASK in seqE [
     blk_add_block,
     on_blk (\<lambda>b. b\<lparr>b_len_error := Some True\<rparr>),
     on_blk (\<lambda>b. b\<lparr>b_crc_error := Some True\<rparr>),
     modify (\<lambda>s. s\<lparr>blklen := 1\<rparr>),
     modify (\<lambda>s. s\<lparr>blkcrc := w\<rparr>),
     modify (\<lambda>s. s\<lparr>tmp_rawec := w\<rparr>),
     modify (\<lambda>s. s\<lparr>tmp_ec := ec\<rparr>),
     modify (\<lambda>s. s\<lparr>ev := (ev s)\<lparr>e_ec := Some (ucast ec)\<rparr>\<rparr>)])"

definition ev_is_empty :: "FzEvent \<Rightarrow> bool" where
  "ev_is_empty e \<longleftrightarrow> e_trinfo e = [] \<and> \<not> list_ex (\<lambda>b. b_fee b \<noteq> []) (e_block e)"

definition on_report :: "(FsmReport \<Rightarrow> FsmReport) \<Rightarrow> fsm_stmt" where
  "on_report f = modify (\<lambda>s. s\<lparr>fsm_report := f (fsm_report s)\<rparr>)"

definition trans18 :: fsm_stmt where
  "trans18 = cur (\<lambda>w. let regid = w AND REGID_MASK in seqE [
     modify (\<lambda>s. s\<lparr>ev := (ev s)\<lparr>e_regid := Some (ucast regid)\<rparr>\<rparr>),
     modify (\<lambda>s. s\<lparr>event_is_empty := ev_is_empty (ev s)\<rparr>),
     (\<lambda>s. if event_is_empty s
          then seqE [on_report (\<lambda>r. r\<lparr>fr_events_empty := fr_events_empty r + 1\<rparr>),
                     write_log (Log_empty (get_or 0 (e_ec (ev s))))] s
          else seqE [
            (if err_in_event s
             then on_report (\<lambda>r. r\<lparr>fr_events_bad := fr_events_bad r + 1\<rparr>)
             else on_report (\<lambda>r. r\<lparr>fr_events_good := fr_events_good r + 1\<rparr>)),
            modify (\<lambda>s. s\<lparr>err_in_event := False\<rparr>)] s)])"

subsection \<open>Dispatch\<close>

definition goto :: "nat \<Rightarrow> fsm_stmt" where
  "goto k = modify (\<lambda>s. s\<lparr>state_id := k\<rparr>)"

text \<open>\<open>if(evformat == FMT_BASIC) b(); else if(evformat == FMT_TAG) t();\<close>\<close>

definition by_format :: "fsm_stmt \<Rightarrow> fsm_stmt \<Rightarrow> fsm_stmt" where
  "by_format b t s = (if evformat s = FMT_BASIC then b s
     else if evformat s = FMT_TAG then t s else Inr s)"

definition trans_invalid :: fsm_stmt where
  "trans_invalid = seqE [
     goto 0,
     modify (\<lambda>s. s\<lparr>ev := new_FzEvent\<rparr>),
     on_report (\<lambda>r. r\<lparr>fr_state_invalid := fr_state_invalid r + 1\<rparr>)]"

text \<open>The \<open>switch(trans_id)\<close>; the flag is \<open>retval\<close>.\<close>

definition run_transition :: "nat \<Rightarrow> nat \<Rightarrow> fsm \<Rightarrow> fsm_error + (nat \<times> fsm)" where
  "run_transition trans_id retval s = bindE
     ((if trans_id = 0 then trans_invalid
       else if trans_id = 1 then skip
       else if trans_id = 2 then seqE [trans02, goto 1]
       else if trans_id = 3 then seqE [trans03, goto 2]
       else if trans_id = 4 then seqE [trans04, goto 3]
       else if trans_id = 5 then seqE [trans05, goto 3]
       else if trans_id = 6 then seqE [trans06, goto 4]
       else if trans_id = 7 then seqE [by_format trans07_basic trans07_tag, goto 5]
       else if trans_id = 8 then seqE [by_format trans08_basic trans08_tag, goto 5]
       else if trans_id = 9 then seqE [by_format trans09_basic trans09_tag, goto 4]
       else if trans_id = 10 then seqE [by_format trans10_basic trans10_tag, goto 2]
       else if trans_id = 11 then seqE [by_format trans11_basic trans11_tag, goto 6]
       else if trans_id = 12 then seqE [trans12, goto 7]
       else if trans_id = 13 then seqE [trans13, goto 1]
       else if trans_id = 14 then seqE [trans14, goto 8]
       else if trans_id = 15 then seqE [trans15, goto 9]
       else if trans_id = 16 then seqE [trans16, goto 10]
       else if trans_id = 17 then seqE [trans17, goto 1]
       else if trans_id = 18 then seqE [trans18, goto 0]
       else skip) s)
     (\<lambda>t. Inr (if trans_id = 18 then PARSE_OK else retval, t))"

text \<open>One turn of the \<open>for\<close> loop, with its \<open>event_index++\<close>.\<close>

definition process_step :: "nat \<times> fsm \<Rightarrow> fsm_error + (nat \<times> fsm)" where
  "process_step rs = (case rs of (retval, s) \<Rightarrow>
     (case nth_opt (event s) (event_index s) of
        None \<Rightarrow> Inl EventOverrun
      | Some w \<Rightarrow>
          let word_id = getword_id w in
          bindE (if word_id = 8 then Inr (retval, s)
                 else run_transition (ttable ! word_id ! state_id s) retval s)
            (\<lambda>(r, t). Inr (r, t\<lparr>event_index := event_index t + 1\<rparr>))))"

partial_function (option) process_loop ::
  "nat \<times> fsm \<Rightarrow> (fsm_error + (nat \<times> fsm)) option" where
  "process_loop rs =
     (if event_index (snd rs) < length (event (snd rs))
      then (case process_step rs of Inl e \<Rightarrow> Some (Inl e) | Inr rs' \<Rightarrow> process_loop rs')
      else Some (Inr rs))"

declare process_loop.simps [code]

text \<open>\<open>event_size*2\<close> is a product of 32-bit unsigned numbers.\<close>

definition event_bytes :: "fsm \<Rightarrow> u64" where
  "event_bytes s = ucast (of_nat (event_size s) * 2 :: u32)"

definition fsm_process :: "fsm \<Rightarrow> (fsm_error + (nat \<times> fsm)) option" where
  "fsm_process s0 =
     (let s = s0\<lparr>event_index := 0,
            fsm_report := (fsm_report s0)\<lparr>fr_in_events := fr_in_events (fsm_report s0) + 1,
              fr_in_bytes := fr_in_bytes (fsm_report s0) + event_bytes s0\<rparr>\<rparr> in
      map_option (\<lambda>r. bindE r (\<lambda>(retval, t).
          Inr (retval, t\<lparr>fsm_report := (fsm_report t)\<lparr>
            fr_out_events := fr_out_events (fsm_report t) + 1,
            fr_out_bytes := fr_out_bytes (fsm_report t) + event_bytes t\<rparr>\<rparr>)))
        (process_loop (PARSE_FAIL, s)))"

definition fsm_init :: "int \<Rightarrow> fsm \<Rightarrow> fsm" where
  "fsm_init evf s = s\<lparr>event := [], event_index := 0, state_id := 0, evformat := evf\<rparr>"

definition fsm_import :: "u16 list \<Rightarrow> fsm \<Rightarrow> fsm" where
  "fsm_import evraw s = s\<lparr>event := evraw, state_id := 0, ev := new_FzEvent\<rparr>"

end
