(* ===== verification/FzFSM_Inv.thy ===== *)
theory FzFSM_Inv
  imports FzFSM_Process
begin

section \<open>The pointers of the state machine are always good\<close>

text \<open>
  One predicate per state says which pointers are live there and what they point to;
  every transition keeps it. So no transition dereferences a pointer that was never set
  or whose object has left the event, and the reads of \<open>fee(0)\<close>, \<open>hit(0)\<close> and
  \<open>data(0)\<close> in \<open>read_triggerinfo\<close> are in range.
\<close>

subsection \<open>The invariant\<close>

definition opt_all :: "('a \<Rightarrow> bool) \<Rightarrow> 'a option \<Rightarrow> bool" where
  "opt_all P x = (case x of None \<Rightarrow> True | Some a \<Rightarrow> P a)"

definition opt_ex :: "('a \<Rightarrow> bool) \<Rightarrow> 'a option \<Rightarrow> bool" where
  "opt_ex P x = (case x of None \<Rightarrow> False | Some a \<Rightarrow> P a)"

lemma opt_all_simps [simp]: "opt_all P None" "opt_all P (Some a) = P a"
  by (simp_all add: opt_all_def)

lemma opt_ex_simps [simp]: "\<not> opt_ex P None" "opt_ex P (Some a) = P a"
  by (simp_all add: opt_ex_def)

lemma opt_ex_iff: "opt_ex P x \<longleftrightarrow> (\<exists>a. x = Some a \<and> P a)"
  by (cases x) simp_all

definition has_blk :: "fsm \<Rightarrow> bool" where
  "has_blk s \<longleftrightarrow> opt_ex (\<lambda>p. get_blk (ev s) p \<noteq> None) (blk_p s)"

definition has_fee :: "fsm \<Rightarrow> bool" where
  "has_fee s \<longleftrightarrow> opt_ex (\<lambda>p. get_fee (ev s) p \<noteq> None) (fee_p s)"

definition has_hit :: "fsm \<Rightarrow> bool" where
  "has_hit s \<longleftrightarrow> opt_ex (\<lambda>p. get_hit (ev s) p \<noteq> None) (hit_p s)"

text \<open>The first card of the current block has a first hit, and that hit a first datum,
  unless it is the hit still being opened.\<close>

definition first_complete :: "fsm \<Rightarrow> bool" where
  "first_complete s \<longleftrightarrow> opt_all (\<lambda>b. get_fee (ev s) (b, 0) \<noteq> None \<longrightarrow>
     get_hit (ev s) ((b, 0), 0) \<noteq> None \<and> get_data (ev s) (((b, 0), 0), 0) \<noteq> None) (blk_p s)"

definition first_open :: "fsm \<Rightarrow> bool" where
  "first_open s \<longleftrightarrow> opt_all (\<lambda>b. get_fee (ev s) (b, 0) \<noteq> None \<longrightarrow>
     get_hit (ev s) ((b, 0), 0) \<noteq> None \<and>
     (get_data (ev s) (((b, 0), 0), 0) \<noteq> None \<or> hit_p s = Some ((b, 0), 0))) (blk_p s)"

definition data_ok :: "fsm \<Rightarrow> (FzData \<Rightarrow> bool) \<Rightarrow> bool" where
  "data_ok s P \<longleftrightarrow> opt_ex (\<lambda>p. opt_ex P (get_data (ev s) p)) (d_p s)"

text \<open>What the current datum is ready for in S4 and in S5, by event format.\<close>

definition fmt4 :: "fsm \<Rightarrow> FzData \<Rightarrow> bool" where
  "fmt4 s x \<longleftrightarrow>
     (evformat s = FMT_BASIC \<longrightarrow> wf_p s = d_p s \<and> d_waveform x \<noteq> None \<and>
        (\<not> without_energy (d_type_of x) \<longrightarrow> en_p s = d_p s \<and> d_energy x \<noteq> None)) \<and>
     (evformat s = FMT_TAG \<longrightarrow> d_waveform x = None)"

definition fmt5 :: "fsm \<Rightarrow> FzData \<Rightarrow> bool" where
  "fmt5 s x \<longleftrightarrow>
     (evformat s = FMT_BASIC \<longrightarrow> wf_p s = d_p s \<and> d_waveform x \<noteq> None \<and>
        (\<not> without_energy (d_type_of x) \<longrightarrow>
           en_p s = d_p s \<and> (\<exists>e. d_energy x = Some e \<and> en_value e \<noteq> []))) \<and>
     (evformat s = FMT_TAG \<longrightarrow>
        (d_waveform x \<noteq> None \<longrightarrow> wf_p s = d_p s) \<and>
        (tag_done s \<longrightarrow> tag s = TAG_PRETRIGGER \<or> tag s = TAG_WAVEFORM \<longrightarrow> d_waveform x \<noteq> None) \<and>
        (tag_done s \<longrightarrow> tag s = TAG_SLOW \<or> tag s = TAG_FAST \<longrightarrow>
           en_p s = d_p s \<and> d_energy x \<noteq> None))"

definition fsm_inv :: "nat \<Rightarrow> fsm \<Rightarrow> bool" where
  "fsm_inv k s \<longleftrightarrow>
    (if k = 1 \<or> k = 7 \<or> k = 8 \<or> k = 9 then has_blk s \<and> first_complete s
     else if k = 2 \<or> k = 3 then has_blk s \<and> has_fee s \<and> has_hit s \<and> first_open s
     else if k = 4 then has_blk s \<and> has_fee s \<and> has_hit s \<and> first_complete s \<and> data_ok s (fmt4 s)
     else if k = 5 then has_blk s \<and> has_fee s \<and> has_hit s \<and> first_complete s \<and> data_ok s (fmt5 s)
     else if k = 6 then has_blk s \<and> has_fee s \<and> first_complete s
     else k = 0 \<or> k = 10)"

text \<open>The errors that remain possible: none of them is a bad pointer.\<close>

definition no_bad_ptr :: "int \<Rightarrow> fsm_error \<Rightarrow> bool" where
  "no_bad_ptr fmt e \<longleftrightarrow> e \<noteq> WildPtr \<and> e \<noteq> StalePtr \<and> e \<noteq> RepeatedIndex Rep_hit \<and>
     e \<noteq> RepeatedIndex Rep_data \<and> (fmt = FMT_BASIC \<longrightarrow> e \<noteq> RepeatedIndex Rep_energy)"

lemma no_bad_ptr_simps [simp]:
  "no_bad_ptr F EventOverrun" "no_bad_ptr F TableIndex" "no_bad_ptr F FloatToUint"
  "no_bad_ptr F (RepeatedIndex Rep_sample)" "no_bad_ptr FMT_TAG (RepeatedIndex Rep_energy)"
  by (simp_all add: no_bad_ptr_def fmt_defs)

lemma fmt_distinct [simp]: "FMT_BASIC \<noteq> FMT_TAG" "FMT_TAG \<noteq> FMT_BASIC"
  by (simp_all add: fmt_defs)

lemmas inv_defs = has_blk_def has_fee_def has_hit_def first_complete_def first_open_def data_ok_def

lemmas update_defs = update_blk_def update_fee_def update_blk_len_def update_blk_crc_def
  update_fee_len_def update_fee_crc_def

lemma new_kids [simp]:
  "b_fee new_FzBlock = []" "f_hit new_FzFee = []" "h_data new_FzHit = []"
  "d_waveform new_FzData = None" "d_energy new_FzData = None" "d_type new_FzData = None"
  "en_value new_Energy = []"
  by (simp_all add: new_FzBlock_def new_FzFee_def new_FzHit_def new_FzData_def new_Energy_def)

subsection \<open>Transitions outside the data\<close>

text \<open>\<open>fit k fmt t\<close>: \<open>t\<close> is fit for state \<open>k\<close> and has the format \<open>fmt\<close>.\<close>

definition fit :: "nat \<Rightarrow> int \<Rightarrow> fsm \<Rightarrow> bool" where
  "fit k fmt t \<longleftrightarrow> fsm_inv k t \<and> evformat t = fmt"

lemma fit_simps:
  "fit 0 F t \<longleftrightarrow> evformat t = F"
  "fit 10 F t \<longleftrightarrow> evformat t = F"
  "fit 1 F t \<longleftrightarrow> has_blk t \<and> first_complete t \<and> evformat t = F"
  "fit (Suc 0) F t \<longleftrightarrow> has_blk t \<and> first_complete t \<and> evformat t = F"
  "fit 7 F t \<longleftrightarrow> has_blk t \<and> first_complete t \<and> evformat t = F"
  "fit 8 F t \<longleftrightarrow> has_blk t \<and> first_complete t \<and> evformat t = F"
  "fit 9 F t \<longleftrightarrow> has_blk t \<and> first_complete t \<and> evformat t = F"
  "fit 2 F t \<longleftrightarrow> has_blk t \<and> has_fee t \<and> has_hit t \<and> first_open t \<and> evformat t = F"
  "fit 3 F t \<longleftrightarrow> has_blk t \<and> has_fee t \<and> has_hit t \<and> first_open t \<and> evformat t = F"
  "fit 4 F t \<longleftrightarrow> has_blk t \<and> has_fee t \<and> has_hit t \<and> first_complete t \<and> data_ok t (fmt4 t) \<and> evformat t = F"
  "fit 5 F t \<longleftrightarrow> has_blk t \<and> has_fee t \<and> has_hit t \<and> first_complete t \<and> data_ok t (fmt5 t) \<and> evformat t = F"
  "fit 6 F t \<longleftrightarrow> has_blk t \<and> has_fee t \<and> first_complete t \<and> evformat t = F"
  by (auto simp: fit_def fsm_inv_def)

lemma trans02_fit: "evformat s = F \<Longrightarrow> wpE (no_bad_ptr F) (fit 1 F) (trans02 s)"
  by (auto simp: trans02_def Let_def wp fit_simps inv_defs tree split: option.split)

lemma trans03_fit:
  "fit 1 F s \<Longrightarrow> wpE (no_bad_ptr F) (fit 2 F) (trans03 s)"
  by (auto simp: trans03_def update_defs Let_def wp fit_simps inv_defs opt_ex_iff tree split: option.split)

lemma trans04_fit:
  "fit 2 F s \<Longrightarrow> wpE (no_bad_ptr F) (fit 3 F) (trans04 s)"
  by (auto simp: trans04_def update_defs Let_def wp fit_simps inv_defs opt_ex_iff tree split: option.split)

lemma trans05_fit:
  "fit 3 F s \<Longrightarrow> wpE (no_bad_ptr F) (fit 3 F) (trans05 s)"
  by (auto simp: trans05_def update_defs Let_def wp fit_simps inv_defs opt_ex_iff tree split: option.split)

lemma trans12_fit:
  "fit 6 F s \<Longrightarrow> wpE (no_bad_ptr F) (fit 7 F) (trans12 s)"
  by (auto simp: trans12_def update_defs set_err_in_event_def Let_def wp fit_simps inv_defs opt_ex_iff tree split: option.split)

lemma trans13_fit:
  "fit 7 F s \<Longrightarrow> wpE (no_bad_ptr F) (fit 1 F) (trans13 s)"
  by (auto simp: trans13_def update_defs Let_def wp fit_simps inv_defs opt_ex_iff tree split: option.split)

lemma trans14_fit:
  "fit 1 F s \<Longrightarrow> wpE (no_bad_ptr F) (fit 8 F) (trans14 s)"
  by (auto simp: trans14_def update_defs Let_def wp fit_simps inv_defs opt_ex_iff tree split: option.split)

lemma trans15_fit:
  "fit 8 F s \<Longrightarrow> wpE (no_bad_ptr F) (fit 9 F) (trans15 s)"
  by (auto simp: trans15_def update_defs Let_def wp fit_simps inv_defs opt_ex_iff tree split: option.split)

lemma trans17_fit: "evformat s = F \<Longrightarrow> wpE (no_bad_ptr F) (fit 1 F) (trans17 s)"
  by (auto simp: trans17_def Let_def wp fit_simps inv_defs opt_ex_iff tree split: option.split)

lemma trans18_fit: "evformat s = F \<Longrightarrow> wpE (no_bad_ptr F) (fit 0 F) (trans18 s)"
  by (auto simp: trans18_def on_report_def Let_def wp fit_simps inv_defs opt_ex_iff tree split: option.split)

subsection \<open>What the transitions of the data leave alone\<close>

text \<open>
  Inside a datum the statements change fields but neither the pointers to the block, the
  card, the hit and the datum nor which objects the event holds.
\<close>

lemma get_mutable [simp]:
  "d_waveform (mutable_waveform x) = Some (get_or new_Waveform (d_waveform x))"
  "d_energy (mutable_energy x) = Some (get_or new_Energy (d_energy x))"
  "d_energy (mutable_waveform x) = d_energy x" "d_waveform (mutable_energy x) = d_waveform x"
  "d_type (mutable_waveform x) = d_type x" "d_type (mutable_energy x) = d_type x"
  by (simp_all add: mutable_waveform_def mutable_energy_def)

definition same_shape :: "fsm \<Rightarrow> fsm \<Rightarrow> bool" where
  "same_shape s t \<longleftrightarrow> evformat t = evformat s \<and> blk_p t = blk_p s \<and> fee_p t = fee_p s \<and>
     hit_p t = hit_p s \<and> d_p t = d_p s \<and>
     (\<forall>q. (get_blk (ev t) q = None) = (get_blk (ev s) q = None)) \<and>
     (\<forall>q. (get_fee (ev t) q = None) = (get_fee (ev s) q = None)) \<and>
     (\<forall>q. (get_hit (ev t) q = None) = (get_hit (ev s) q = None)) \<and>
     (\<forall>q. (get_data (ev t) q = None) = (get_data (ev s) q = None))"

lemma get_upd_same_level [tree]:
  "get_blk (upd_blk b f e) b' = None \<longleftrightarrow> get_blk e b' = None"
  "get_fee (upd_fee p g e) p' = None \<longleftrightarrow> get_fee e p' = None"
  "get_hit (upd_hit q h e) q' = None \<longleftrightarrow> get_hit e q' = None"
  "get_data (upd_data r k e) r' = None \<longleftrightarrow> get_data e r' = None"
  by (simp_all add: tree)

lemmas data_defs = d_set_type_def wf_begin_def en_begin_def wf_mutable_def en_mutable_def
  set_err_in_event_def when_basic_def wf_of_def en_of_def d_type_of_def without_energy_def

lemma trans06_data_ok:
 assumes "d_p s = Some p" "get_data (ev s) p = Some x" "d_waveform x = None" "d_energy x = None"
 shows "wpE E (\<lambda>t. same_shape s t \<and> data_ok t (fmt4 t)) (trans06_data feeid dtype s)"
 using assms by (simp add: trans06_data_def data_defs wp tree same_shape_def data_ok_def fmt4_def cong: if_cong)


lemma same_shape_refl: "same_shape s s"
  by (simp add: same_shape_def)

lemma same_shape_trans: "same_shape s t \<Longrightarrow> same_shape t u \<Longrightarrow> same_shape s u"
  by (simp add: same_shape_def)

lemma same_shape_keeps:
  assumes "same_shape s t"
  shows "has_blk t = has_blk s" and "has_fee t = has_fee s" and "has_hit t = has_hit s"
    and "first_complete t = first_complete s" and "evformat t = evformat s"
  using assms
  by (cases "blk_p s"; cases "fee_p s"; cases "hit_p s";
      simp add: same_shape_def inv_defs)+

lemma data_okE:
  assumes "data_ok s P"
  obtains p x where "d_p s = Some p" and "get_data (ev s) p = Some x" and "P x"
  using assms by (auto simp: data_ok_def opt_ex_iff)

text \<open>All pointers of S4 and S5 are live, and the datum satisfies \<open>P\<close>.\<close>

definition live :: "int \<Rightarrow> (FzData \<Rightarrow> bool) \<Rightarrow> fsm \<Rightarrow> bool" where
  "live F P s \<longleftrightarrow> has_blk s \<and> has_fee s \<and> has_hit s \<and> first_complete s \<and> data_ok s P \<and> evformat s = F"

lemma fit_4_live: "fit 4 F s \<longleftrightarrow> live F (fmt4 s) s"
  by (auto simp: fit_simps live_def)

lemma fit_5_live: "fit 5 F s \<longleftrightarrow> live F (fmt5 s) s"
  by (auto simp: fit_simps live_def)

lemma live_shape:
  assumes "live F P s" and "wpE E (\<lambda>t. same_shape s t \<and> data_ok t (Q t)) r"
  shows "wpE E (\<lambda>t. live F (Q t) t) r"
  using assms(2) by (rule wpE_mono) (use assms(1) in \<open>auto simp: live_def same_shape_keeps\<close>)

lemma trans06_data_fit:
  assumes "live F (\<lambda>x. d_waveform x = None \<and> d_energy x = None) s"
  shows "wpE E (fit 4 F) (trans06_data feeid dtype s)"
proof -
  from assms obtain p x where "d_p s = Some p" "get_data (ev s) p = Some x"
    "d_waveform x = None" "d_energy x = None"
    by (auto simp: live_def elim: data_okE)
  from live_shape [OF assms trans06_data_ok [OF this]]
  show ?thesis by (rule wpE_mono) (simp add: fit_4_live)
qed

lemma has_ptrD:
  "has_blk s \<Longrightarrow> \<exists>b. blk_p s = Some b \<and> get_blk (ev s) b \<noteq> None"
  "has_fee s \<Longrightarrow> \<exists>r. fee_p s = Some r \<and> get_fee (ev s) r \<noteq> None"
  "has_hit s \<Longrightarrow> \<exists>h y. hit_p s = Some h \<and> get_hit (ev s) h = Some y"
  by (auto simp: inv_defs opt_ex_iff)

lemma trans06_fit:
  assumes "fit 3 F s"
  shows "wpE (no_bad_ptr F) (fit 4 F) (trans06 s)"
proof -
  from assms [unfolded fit_simps]
  have A: "has_blk s" "has_fee s" "has_hit s" "first_open s" "evformat s = F" by blast+
  from A(1) [THEN has_ptrD(1)] A(2) [THEN has_ptrD(2)] A(3) [THEN has_ptrD(3)]
  obtain b r h y where p: "blk_p s = Some b" "get_blk (ev s) b \<noteq> None"
    "fee_p s = Some r" "get_fee (ev s) r \<noteq> None" "hit_p s = Some h" "get_hit (ev s) h = Some y"
    by blast
  from A(4) p have q: "get_fee (ev s) (b, 0) \<noteq> None \<Longrightarrow> get_hit (ev s) ((b, 0), 0) \<noteq> None \<and>
      (get_data (ev s) (((b, 0), 0), 0) \<noteq> None \<or> h = ((b, 0), 0))"
    by (simp add: first_open_def)
  from p(6) have r: "h_data y \<noteq> [] \<Longrightarrow> get_data (ev s) (h, 0) \<noteq> None"
    by (simp add: get_data.simps nth_opt_def)
  show ?thesis
  proof (cases "nth_opt (event s) (event_index s)")
    case None
    with p show ?thesis by (simp add: trans06_def wp)
  next
    case (Some w)
    have "wpE (no_bad_ptr F) (fit 4 F) (trans06_data feeid dtype
      (s\<lparr>blklen := blklen s + 1, blkcrc := blkcrc s XOR w, feelen := feelen s + 1,
         feecrc := feecrc s XOR w,
         ev := add_data h new_FzData (upd_hit h (h_detid_update (\<lambda>_. Some (detid_of w))) (ev s)),
         d_p := Some (h, length (h_data y))\<rparr>))" for feeid dtype
      using p q r A(5)
      by (intro trans06_data_fit)
        (auto simp: live_def inv_defs tree)
    with p Some show ?thesis
      by (simp add: trans06_def Let_def wp update_defs tree)
  qed
qed

lemma d_type_of_upd [simp]:
  "d_type_of (d_energy_update f x) = d_type_of x" "d_type_of (d_waveform_update g x) = d_type_of x"
  "d_type_of (d_sine_update f1 x) = d_type_of x" "d_type_of (d_cosine_update g1 x) = d_type_of x"
  "d_type_of (d_baseline_update f2 x) = d_type_of x"
  by (simp_all add: d_type_of_def)

lemma trans07_basic_fit:
  assumes "fit 4 FMT_BASIC s"
  shows "wpE (no_bad_ptr FMT_BASIC) (fit 5 FMT_BASIC) (trans07_basic s)"
proof -
  from assms obtain p x where p: "d_p s = Some p" "get_data (ev s) p = Some x" "fmt4 s x" "evformat s = FMT_BASIC"
    by (auto simp: fit_4_live live_def elim: data_okE)
  then obtain w where "d_waveform x = Some w" "wf_p s = Some p" by (auto simp: fmt4_def)
  with p have "wpE (no_bad_ptr FMT_BASIC) (\<lambda>t. same_shape s t \<and> data_ok t (fmt5 t)) (trans07_basic s)"
   by (cases "d_type_of x") (auto simp: trans07_basic_def wf_set_pretrig_def en_add_value_def wp tree same_shape_def data_ok_def fmt5_def fmt4_def 
     update_defs wf_of_def en_of_def without_energy_def cong: if_cong split: option.split)
  from live_shape [OF assms [unfolded fit_4_live] this]
  show ?thesis by (rule wpE_mono) (simp add: fit_5_live)
qed


end
