(* ===== verification/FzFSM_Calm.thy ===== *)
theory FzFSM_Calm
  imports FzFSM_Inv
begin

section \<open>Statements that leave the event's objects in place\<close>

text \<open>
  \<open>calm s t\<close>: from \<open>s\<close> to \<open>t\<close> no object was added or removed, no pointer moved, and
  every datum kept its type, its energy and whether it has a waveform. The sample loops,
  the trigger information and the length checks on the waveform are calm, so they keep
  what S5 needs of its datum.
\<close>

definition calm :: "fsm \<Rightarrow> fsm \<Rightarrow> bool" where
  "calm s t \<longleftrightarrow> same_shape s t \<and> wf_p t = wf_p s \<and> en_p t = en_p s \<and>
     tag t = tag s \<and> tag_done t = tag_done s \<and>
     (\<forall>p x. get_data (ev s) p = Some x \<longrightarrow> (\<exists>y. get_data (ev t) p = Some y \<and>
        d_type y = d_type x \<and> d_energy y = d_energy x \<and>
        (d_waveform y = None) = (d_waveform x = None)))"

lemma calm_refl: "calm s s"
  by (simp add: calm_def same_shape_refl)

lemma calm_trans: "calm s t \<Longrightarrow> calm t u \<Longrightarrow> calm s u"
  unfolding calm_def by (fastforce intro: same_shape_trans)

lemma calm_frame:
  assumes "calm s t"
  shows "same_shape s t" "wf_p t = wf_p s" "en_p t = en_p s" "tag t = tag s" "tag_done t = tag_done s"
    "d_p t = d_p s" "evformat t = evformat s"
  using assms by (simp_all add: calm_def same_shape_def)

lemma calm_dataD:
  "calm s t \<Longrightarrow> get_data (ev s) p = Some x \<Longrightarrow> \<exists>y. get_data (ev t) p = Some y \<and>
        d_type y = d_type x \<and> d_energy y = d_energy x \<and>
        (d_waveform y = None) = (d_waveform x = None)"
  by (simp add: calm_def)

definition wf_ok :: "fsm \<Rightarrow> bool" where
  "wf_ok s \<longleftrightarrow> opt_ex (\<lambda>p. wf_of s p \<noteq> None) (wf_p s)"

lemma wf_okD: "wf_ok s \<Longrightarrow> \<exists>p x w. wf_p s = Some p \<and> get_data (ev s) p = Some x \<and> d_waveform x = Some w"
  by (auto simp: wf_ok_def opt_ex_iff wf_of_def bind_eq_Some_conv)

lemma wf_okI: "wf_p s = Some p \<Longrightarrow> get_data (ev s) p = Some x \<Longrightarrow> d_waveform x \<noteq> None \<Longrightarrow> wf_ok s"
  by (simp add: wf_ok_def wf_of_def)

lemma calm_wf_ok:
  assumes "calm s t" and "wf_ok s"
  shows "wf_ok t"
proof -
  from wf_okD [OF assms(2)] obtain p x w
    where p: "wf_p s = Some p" "get_data (ev s) p = Some x" "d_waveform x = Some w" by (elim exE conjE)
  from calm_dataD [OF assms(1) p(2)] obtain y
    where y: "get_data (ev t) p = Some y" "d_type y = d_type x" "d_energy y = d_energy x"
      "(d_waveform y = None) = (d_waveform x = None)" by (elim exE conjE)
  from p(3) y(4) have "d_waveform y \<noteq> None" by simp
  moreover from p(1) calm_frame(2) [OF assms(1)] have "wf_p t = Some p" by simp
  ultimately show ?thesis using y(1) by (intro wf_okI)
qed

lemma calm_data_ok:
  assumes "calm s t" and "data_ok s (fmt5 s)"
  shows "data_ok t (fmt5 t)"
proof -
  from assms(2) obtain p x where p: "d_p s = Some p" "get_data (ev s) p = Some x" "fmt5 s x"
    by (rule data_okE)
  from calm_dataD [OF assms(1) p(2)] obtain y where "get_data (ev t) p = Some y" "d_type y = d_type x"
    "d_energy y = d_energy x" "(d_waveform y = None) = (d_waveform x = None)"
    by (elim exE conjE)
  with p calm_frame(2-) [OF assms(1)] show ?thesis
    by (simp add: data_ok_def fmt5_def d_type_of_def)
qed

lemma calm_fit:
  assumes "calm s t" and "fit 5 F s"
  shows "fit 5 F t"
  using assms(2) calm_data_ok [OF assms(1)] same_shape_keeps [OF calm_frame(1) [OF assms(1)]]
  by (simp add: fit_simps)

lemma update_calm: "E EventOverrun \<Longrightarrow> wpE E (calm s) (update_blk s)"
  "E EventOverrun \<Longrightarrow> wpE E (calm s) (update_fee s)"
  by (auto simp: update_defs wp calm_def same_shape_def split: option.split)

lemma sample_body_calm:
  assumes "wf_ok s" and "E EventOverrun"
  shows "wpE E (calm s) (sample_body s)"
  using wf_okD [OF assms(1)] assms(2)
  by (auto simp: sample_body_def wf_add_sample_def update_defs wp wf_of_def tree calm_def same_shape_def
     split: option.split)

lemma wpE_calm_bind:
  assumes "wpE E (calm s) r" and "\<And>t. calm s t \<Longrightarrow> wpE E (calm t) (f t)"
  shows "wpE E (calm s) (bindE r f)"
  using assms by (cases r) (auto simp: wp intro: wpE_mono calm_trans)

lemma boost_loop_calm: 
  assumes "E EventOverrun"
  shows "wf_ok s \<Longrightarrow> wpE E (calm s) (boost_loop s)"
proof (induction s rule: boost_loop.induct)
  case (1 s)
  have body: "wpE E (calm s) (sample_body s)"
    using "1.prems" assms by (rule sample_body_calm)
  show ?case
  proof (cases "sample_body s")
    case (Inl e)
    with body assms show ?thesis by (subst boost_loop.simps) (simp add: wp calm_refl)
  next
    case (Inr t)
    with body have t: "calm s t" by (simp add: wp)
    have "wpE E (calm t) (boost_loop t)"
      if "event_index s < length (event s)" "event s ! event_index s \<le> 0x7FFF"
      using "1.IH" that Inr calm_wf_ok [OF t "1.prems"] by blast
    then have "wpE E (calm s) (boost_loop t)"
      if "event_index s < length (event s)" "event s ! event_index s \<le> 0x7FFF"
      using that by (auto elim!: wpE_mono intro: calm_trans [OF t])
    with assms Inr show ?thesis by (subst boost_loop.simps) (simp add: wp calm_refl)
  qed
qed

lemma wflen_loop_calm:
  assumes "E EventOverrun"
  shows "wf_ok s \<Longrightarrow> wpE E (calm s) (wflen_loop n s)"
  by (induction n arbitrary: s)
    (auto simp: wp calm_refl simp del: wpE_bindE intro!: wpE_calm_bind sample_body_calm assms intro: calm_wf_ok)

lemma wpE_calm_seq:
  assumes "wpE E (calm s) (f s)" and "\<And>t. calm s t \<Longrightarrow> wpE E (calm t) (seqE fs t)"
  shows "wpE E (calm s) (seqE (f # fs) s)"
  using wpE_calm_bind [OF assms] by simp

lemma modify_calm:
  "calm s (f s) \<Longrightarrow> wpE E (calm s) (modify f s)"
  by (simp add: wp)

lemma calm_fields [simp]:
  "calm s (s\<lparr>event_index := a\<rparr>)" "calm s (s\<lparr>blklen := b\<rparr>)" "calm s (s\<lparr>feelen := b\<rparr>)"
  "calm s (s\<lparr>blkcrc := c\<rparr>)" "calm s (s\<lparr>feecrc := c\<rparr>)" "calm s (s\<lparr>save_blkcrc := c\<rparr>)"
  "calm s (s\<lparr>save_feecrc := c\<rparr>)" "calm s (s\<lparr>rd_wflen := c\<rparr>)" "calm s (s\<lparr>wflen_done := d\<rparr>)"
  "calm s (s\<lparr>pretrig_done := d\<rparr>)" "calm s (s\<lparr>energy1_done := d\<rparr>)" "calm s (s\<lparr>energy2_done := d\<rparr>)"
  "calm s (s\<lparr>err_in_event := d\<rparr>)" "calm s (s\<lparr>logs := l\<rparr>)"
  by (simp_all add: calm_def same_shape_def)

lemma step_back_calm: "wpE E (calm s) (step_back s)"
  by (simp add: step_back_def wp calm_def same_shape_def)
lemma restore_saved_crc_calm: "wpE E (calm s) (restore_saved_crc s)"
  by (simp add: restore_saved_crc_def wp calm_def same_shape_def)

lemma gather_boost_calm:
  "E EventOverrun \<Longrightarrow> wf_ok s \<Longrightarrow> wpE E (calm s) (gather_boost s)"
  unfolding gather_boost_def
  by (intro wpE_calm_seq restore_saved_crc_calm boost_loop_calm step_back_calm)
    (auto simp: wp calm_refl intro: calm_wf_ok)

end
