(* ===== verification/FzFSM_Fit.thy ===== *)
theory FzFSM_Fit
  imports FzFSM_Calm
begin

section \<open>The transitions out of S5 lead to fit states\<close>

text \<open>
  For the basic format, and for the transitions both formats share: each body started in a
  state that is \<open>fit\<close> for S5 ends in one that is fit for the state the dispatch selects.
\<close>

subsection \<open>The length checks\<close>

lemma live_ptrs:
  assumes "live F P s"
  shows "\<exists>b. blk_p s = Some b \<and> get_blk (ev s) b \<noteq> None" "\<exists>r. fee_p s = Some r \<and> get_fee (ev s) r \<noteq> None"
    "\<exists>h y. hit_p s = Some h \<and> get_hit (ev s) h = Some y"
    "\<exists>p x. d_p s = Some p \<and> get_data (ev s) p = Some x \<and> P x"
  using assms has_ptrD unfolding live_def by (auto elim: data_okE)

lemma calm_live:
  assumes "calm s t" and "live F (fmt5 s) s"
  shows "live F (fmt5 t) t"
  using calm_fit [of s t F] assms by (simp add: fit_5_live)

lemma log_names_calm:
  assumes "live F P s" and "\<And>a b c d e g. wpE E (calm s) (f a b c d e g s)" and "E TableIndex"
  shows "wpE E (calm s) (log_names f s)"
  using live_ptrs [OF assms(1)] assms(2,3)
  by (auto simp: log_names_def wp)

lemma set_wf_len_error_calm:
  "wf_ok s \<Longrightarrow> wpE E (calm s) (on_wf (\<lambda>x. x\<lparr>wf_len_error := b\<rparr>) s)"
  by (auto dest!: wf_okD simp: wp wf_of_def tree calm_def same_shape_def)

lemma check_waveform_len_calm:
  assumes "live F P s" and "wf_ok s" and "E EventOverrun" "E TableIndex"
  shows "wpE E (calm s) (check_waveform_len lbl s)"
proof -
  from wf_okD [OF assms(2)] obtain p x w
    where p: "wf_p s = Some p" "wf_of s p = Some w" by (auto simp: wf_of_def)
  have log: "wpE E (calm s) (log_waveform_len lbl s)"
    unfolding log_waveform_len_def using p assms(3)
    by (intro log_names_calm [OF assms(1), where E = E] assms(4)) (auto simp: wp split: option.split)
  have err: "wpE E (calm t) (seqE [on_wf (\<lambda>x. x\<lparr>wf_len_error := Some True\<rparr>), set_err_in_event] t)"
    if "calm s t" for t
    by (intro wpE_calm_seq set_wf_len_error_calm calm_wf_ok [OF that assms(2)])
       (simp_all add: set_err_in_event_def wp calm_refl)
  show ?thesis
    unfolding check_waveform_len_def
    using p set_wf_len_error_calm [OF assms(2)] wpE_calm_seq [of E s "log_waveform_len lbl", OF log err]
    by (simp add: wpE_with_wf del: wpE_seqE_Cons seqE.simps)
qed

lemma check_energy_size_shape:
  assumes "live F P s" and "en_p s = Some p" "en_of s p = Some e" "E TableIndex"
  shows "wpE E (same_shape s) (check_energy_size n s)"
proof -
  have log: "wpE E (calm s) (log_names (\<lambda>blkid fec tel det dt ec.
                  write_log (Log_energy_len blkid fec tel det dt ec (length (en_value e)) n)) s)"
    by (intro log_names_calm [OF assms(1), where E = E] assms(4)) (simp add: wp)
  have "wpE E (same_shape s) (seqE [on_en (\<lambda>e. e\<lparr>en_len_error := Some True\<rparr>),
                set_err_in_event] t)" if t: "calm s t" for t
  proof -
    from assms(3) obtain x where x: "get_data (ev s) p = Some x" "d_energy x = Some e"
      by (auto simp: en_of_def bind_eq_Some_conv)
    from calm_dataD [OF t x(1)] x(2) have "en_of t p = Some e" by (auto simp: en_of_def)
    moreover from assms(2) calm_frame [OF t] have "en_p t = Some p" by simp
    ultimately show ?thesis using calm_frame(1) [OF t]
      by (simp add: wp set_err_in_event_def same_shape_def tree)
  qed
  with log have "wpE E (same_shape s) (seqE [log_names (\<lambda>blkid fec tel det dt ec.
                  write_log (Log_energy_len blkid fec tel det dt ec (length (en_value e)) n)),
                on_en (\<lambda>e. e\<lparr>en_len_error := Some True\<rparr>),
                set_err_in_event] s)"
    by (subst wpE_seqE_Cons) (rule wpE_mono)
  with assms show ?thesis unfolding check_energy_size_def
    by (simp add: wpE_with_en wpE_if_fun wpE_on_en same_shape_def tree del: wpE_seqE_Cons seqE.simps)
qed

lemma live_mono: "live F P s \<Longrightarrow> (\<And>x. P x \<Longrightarrow> Q x) \<Longrightarrow> live F Q s"
  by (auto simp: live_def elim!: data_okE) (auto simp: data_ok_def)

lemma check_energy_len_shape:
  assumes "fit 5 FMT_BASIC s" and "E TableIndex"
  shows "wpE E (same_shape s) (check_energy_len s)"
proof -
  from assms have l: "live FMT_BASIC (fmt5 s) s" by (simp add: fit_5_live)
  from live_ptrs(4) [OF l] obtain p x where p: "d_p s = Some p" "get_data (ev s) p = Some x" "fmt5 s x" by (elim exE conjE)
  from l have "evformat s = FMT_BASIC" by (simp add: live_def)
  with p have "\<exists>e. en_p s = Some p \<and> en_of s p = Some e" if "\<not> without_energy (d_type_of x)"
    using that by (auto simp: fmt5_def en_of_def)
  then show ?thesis
    using p check_energy_size_shape [OF l, of p _ E] assms(2)
    by (auto simp: check_energy_len_def wpE_with_d wpE_if_fun wpE_skip same_shape_refl without_energy_def)
qed

lemma fit_5_basic_wf_ok: "fit 5 FMT_BASIC s \<Longrightarrow> wf_ok s"
  by (auto simp: fit_5_live live_def fmt5_def elim!: data_okE intro: wf_okI)

lemma basic_checks_shape:
  assumes "fit 5 FMT_BASIC s" and "E EventOverrun" "E TableIndex"
  shows "wpE E (same_shape s) (bindE (check_waveform_len lbl s) check_energy_len)"
proof -
  from assms have l: "live FMT_BASIC (fmt5 s) s" by (simp add: fit_5_live)
  from check_waveform_len_calm [OF l fit_5_basic_wf_ok [OF assms(1)] assms(2,3)]
  have "wpE E (calm s) (check_waveform_len lbl s)" .
  then show ?thesis unfolding wpE_bindE
  proof (rule wpE_mono)
    fix t assume t: "calm s t"
    from check_energy_len_shape [OF calm_fit [OF t assms(1)], where E = E, OF assms(3)]
    show "wpE E (same_shape s) (check_energy_len t)"
      by (rule wpE_mono) (rule same_shape_trans [OF calm_frame(1) [OF t]])
  qed
qed

subsection \<open>S5 \<open>\<rightarrow>\<close> S5, and leaving S5\<close>

lemma update_same_shape:
  "E EventOverrun \<Longrightarrow> wpE E (calm s) (bindE (update_blk s) update_fee)"
  by (auto simp: update_defs wp calm_def same_shape_def split: option.split)

lemma store_pretrig_calm:
  "wf_ok s \<Longrightarrow> E EventOverrun \<Longrightarrow> wpE E (calm s) (store_pretrig s)"
  by (auto dest!: wf_okD simp: store_pretrig_def wf_set_pretrig_def wp wf_of_def tree calm_def same_shape_def
      split: option.split)

lemma store_wflen_calm: "E EventOverrun \<Longrightarrow> wpE E (calm s) (store_wflen s)"
  by (auto simp: store_wflen_def wp calm_def same_shape_def split: option.split)

lemma calm_fit_wp:
  "wpE E (calm s) r \<Longrightarrow> fit 5 F s \<Longrightarrow> wpE E (fit 5 F) r"
  by (erule wpE_mono) (rule calm_fit)

lemma adc_calm:
  "d_p s = Some p \<Longrightarrow> get_data (ev s) p = Some x \<Longrightarrow> E EventOverrun \<Longrightarrow> wpE E (calm s) (adc_sine_cosine s)"
  by (auto simp: adc_sine_cosine_def adc_skip_def update_defs wp calm_def same_shape_def tree split: option.split)

lemma trans08_no_energy_fit:
  assumes "fit 5 FMT_BASIC s" and "E EventOverrun"
  shows "wpE E (fit 5 FMT_BASIC) (trans08_no_energy t s)"
proof -
  have wf: "wf_ok s" by (rule fit_5_basic_wf_ok [OF assms(1)])
  have go: "wpE E (calm s) (seqE [restore_saved_crc,
                 if t = ADC then adc_sine_cosine else skip,
                 (\<lambda>s. wflen_loop (unat (rd_wflen s)) s),
                 step_back] s)"
  proof (intro wpE_calm_seq restore_saved_crc_calm step_back_calm wflen_loop_calm assms(2))
    fix u assume u: "calm s u"
    from calm_fit [OF u assms(1)] obtain p x where "d_p u = Some p" "get_data (ev u) p = Some x"
      by (auto simp: fit_simps elim!: data_okE)
    then show "wpE E (calm u) ((if t = ADC then adc_sine_cosine else skip) u)"
      using adc_calm [of u p x E] assms(2) by (simp add: wp calm_refl)
  qed (auto simp: wp calm_refl intro: calm_wf_ok [OF _ wf] calm_wf_ok)
  show ?thesis
    using calm_fit_wp [OF go assms(1)] calm_fit_wp [OF store_wflen_calm [where E=E, OF assms(2)] assms(1)]
    by (simp add: trans08_no_energy_def)
qed

text \<open>The statements that change the energy values.\<close>

lemma store_energy1_fit:
  assumes "fit 5 FMT_BASIC s" and "d_p s = Some p" "get_data (ev s) p = Some x" "\<not> without_energy (d_type_of x)"
    and "E EventOverrun"
  shows "wpE E (fit 5 FMT_BASIC) (store_energy1 s)"
proof -
  from assms have x: "fmt5 s x" and F: "evformat s = FMT_BASIC" by (auto simp: fit_simps elim!: data_okE)
  with assms(4) obtain e where e: "d_energy x = Some e" "en_value e \<noteq> []" "en_p s = Some p" "wf_p s = Some p" "d_waveform x \<noteq> None"
    using assms(2) by (auto simp: fmt5_def)
  have "wpE E (\<lambda>t. same_shape s t \<and> data_ok t (fmt5 t)) (store_energy1 s)"
    using assms(2-) e F
    by (auto simp: store_energy1_def en_low_word_def en_map_value_def wp en_of_def tree same_shape_def data_ok_def
       fmt5_def nth_opt_def split: option.split)
  from live_shape [OF assms(1) [unfolded fit_5_live] this] show ?thesis
    by (rule wpE_mono) (simp add: fit_5_live)
qed

lemma energy2_fit:
  assumes "fit 5 FMT_BASIC s" and "d_p s = Some p" "get_data (ev s) p = Some x" "\<not> without_energy (d_type_of x)"
    and "E EventOverrun"
  shows "wpE E (fit 5 FMT_BASIC) (store_energy2 s)"
proof -
  from assms have x: "fmt5 s x" and F: "evformat s = FMT_BASIC" by (auto simp: fit_simps elim!: data_okE)
  with assms(4) obtain e where e: "d_energy x = Some e" "en_value e \<noteq> []" "en_p s = Some p" "wf_p s = Some p" "d_waveform x \<noteq> None"
    using assms(2) by (auto simp: fmt5_def)
  from e(2) have l: "length (en_value e) \<noteq> Suc 0 \<Longrightarrow> Suc 0 < length (en_value e)"
    by (cases "en_value e") auto
  have "wpE E (\<lambda>t. same_shape s t \<and> data_ok t (fmt5 t)) (store_energy2 s)"
    using assms(2-) e F l
    by (auto simp: store_energy2_def en_add_value_def en_low_word_def en_map_value_def wp en_of_def tree same_shape_def data_ok_def
       fmt5_def nth_opt_def split: option.split)
  from live_shape [OF assms(1) [unfolded fit_5_live] this] show ?thesis
    by (rule wpE_mono) (simp add: fit_5_live)
qed

lemma trans08_basic_fit:
  assumes "fit 5 FMT_BASIC s"
  shows "wpE (no_bad_ptr FMT_BASIC) (fit 5 FMT_BASIC) (trans08_basic s)"
proof -
  let ?E = "no_bad_ptr FMT_BASIC"
  have "wpE ?E (fit 5 FMT_BASIC) (with_d (\<lambda>x.
       if d_type_of x = QH1 \<or> d_type_of x = Q2 then trans08_one_energy
       else if d_type_of x = Q3 then trans08_two_energies
       else if without_energy (d_type_of x) then trans08_no_energy (d_type_of x)
       else skip) t)" if t: "fit 5 FMT_BASIC t" for t
  proof -
    from t obtain p x where p: "d_p t = Some p" "get_data (ev t) p = Some x"
      by (auto simp: fit_simps elim!: data_okE)
    have wf: "wf_ok t" by (rule fit_5_basic_wf_ok [OF t])
    note s = store_energy1_fit [OF t p, of ?E] energy2_fit [OF t p, of ?E]
      calm_fit_wp [OF store_pretrig_calm [OF wf, of ?E] t]
      calm_fit_wp [OF store_wflen_calm [of ?E] t]
      calm_fit_wp [OF gather_boost_calm [of ?E, OF _ wf] t]
      trans08_no_energy_fit [OF t, of ?E]
    show ?thesis
      using p s t
      by (simp add: wpE_with_d wpE_if_fun wpE_skip trans08_one_energy_def trans08_two_energies_def
        without_energy_def)
  qed
  note tail = this
  have "wpE ?E (\<lambda>u. wpE ?E (fit 5 FMT_BASIC) (update_fee u)) (update_blk s)"
    using calm_fit_wp [OF update_same_shape assms, of ?E] by (simp add: wpE_bindE)
  then show ?thesis
    unfolding trans08_basic_def wpE_seqE_Cons wpE_seqE_Nil
    by (rule wpE_mono) (erule wpE_mono, erule tail)
qed

text \<open>Leaving S5: a new hit, and in trans09 its first datum.\<close>

lemma same_shape_has:
  "same_shape s t \<Longrightarrow> fit 5 F s \<Longrightarrow> has_blk t \<and> has_fee t \<and> has_hit t \<and> first_complete t \<and> evformat t = F"
  by (simp add: fit_simps same_shape_keeps)

lemma trans10_hit_fit:
  assumes "has_blk s \<and> has_fee s \<and> has_hit s \<and> first_complete s \<and> evformat s = F"
  shows "wpE E (fit 2 F) (trans10_hit w s)"
  using assms by (auto simp: trans10_hit_def wp fit_simps inv_defs opt_ex_iff tree)

lemma update_shape:
  assumes "E EventOverrun"
  shows "wpE E (same_shape s) (update_blk s)" "wpE E (same_shape s) (update_fee s)"
  using assms by (auto simp: update_defs wp same_shape_def split: option.split)

lemma update_fit:
  assumes "fit 5 F s" and "E EventOverrun"
  shows "wpE E (fit 5 F) (update_blk s)" "wpE E (fit 5 F) (update_fee s)"
  by (rule calm_fit_wp [OF update_calm(1) [of E s, OF assms(2)] assms(1)])
    (rule calm_fit_wp [OF update_calm(2) [of E s, OF assms(2)] assms(1)])

lemma wpE_seqI:
  "wpE E P (f s) \<Longrightarrow> (\<And>t. P t \<Longrightarrow> wpE E Q (seqE fs t)) \<Longrightarrow> wpE E Q (seqE (f # fs) s)"
  unfolding wpE_seqE_Cons by (erule wpE_mono)

lemma basic_exit:
  assumes "fit 5 FMT_BASIC s" and "E EventOverrun" "E TableIndex"
    and "\<And>u. has_blk u \<and> has_fee u \<and> has_hit u \<and> first_complete u \<and> evformat u = FMT_BASIC \<Longrightarrow>
      wpE E Q (seqE fs u)"
  shows "wpE E Q (seqE (check_waveform_len lbl # check_energy_len # fs) s)"
proof -
  have "wpE E (\<lambda>u. wpE E (same_shape s) (check_energy_len u)) (check_waveform_len lbl s)"
    using basic_checks_shape [OF assms(1), of E] assms(2,3) by (simp add: wpE_bindE)
  then show ?thesis
    unfolding wpE_seqE_Cons
    by (rule wpE_mono) (erule wpE_mono, rule assms(4), erule same_shape_has [OF _ assms(1)])
qed

lemma trans10_basic_fit:
  assumes "fit 5 FMT_BASIC s"
  shows "wpE (no_bad_ptr FMT_BASIC) (fit 2 FMT_BASIC) (trans10_basic s)"
  unfolding trans10_basic_def wpE_cur
  using assms
  by (auto split: option.split intro!: wpE_seqI [OF update_fit(1)] wpE_seqI [OF update_fit(2)]
    basic_exit wpE_seqI [OF trans10_hit_fit] simp: wpE_seqE_Nil simp del: seqE.simps)

lemma trans11_basic_fit:
  assumes "fit 5 FMT_BASIC s"
  shows "wpE (no_bad_ptr FMT_BASIC) (fit 6 FMT_BASIC) (trans11_basic s)"
proof -
  have "fit 5 FMT_BASIC (s\<lparr>rd_feelen := len\<rparr>)" for len
    by (rule calm_fit [OF _ assms]) (simp add: calm_def same_shape_def)
  then show ?thesis
    unfolding trans11_basic_def wpE_cur Let_def
    by (auto split: option.split intro!: wpE_seqI [OF update_fit(1)] 
    basic_exit simp: wpE_seqE_Cons [of _ _ "modify f" for f] wpE_modify wpE_seqE_Nil fit_simps simp del: seqE.simps)
qed

lemma trans09_basic_data_ok:
  assumes "d_p s = Some p" "get_data (ev s) p = Some x" "d_waveform x = None" "d_energy x = None"
    and "evformat s = FMT_BASIC"
  shows "wpE E (\<lambda>t. same_shape s t \<and> data_ok t (fmt4 t)) (trans09_basic_data feeid dtype s)"
  using assms
  by (simp add: trans09_basic_data_def data_defs wp tree same_shape_def data_ok_def fmt4_def cong: if_cong)

lemma trans09_tag_data_ok:
  assumes "d_p s = Some p" "get_data (ev s) p = Some x" "d_waveform x = None" "d_energy x = None"
    and "evformat s = FMT_TAG"
  shows "wpE E (\<lambda>t. same_shape s t \<and> data_ok t (fmt4 t)) (trans09_tag_data feeid dtype s)"
  using assms
  by (simp add: trans09_tag_data_def data_defs wp tree same_shape_def data_ok_def fmt4_def cong: if_cong)

abbreviation fresh :: "FzData \<Rightarrow> bool" where
  "fresh x \<equiv> d_waveform x = None \<and> d_energy x = None"

lemma trans09_data_fit:
  assumes "live F fresh s"
  shows "F = FMT_BASIC \<Longrightarrow> wpE E (fit 4 F) (trans09_basic_data feeid dtype s)"
    and "F = FMT_TAG \<Longrightarrow> wpE E (fit 4 F) (trans09_tag_data feeid dtype s)"
proof -
  from live_ptrs(4) [OF assms] obtain p x
    where p: "d_p s = Some p" "get_data (ev s) p = Some x" "d_waveform x = None" "d_energy x = None"
    by (elim exE conjE)
  from assms have e: "evformat s = F" by (simp add: live_def)
  show "wpE E (fit 4 F) (trans09_basic_data feeid dtype s)" if "F = FMT_BASIC"
    using live_shape [OF assms trans09_basic_data_ok [OF p, where E = E]] e that
    by (simp add: fit_4_live [abs_def])
  show "wpE E (fit 4 F) (trans09_tag_data feeid dtype s)" if "F = FMT_TAG"
    using live_shape [OF assms trans09_tag_data_ok [OF p, where E = E]] e that
    by (simp add: fit_4_live [abs_def])
qed

lemma trans09_hit_live:
  assumes "has_blk s \<and> has_fee s \<and> has_hit s \<and> first_complete s \<and> evformat s = F"
  shows "wpE E (live F fresh) (trans09_basic_hit feeid telid detid s)"
    and "wpE E (live F fresh) (trans09_tag_hit feeid telid detid s)"
  using assms by (auto simp: trans09_basic_hit_def trans09_tag_hit_def wp Let_def inv_defs opt_ex_iff tree live_def)

lemma trans09_basic_fit:
  assumes "fit 5 FMT_BASIC s"
  shows "wpE (no_bad_ptr FMT_BASIC) (fit 4 FMT_BASIC) (trans09_basic s)"
  unfolding trans09_basic_def wpE_cur Let_def
  using assms
  by (auto split: option.split intro!: wpE_seqI [OF update_fit(1)] wpE_seqI [OF update_fit(2)]
    basic_exit wpE_seqI [OF trans09_hit_live(1)] wpE_seqI [OF trans09_data_fit(1)]
    simp: wpE_seqE_Nil simp del: seqE.simps)

lemma trans09_tag_fit:
  assumes "fit 5 FMT_TAG s"
  shows "wpE (no_bad_ptr FMT_TAG) (fit 4 FMT_TAG) (trans09_tag s)"
  unfolding trans09_tag_def wpE_cur Let_def
  using assms
  by (auto split: option.split intro!: wpE_seqI [OF update_fit(1)] wpE_seqI [OF update_fit(2)]
    wpE_seqI [OF trans09_hit_live(2)] wpE_seqI [OF trans09_data_fit(2)]
    simp: wpE_seqE_Nil fit_simps simp del: seqE.simps)

lemma trans10_tag_fit:
  assumes "fit 5 FMT_TAG s"
  shows "wpE (no_bad_ptr FMT_TAG) (fit 2 FMT_TAG) (trans10_tag s)"
  unfolding trans10_tag_def wpE_cur
  using assms
  by (auto split: option.split intro!: wpE_seqI [OF update_fit(1)] wpE_seqI [OF update_fit(2)]
    wpE_seqI [OF trans10_hit_fit] simp: wpE_seqE_Nil fit_simps simp del: seqE.simps)

lemma trans11_tag_fit:
  assumes "fit 5 FMT_TAG s"
  shows "wpE (no_bad_ptr FMT_TAG) (fit 6 FMT_TAG) (trans11_tag s)"
  using assms
  by (auto simp: trans11_tag_def Let_def update_defs wp fit_simps inv_defs opt_ex_iff split: option.split)

end
