(* ===== verification/FzFSM_TagFit.thy ===== *)
theory FzFSM_TagFit
  imports FzFSM_Fit
begin

section \<open>The tag format and the closing transitions lead to fit states\<close>

text \<open>
  The same for the transitions of the tag format, for the trigger information and for the
  closing of a block.
\<close>

subsection \<open>Tags and their values\<close>

lemma fmt5_tagI:
  assumes "evformat s = FMT_TAG"
    and "d_waveform x \<noteq> None \<longrightarrow> wf_p s = d_p s"
    and "tag_done s \<longrightarrow> tag s = TAG_PRETRIGGER \<or> tag s = TAG_WAVEFORM \<longrightarrow> d_waveform x \<noteq> None"
    and "tag_done s \<longrightarrow> tag s = TAG_SLOW \<or> tag s = TAG_FAST \<longrightarrow> en_p s = d_p s \<and> d_energy x \<noteq> None"
  shows "fmt5 s x"
  using assms by (simp add: fmt5_def)

lemma live_fit_5_tag:
  assumes "live FMT_TAG P s" and "\<And>p x. d_p s = Some p \<Longrightarrow> get_data (ev s) p = Some x \<Longrightarrow> P x \<Longrightarrow>
    wpE E (\<lambda>t. same_shape s t \<and> data_ok t (fmt5 t)) r"
  shows "wpE E (fit 5 FMT_TAG) r"
proof -
  from live_ptrs(4) [OF assms(1)] obtain p x where "d_p s = Some p" "get_data (ev s) p = Some x" "P x"
    by (elim exE conjE)
  from live_shape [OF assms(1) assms(2) [OF this]] show ?thesis
    by (simp add: fit_5_live [abs_def])
qed

lemmas tag_words = TAG_VOID_def TAG_PRETRIGGER_def TAG_WAVEFORM_def TAG_SLOW_def TAG_FAST_def

lemma select_tag_fit:
  assumes "live FMT_TAG (\<lambda>x. d_waveform x \<noteq> None \<longrightarrow> wf_p s = d_p s) s" and "\<not> tag_done s" and "E EventOverrun"
  shows "wpE E (fit 5 FMT_TAG) (select_tag s)"
proof (rule live_fit_5_tag [OF assms(1)])
  fix p x assume "d_p s = Some p" "get_data (ev s) p = Some x" "d_waveform x \<noteq> None \<longrightarrow> wf_p s = d_p s"
  moreover from assms(1) have "evformat s = FMT_TAG" by (simp add: live_def)
  ultimately show "wpE E (\<lambda>t. same_shape s t \<and> data_ok t (fmt5 t)) (select_tag s)"
    using assms(2,3)
    by (auto simp: select_tag_def wf_begin_if_none_def wf_begin_def en_begin_def wf_mutable_def en_mutable_def wp tree wf_of_def en_of_def
        same_shape_def data_ok_def fmt5_def tag_words split: option.split)
qed

lemma trans07_tag_fit:
  assumes "fit 4 FMT_TAG s"
  shows "wpE (no_bad_ptr FMT_TAG) (fit 5 FMT_TAG) (trans07_tag s)"
proof -
  let ?E = "no_bad_ptr FMT_TAG"
  let ?R = "\<lambda>t. live FMT_TAG (\<lambda>x. d_waveform x \<noteq> None \<longrightarrow> wf_p t = d_p t) t \<and> \<not> tag_done t"
  let ?s = "s\<lparr>tag_done := False, wflen_done := False, rd_wflen := 0\<rparr>"
  from assms have "live FMT_TAG (\<lambda>x. d_waveform x = None) s"
    by (auto simp: fit_4_live live_def data_ok_def opt_ex_iff fmt4_def)
  then have R: "?R ?s" by (auto simp: live_def inv_defs opt_ex_iff)
  have upd: "wpE ?E ?R (update_blk t)" "wpE ?E ?R (update_fee t)" if "?R t" for t
    using that by (auto simp: update_defs wp live_def inv_defs opt_ex_iff split: option.split)
  have "wpE ?E (fit 5 FMT_TAG) (seqE [update_blk, update_fee,
     (\<lambda>s. if \<not> tag_done s then select_tag s else Inr s)] t)" if "?R t" for t
    using that
    by (intro wpE_seqI [OF upd(1)] wpE_seqI [OF upd(2)] wpE_seqI [where P = "fit 5 FMT_TAG"])
      (auto simp: wpE_seqE_Nil select_tag_fit simp del: seqE.simps)
  from this [OF R] show ?thesis
    unfolding trans07_tag_def by (simp add: wpE_modify wpE_bindE)
qed

lemma tag_sample_body_calm:
  assumes "wf_ok s" and "E EventOverrun"
  shows "wpE E (calm s) (tag_sample_body s)"
  using wf_okD [OF assms(1)] assms(2)
  by (auto simp: tag_sample_body_def next_event_word_def wf_add_sample_def update_defs wp wf_of_def tree calm_def same_shape_def
     split: option.split)

lemma tag_sample_loop_calm:
  assumes "E EventOverrun"
  shows "wf_ok s \<Longrightarrow> wpE E (calm s) (tag_sample_loop n s)"
  by (induction n arbitrary: s)
    (auto simp: wp calm_refl simp del: wpE_bindE intro!: wpE_calm_bind tag_sample_body_calm assms intro: calm_wf_ok)

lemma tag_waveform_calm:
  "E EventOverrun \<Longrightarrow> wf_ok s \<Longrightarrow> wpE E (calm s) (tag_waveform s)"
  unfolding tag_waveform_def
  by (intro wpE_calm_seq restore_saved_crc_calm tag_sample_loop_calm step_back_calm)
    (auto simp: wp calm_refl)

lemma next_event_word_calm: "E EventOverrun \<Longrightarrow> wpE E (calm s) (next_event_word s)"
  by (auto simp: next_event_word_def update_defs wp calm_def same_shape_def split: option.split)

lemma rb_counters_calm:
  assumes "E EventOverrun" "E TableIndex"
  shows "wpE E (calm s) (rb_counters n i s)"
proof (induction n arbitrary: i s)
  case (Suc n)
  have "wpE E (calm s) (cur (\<lambda>w. ev_add_trinfo a attr (ucast w)) s)" for s a attr
    using assms by (auto simp: wp calm_def same_shape_def tree split: option.split)
  moreover have "wpE E (calm s) ((if n \<noteq> 0 then next_event_word else skip) s)" for s
    using next_event_word_calm [of E s] assms by (simp add: wp calm_refl)
  ultimately have "wpE E (calm s) (seqE [cur (\<lambda>w. ev_add_trinfo (0x100 + of_nat i) attr (ucast w)),
             if n \<noteq> 0 then next_event_word else skip, rb_counters n (Suc i)] s)" for attr
    by (intro wpE_calm_seq Suc) (simp_all add: wp calm_refl)
  then show ?case
    using assms by (simp add: wpE_bindE wpE_tbl del: seqE.simps)
qed (simp add: wp calm_refl)

lemma tag_trinfo_calm:
  assumes "E EventOverrun" "has_hit s"
  shows "wpE E (calm s) (tag_rb_time s)" "wpE E (calm s) (tag_rb_gttag s)" "wpE E (calm s) (tag_rb_ec s)"
    "wpE E (calm s) (tag_rb_centrum s)" "wpE E (calm s) (cur (\<lambda>w. ev_add_trinfo a attr (ucast w)) s)"
  using assms
  by (auto simp: tag_rb_time_def tag_rb_gttag_def tag_rb_ec_def tag_rb_centrum_def tag_rb_centrum_pair_def
      next_event_word_def update_defs wp calm_def same_shape_def tree has_hit_def opt_ex_iff split: option.split)

lemma tag_baseline_calm:
  assumes "E EventOverrun" "d_p s = Some p" "get_data (ev s) p = Some x"
  shows "wpE E (calm s) (tag_baseline s)"
  using assms
  by (auto simp: tag_baseline_def next_event_word_def update_defs wp calm_def same_shape_def tree split: option.split)

lemma wf_set_pretrig_calm:
  "wf_ok s \<Longrightarrow> E EventOverrun \<Longrightarrow> wpE E (calm s) (wf_set_pretrig s)"
  by (auto dest!: wf_okD simp: wf_set_pretrig_def wp wf_of_def tree calm_def same_shape_def
      split: option.split)

text \<open>What is left of \<open>fit 5\<close> once a value of tag format has been read.\<close>

definition after_value :: "fsm \<Rightarrow> fsm \<Rightarrow> bool" where
  "after_value s t \<longleftrightarrow> live FMT_TAG (\<lambda>x. d_waveform x \<noteq> None \<longrightarrow> wf_p t = d_p t) t \<and>
     tag t = tag s \<and> (tag s = TAG_WAVEFORM \<longrightarrow> wf_ok t)"

lemma calm_after_value:
  assumes "fit 5 FMT_TAG s" "tag_done s" "calm s t"
  shows "after_value s t"
proof -
  from calm_fit [OF assms(3,1)] have t: "fit 5 FMT_TAG t" .
  then obtain p x where p: "d_p t = Some p" "get_data (ev t) p = Some x" "fmt5 t x" "evformat t = FMT_TAG"
    by (auto simp: fit_simps elim!: data_okE)
  from assms(2,3) calm_frame have "tag_done t" "tag t = tag s" by auto
  moreover from t p have "live FMT_TAG (\<lambda>x. d_waveform x \<noteq> None \<longrightarrow> wf_p t = d_p t) t"
    by (auto simp: fit_5_live live_def data_ok_def fmt5_def)
  ultimately show ?thesis using p
    by (auto simp: after_value_def fmt5_def intro: wf_okI)
qed

lemma tag_energy_after:
  assumes "fit 5 FMT_TAG s" "tag_done s" "tag s = TAG_SLOW \<or> tag s = TAG_FAST"
    and E: "E EventOverrun" "E FloatToUint" "E (RepeatedIndex Rep_energy)"
  shows "wpE E (after_value s) (tag_energy i s)"
proof -
  from assms(1) obtain p x where q: "d_p s = Some p" "get_data (ev s) p = Some x" "evformat s = FMT_TAG"
    "fmt5 s x" by (auto simp: fit_simps elim!: data_okE)
  with assms(2,3) obtain e where p: "d_p s = Some p" "get_data (ev s) p = Some x" "evformat s = FMT_TAG"
    "en_p s = Some p" "d_energy x = Some e" "d_waveform x \<noteq> None \<longrightarrow> wf_p s = d_p s"
    by (auto simp: fmt5_def)
  have "wpE E (\<lambda>t. same_shape s t \<and> data_ok t (\<lambda>x. d_waveform x \<noteq> None \<longrightarrow> wf_p t = d_p t) \<and> tag t = tag s) (tag_energy i s)"
    using p E
    by (auto simp: tag_energy_def next_event_word_def update_defs en_add_value_def en_low_word_def en_map_value_def
        energy_scale_def wp same_shape_def data_ok_def en_of_def tree split: option.split)
  then show ?thesis
    by (rule wpE_mono) (use assms same_shape_has [OF _ assms(1)] in
      \<open>auto simp: after_value_def live_def tag_words\<close>)
qed

lemma tag_value_after:
  assumes "fit 5 FMT_TAG s" "tag_done s"
    and E: "E EventOverrun" "E FloatToUint" "E TableIndex" "E (RepeatedIndex Rep_energy)"
  shows "wpE E (after_value s) (tag_value s)"
proof -
  note calm_after = wpE_mono [OF _ calm_after_value [OF assms(1,2)]]
  from assms(1) obtain p x where p: "d_p s = Some p" "get_data (ev s) p = Some x" "fmt5 s x" "has_hit s"
    "evformat s = FMT_TAG"
    by (auto simp: fit_simps elim!: data_okE)
  from p assms(2) have wf: "wf_ok s" if "tag s = TAG_PRETRIGGER \<or> tag s = TAG_WAVEFORM"
    using that by (intro wf_okI [of s p x]) (auto simp: fmt5_def)
  show ?thesis
    unfolding tag_value_def wpE_if
    using calm_after [OF wf_set_pretrig_calm [where E=E, OF wf E(1)]] calm_after [OF tag_waveform_calm [where E=E, OF E(1) wf]]
      tag_energy_after [OF assms(1,2) _ E(1,2,4)]
      calm_after [OF tag_baseline_calm [where E=E, OF E(1) p(1,2)]]
      calm_after [OF rb_counters_calm [where E=E, OF E(1,3)]]
      tag_trinfo_calm [of E s, OF E(1) p(4), THEN calm_after] calm_after_value [OF assms(1,2) calm_refl]
    by (simp add: wpE_Inr)
qed

lemma after_value_fit:
  assumes "after_value s t"
  shows "fit 5 FMT_TAG (t\<lparr>tag_done := False, wflen_done := b, rd_wflen := c\<rparr>)"
  using assms by (auto simp: after_value_def fit_5_live live_def inv_defs opt_ex_iff fmt5_def)

lemma trans08_tag_fit:
  assumes "fit 5 FMT_TAG s"
  shows "wpE (no_bad_ptr FMT_TAG) (fit 5 FMT_TAG) (trans08_tag s)"
proof -
  let ?E = "no_bad_ptr FMT_TAG"
  have check: "wpE ?E (after_value s) ((if tag t = TAG_WAVEFORM then check_waveform_len l t else Inr t))"
    if "after_value s t" for s t l
  proof (cases "tag t = TAG_WAVEFORM")
    case True
    with that have live: "live FMT_TAG (\<lambda>x. d_waveform x \<noteq> None \<longrightarrow> wf_p t = d_p t) t" and wf: "wf_ok t"
      by (auto simp: after_value_def)
    have "after_value s u" if u: "calm t u" for u
    proof -
      from live_ptrs(4) [OF live] obtain p x where p: "d_p t = Some p" "get_data (ev t) p = Some x"
        "d_waveform x \<noteq> None \<longrightarrow> wf_p t = d_p t" by (elim exE conjE)
      from calm_dataD [OF u p(2)] obtain y where y: "get_data (ev u) p = Some y"
        "(d_waveform y = None) = (d_waveform x = None)" by metis
      with p calm_frame [OF u] \<open>after_value s t\<close> live wf show ?thesis
        using calm_wf_ok [OF u wf]
        by (auto simp: after_value_def live_def same_shape_keeps data_ok_def)
    qed
    with check_waveform_len_calm [OF live wf, of ?E l] True show ?thesis
      by (auto elim!: wpE_mono)
  qed (use that in \<open>simp add: wpE_Inr\<close>)
  have val: "wpE ?E (fit 5 FMT_TAG) (seqE [
            tag_value,
            (\<lambda>s. if tag s = TAG_WAVEFORM then check_waveform_len ''S5->S5'' s else Inr s),
            modify (\<lambda>s. s\<lparr>tag_done := False, wflen_done := False\<rparr>),
            modify (\<lambda>s. s\<lparr>rd_wflen := 0\<rparr>)] t)" if "fit 5 FMT_TAG t" "tag_done t" for t
  proof -
    have "wpE ?E (after_value t) (tag_value t)" using tag_value_after [OF that, of ?E] by simp
    then have "wpE ?E (\<lambda>u. wpE ?E (after_value t)
        (if tag u = TAG_WAVEFORM then check_waveform_len ''S5->S5'' u else Inr u)) (tag_value t)"
      by (rule wpE_mono) (rule check)
    then show ?thesis
      unfolding wpE_seqE_Cons wpE_modify wpE_seqE_Nil
      by (elim wpE_mono) (simp add: after_value_fit)
  qed
  have step: "wpE ?E (fit 5 FMT_TAG) (if \<not> tag_done t then select_tag t
          else if \<not> wflen_done t then store_wflen t
          else seqE [
            tag_value,
            (\<lambda>s. if tag s = TAG_WAVEFORM then check_waveform_len ''S5->S5'' s else Inr s),
            modify (\<lambda>s. s\<lparr>tag_done := False, wflen_done := False\<rparr>),
            modify (\<lambda>s. s\<lparr>rd_wflen := 0\<rparr>)] t)" if t: "fit 5 FMT_TAG t" for t
  proof -
    from t have "live FMT_TAG (\<lambda>x. d_waveform x \<noteq> None \<longrightarrow> wf_p t = d_p t) t"
      by (auto simp: fit_5_live live_def data_ok_def opt_ex_iff fmt5_def)
    from select_tag_fit [OF this, of ?E] val [OF t] calm_fit_wp [OF store_wflen_calm [of ?E] t]
    show ?thesis by simp
  qed
  show ?thesis
    unfolding trans08_tag_def
    by (intro wpE_seqI [OF update_fit(1)] wpE_seqI [OF update_fit(2)] wpE_seqI [OF step] assms)
      (use assms in \<open>simp_all add: wpE_Inr\<close>)
qed

lemma read_trig_samples_frame:
  assumes "E TableIndex" "E (RepeatedIndex Rep_sample)"
  shows "wpE E (calm s) (read_trig_samples h vs s)"
proof (induction h vs s rule: read_trig_samples.induct)
  case (2 h a b c rest s)
  have "wpE E (calm s) (seqE [ev_add_trinfo a attr v, read_trig_samples h rest] s)" for attr v
  proof -
    have "wpE E (calm s) (ev_add_trinfo a attr v s)"
      by (simp add: wp calm_def same_shape_def tree)
    then show ?thesis by (intro wpE_calm_seq 2) (simp_all add: wp calm_refl)
  qed
  then show ?case using assms
    by (auto simp: trig_attr_def Let_def wpE_bindE wpE_tbl wpE_if wpE_Inr simp del: seqE.simps)
qed (use assms in \<open>simp_all add: wp calm_refl\<close>)

lemma read_triggerinfo_fit:
  assumes "fit 9 F s" "blk_p s = Some p" "get_blk (ev s) p = Some b" "b_fee b = f # fs" "evformat t = F"
  shows "wpE (no_bad_ptr F) (\<lambda>u. evformat u = F) (read_triggerinfo f t)"
proof -
  from assms have "get_hit (ev s) ((p, 0), 0) \<noteq> None \<and> get_data (ev s) (((p, 0), 0), 0) \<noteq> None"
    by (simp add: fit_simps first_complete_def get_fee.simps nth_opt_def)
  with assms(3,4) obtain h d where "nth_opt (f_hit f) 0 = Some h" "nth_opt (h_data h) 0 = Some d"
    by (auto simp: get_fee.simps get_hit.simps get_data.simps nth_opt_def split: if_splits)
  then show ?thesis
    using wpE_mono [OF read_trig_samples_frame [of "no_bad_ptr F" t h]] assms(5)
    by (auto simp: read_triggerinfo_def wp calm_frame)
qed

lemma trans16_fit:
  assumes "fit 9 F s"
  shows "wpE (no_bad_ptr F) (fit 10 F) (trans16 s)"
proof -
  let ?E = "no_bad_ptr F"
  have len: "wpE ?E (fit 9 F) (check_block_len t)" if "fit 9 F t" for t
    using that by (auto simp: check_block_len_def set_err_in_event_def wp fit_simps inv_defs opt_ex_iff tree)
  have crc: "wpE ?E (fit 10 F) (check_block_crc t)" if t: "fit 9 F t" for t
  proof -
    from t obtain p b where p: "blk_p t = Some p" "get_blk (ev t) p = Some b" and F: "evformat t = F"
      by (auto simp: fit_simps has_blk_def opt_ex_iff)
    have "wpE ?E (\<lambda>u. evformat u = F)
      (case b_fee b of [] \<Rightarrow> Inr u | fee # _ \<Rightarrow> read_triggerinfo fee u)" if "evformat u = F" for u
      using read_triggerinfo_fit [OF t p _ that] that by (simp add: wpE_Inr split: list.split)
    then show ?thesis
      using p F
      by (cases "b_fee b") (auto simp: check_block_crc_def wp Let_def block_RemoveLast_def set_err_in_event_def fit_simps)
  qed
  have "fit 9 F (s\<lparr>rd_blkcrc := c\<rparr>)" for c
    using assms by (simp add: fit_simps inv_defs)
  then show ?thesis
    unfolding trans16_def wpE_cur
    by (auto split: option.split simp: Let_def wpE_seqE_Cons [of _ _ "modify f" for f] wpE_modify wpE_seqE_Nil
      intro!: wpE_seqI [OF len] wpE_seqI [OF crc] simp del: seqE.simps)
qed

end
