(* ===== verification/FzFSM_Safety.thy ===== *)
theory FzFSM_Safety
  imports FzFSM_TagFit
begin

section \<open>Every run of the parser uses good pointers\<close>

text \<open>
  The transition table only fires a transition in the state it belongs to, so one turn of
  the loop keeps \<open>good\<close>, and so does the loop (\<open>process_loop_induct\<close>).
\<close>

text \<open>The state every transition may be taken from; the other ones do nothing or start over.\<close>

definition trans_from :: "nat \<Rightarrow> nat \<Rightarrow> bool" where
  "trans_from t k \<longleftrightarrow>
     (t = 3 \<or> t = 14 \<longrightarrow> k = 1) \<and> (t = 4 \<longrightarrow> k = 2) \<and> (t = 5 \<or> t = 6 \<longrightarrow> k = 3) \<and> (t = 7 \<longrightarrow> k = 4) \<and>
     (t = 8 \<or> t = 9 \<or> t = 10 \<or> t = 11 \<longrightarrow> k = 5) \<and> (t = 12 \<longrightarrow> k = 6) \<and> (t = 13 \<longrightarrow> k = 7) \<and>
     (t = 15 \<longrightarrow> k = 8) \<and> (t = 16 \<longrightarrow> k = 9) \<and> (t = 17 \<or> t = 18 \<longrightarrow> k = 10) \<and> (t = 2 \<or> t = 1 \<longrightarrow> k = 0) \<and> t \<le> 18"

lemma getword_id_less: "getword_id w < 18"
  by (simp add: getword_id_def Let_def)

lemma ttable_from:
  assumes "w < 18" "k \<le> 10"
  shows "trans_from (ttable ! w ! k) k"
proof -
  have "\<forall>w\<in>set [0..<18]. \<forall>k\<in>set [0..<11]. trans_from (ttable ! w ! k) k"
    by code_simp
  with assms show ?thesis by (simp add: less_Suc_eq_le)
qed

lemma fit_frame [simp]:
  "fit k F (s\<lparr>state_id := j\<rparr>) = fit k F s" "fit k F (s\<lparr>event_index := i\<rparr>) = fit k F s"
proof -
  have "fmt4 (s\<lparr>state_id := j\<rparr>) = fmt4 s" "fmt5 (s\<lparr>state_id := j\<rparr>) = fmt5 s"
    "fmt4 (s\<lparr>event_index := i\<rparr>) = fmt4 s" "fmt5 (s\<lparr>event_index := i\<rparr>) = fmt5 s"
    by (auto simp: fmt4_def fmt5_def fun_eq_iff)
  then show "fit k F (s\<lparr>state_id := j\<rparr>) = fit k F s" "fit k F (s\<lparr>event_index := i\<rparr>) = fit k F s"
    by (simp_all add: fit_def fsm_inv_def inv_defs)
qed

definition good :: "int \<Rightarrow> fsm \<Rightarrow> bool" where
  "good F s \<longleftrightarrow> state_id s \<le> 10 \<and> fit (state_id s) F s"

lemma goto_good:
  "wpE E (fit k F) r \<Longrightarrow> k \<le> 10 \<Longrightarrow> wpE E (good F) (bindE r (seqE [goto k]))"
  by (simp add: wp goto_def) (erule wpE_mono, simp add: good_def)

lemma by_format_fit:
  assumes "F = FMT_BASIC \<Longrightarrow> wpE E (fit k F) (b s)" "F = FMT_TAG \<Longrightarrow> wpE E (fit k F) (t s)"
    and "evformat s = F" "F \<noteq> FMT_BASIC \<Longrightarrow> F \<noteq> FMT_TAG \<Longrightarrow> fit k F s"
  shows "wpE E (fit k F) (by_format b t s)"
  using assms by (auto simp: by_format_def wp)

lemma fit_other_format:
  assumes "F \<noteq> FMT_BASIC" "F \<noteq> FMT_TAG"
  shows "fit 4 F s \<Longrightarrow> fit 5 F s" "fit 5 F s \<Longrightarrow> fit 4 F s" "fit 5 F s \<Longrightarrow> fit 2 F s" "fit 5 F s \<Longrightarrow> fit 6 F s"
proof -
  have f: "fmt4 s x" "fmt5 s x" if "evformat s = F" for x
    using that assms by (simp_all add: fmt4_def fmt5_def)
  show "fit 4 F s \<Longrightarrow> fit 5 F s" "fit 5 F s \<Longrightarrow> fit 4 F s"
    by (auto simp: fit_simps data_ok_def opt_ex_iff f)
  show "fit 5 F s \<Longrightarrow> fit 2 F s" "fit 5 F s \<Longrightarrow> fit 6 F s"
    by (auto simp: fit_simps first_complete_def first_open_def opt_all_def split: option.splits)
qed

lemma fit_evformat: "fit k F s \<Longrightarrow> evformat s = F"
  by (simp add: fit_def)

lemma run_transition_good:
  assumes "good F s" "trans_from t (state_id s)"
  shows "wpE (no_bad_ptr F) (\<lambda>(_, u). good F u) (run_transition t r s)"
proof -
  let ?E = "no_bad_ptr F"
  from assms(1) have s: "fit (state_id s) F s" and F: "evformat s = F" by (auto simp: good_def fit_evformat)
  have k: "fit k F s" if "state_id s = k" for k using s that by simp
  have 7: "wpE ?E (fit 5 F) (by_format trans07_basic trans07_tag s)" if "state_id s = 4"
    by (rule by_format_fit [OF _ _ F]) (use k [OF that] fit_other_format trans07_basic_fit trans07_tag_fit in auto)
  have 8: "wpE ?E (fit 5 F) (by_format trans08_basic trans08_tag s)" if "state_id s = 5"
    by (rule by_format_fit [OF _ _ F]) (use k [OF that] fit_other_format trans08_basic_fit trans08_tag_fit in auto)
  have 9: "wpE ?E (fit 4 F) (by_format trans09_basic trans09_tag s)" if "state_id s = 5"
    by (rule by_format_fit [OF _ _ F]) (use k [OF that] fit_other_format trans09_basic_fit trans09_tag_fit in auto)
  have 10: "wpE ?E (fit 2 F) (by_format trans10_basic trans10_tag s)" if "state_id s = 5"
    by (rule by_format_fit [OF _ _ F]) (use k [OF that] fit_other_format trans10_basic_fit trans10_tag_fit in auto)
  have 11: "wpE ?E (fit 6 F) (by_format trans11_basic trans11_tag s)" if "state_id s = 5"
    by (rule by_format_fit [OF _ _ F]) (use k [OF that] fit_other_format trans11_basic_fit trans11_tag_fit in auto)
  have 0: "wpE ?E (good F) (trans_invalid s)"
    using F by (simp add: trans_invalid_def goto_def on_report_def wp good_def fit_simps)
  have 1: "wpE ?E (good F) (skip s)" using assms(1) by (simp add: wp)
  note steps = trans02_fit [OF F] trans17_fit [OF F] trans18_fit [OF F]
    k [of 1, THEN trans03_fit] k [of 2, THEN trans04_fit] k [of 3, THEN trans05_fit]
    k [of 3, THEN trans06_fit] 7 8 9 10 11
    k [of 6, THEN trans12_fit] k [of 7, THEN trans13_fit] k [of 1, THEN trans14_fit]
    k [of 8, THEN trans15_fit] k [of 9, THEN trans16_fit]
  note goods = steps [THEN goto_good]
  have "wpE ?E (\<lambda>u. good F u)
     ((if t = 0 then trans_invalid
       else if t = 1 then skip
       else if t = 2 then seqE [trans02, goto 1]
       else if t = 3 then seqE [trans03, goto 2]
       else if t = 4 then seqE [trans04, goto 3]
       else if t = 5 then seqE [trans05, goto 3]
       else if t = 6 then seqE [trans06, goto 4]
       else if t = 7 then seqE [by_format trans07_basic trans07_tag, goto 5]
       else if t = 8 then seqE [by_format trans08_basic trans08_tag, goto 5]
       else if t = 9 then seqE [by_format trans09_basic trans09_tag, goto 4]
       else if t = 10 then seqE [by_format trans10_basic trans10_tag, goto 2]
       else if t = 11 then seqE [by_format trans11_basic trans11_tag, goto 6]
       else if t = 12 then seqE [trans12, goto 7]
       else if t = 13 then seqE [trans13, goto 1]
       else if t = 14 then seqE [trans14, goto 8]
       else if t = 15 then seqE [trans15, goto 9]
       else if t = 16 then seqE [trans16, goto 10]
       else if t = 17 then seqE [trans17, goto 1]
       else if t = 18 then seqE [trans18, goto 0]
       else skip) s)"
  proof -
    from assms(2) have "t \<le> 18" by (simp add: trans_from_def)
    then have "t = 0 \<or> t = 1 \<or> t = 2 \<or> t = 3 \<or> t = 4 \<or> t = 5 \<or> t = 6 \<or> t = 7 \<or> t = 8 \<or> t = 9 \<or> t = 10 \<or>
      t = 11 \<or> t = 12 \<or> t = 13 \<or> t = 14 \<or> t = 15 \<or> t = 16 \<or> t = 17 \<or> t = 18"
      by (simp add: le_Suc_eq numeral_eq_Suc)
    then show ?thesis
      by (elim disjE) (use assms(2) in \<open>simp_all add: trans_from_def goods [simplified One_nat_def] 0 1\<close>)
  qed
  then show ?thesis
    unfolding run_transition_def wpE_bindE by (rule wpE_mono) (simp add: wpE_Inr)
qed

lemma process_step_good:
  assumes "good F (snd rs)"
  shows "wpE (no_bad_ptr F) (\<lambda>rs'. good F (snd rs')) (process_step rs)"
proof (cases rs)
  case (Pair r s)
  have index: "good F (u\<lparr>event_index := i\<rparr>) = good F u" for u i
    by (simp add: good_def)
  have "wpE (no_bad_ptr F) (\<lambda>(_, u). good F u) (run_transition (ttable ! getword_id w ! state_id s) r s)" for w
    using assms Pair by (intro run_transition_good ttable_from getword_id_less) (simp_all add: good_def)
  then have "wpE (no_bad_ptr F) (\<lambda>(_, u). good F (u\<lparr>event_index := event_index u + 1\<rparr>))
      (run_transition (ttable ! getword_id w ! state_id s) r s)" for w
    by (simp add: index)
  then show ?thesis using assms Pair
    by (auto simp: process_step_def wp Let_def index split_def split: option.split)
qed

lemma process_loop_induct [consumes 1, case_names stop error step]:
  assumes "process_loop rs = Some y"
    and "\<And>rs. \<not> event_index (snd rs) < length (event (snd rs)) \<Longrightarrow> P rs (Inr rs)"
    and "\<And>rs e. event_index (snd rs) < length (event (snd rs)) \<Longrightarrow> process_step rs = Inl e \<Longrightarrow> P rs (Inl e)"
    and "\<And>rs rs' y. event_index (snd rs) < length (event (snd rs)) \<Longrightarrow> process_step rs = Inr rs' \<Longrightarrow>
      P rs' y \<Longrightarrow> P rs y"
  shows "P rs y"
proof (rule process_loop.raw_induct [OF _ assms(1)])
  fix f :: "nat \<times> fsm \<Rightarrow> (fsm_error + (nat \<times> fsm)) option" and rs y
  assume IH: "\<And>x y. f x = Some y \<Longrightarrow> P x y"
    and body: "(if event_index (snd rs) < length (event (snd rs))
      then (case process_step rs of Inl e \<Rightarrow> Some (Inl e) | Inr rs' \<Rightarrow> f rs') else Some (Inr rs)) = Some y"
  show "P rs y"
  proof (cases "event_index (snd rs) < length (event (snd rs))")
    case True
    show ?thesis
    proof (cases "process_step rs")
      case (Inl e)
      with True body have "y = Inl e" by simp
      with assms(3) [OF True Inl] show ?thesis by simp
    next
      case (Inr rs')
      with True body have "f rs' = Some y" by simp
      from assms(4) [OF True Inr IH [OF this]] show ?thesis .
    qed
  next
    case False
    with body have "y = Inr rs" by simp
    with assms(2) [OF False] show ?thesis by simp
  qed
qed

lemma process_loop_good:
  assumes "process_loop rs = Some y" "good F (snd rs)"
  shows "wpE (no_bad_ptr F) (\<lambda>rs'. good F (snd rs')) y"
  using assms
proof (induction rule: process_loop_induct)
  case (error rs e)
  then show ?case using process_step_good [of F rs] by (simp add: wp)
next
  case (step rs rs' y)
  then show ?case using process_step_good [of F rs] by (simp add: wp)
qed (simp add: wp)

lemma good_frame [simp]:
  fixes s :: fsm
  shows
  "good F (s\<lparr>fsm_report := r\<rparr>) = good F s" "good F (s\<lparr>event_index := i\<rparr>) = good F s"
proof -
  have "fmt4 (s\<lparr>fsm_report := r\<rparr>) = fmt4 s" "fmt5 (s\<lparr>fsm_report := r\<rparr>) = fmt5 s"
    by (auto simp: fmt4_def fmt5_def fun_eq_iff)
  then have "fit k F (s\<lparr>fsm_report := r\<rparr>) = fit k F s" for k
    by (simp add: fit_def fsm_inv_def inv_defs)
  then show "good F (s\<lparr>fsm_report := r\<rparr>) = good F s" "good F (s\<lparr>event_index := i\<rparr>) = good F s"
    by (simp_all add: good_def)
qed

lemma fsm_process_good:
  assumes "fsm_process s = Some y" "good F s"
  shows "wpE (no_bad_ptr F) (\<lambda>rs'. good F (snd rs')) y"
proof -
  let ?s = "s\<lparr>event_index := 0, fsm_report := (fsm_report s)\<lparr>fr_in_events := fr_in_events (fsm_report s) + 1,
              fr_in_bytes := fr_in_bytes (fsm_report s) + event_bytes s\<rparr>\<rparr>"
  from assms(1) obtain z where z: "process_loop (PARSE_FAIL, ?s) = Some z"
    and y: "y = bindE z (\<lambda>(retval, t). Inr (retval, t\<lparr>fsm_report := (fsm_report t)\<lparr>
            fr_out_events := fr_out_events (fsm_report t) + 1,
            fr_out_bytes := fr_out_bytes (fsm_report t) + event_bytes t\<rparr>\<rparr>))"
    by (auto simp: fsm_process_def Let_def)
  have "good F ?s" using assms(2) by simp
  with process_loop_good [OF z] have "wpE (no_bad_ptr F) (\<lambda>rs'. good F (snd rs')) z" by simp
  then show ?thesis by (simp add: y wp split_def)
qed

lemma import_good: "good (evformat s) (fsm_import w s)"
  by (simp add: good_def fsm_import_def fit_simps)

text \<open>
  C1. Parsing never goes through a bad pointer: whatever the words of the event and
  whatever was left in the machine by earlier events, \<open>process\<close> after \<open>import\<close> neither uses
  an unset block, card, hit, datum, waveform or energy pointer, nor one whose object is gone,
  nor reads a first hit or datum that a card does not have; in the basic format the energy
  values it rewrites exist too.
\<close>

theorem process_pointers_valid:
  "fsm_process (fsm_import w s) \<noteq> Some (Inl WildPtr) \<and>
   fsm_process (fsm_import w s) \<noteq> Some (Inl StalePtr) \<and>
   fsm_process (fsm_import w s) \<noteq> Some (Inl (RepeatedIndex Rep_hit)) \<and>
   fsm_process (fsm_import w s) \<noteq> Some (Inl (RepeatedIndex Rep_data)) \<and>
   fsm_process (fsm_import w (fsm_init FMT_BASIC s)) \<noteq> Some (Inl (RepeatedIndex Rep_energy))"
  using fsm_process_good [OF _ import_good, of w s] fsm_process_good [OF _ import_good, of w "fsm_init FMT_BASIC s"]
  by (auto simp: wp no_bad_ptr_def fsm_init_def)

end
