(* ===== verification/FzFSM_Frame.thy ===== *)
theory FzFSM_Frame
  imports FzFSM_Safety
begin

section \<open>What the transitions leave alone\<close>

text \<open>
  \<open>kept P r\<close>: if \<open>r\<close> is a state, its observation \<open>obs\<close> is \<open>a\<close>. The rules in the
  collection \<open>frame\<close> follow the statement forms, and the locales say which fields an
  observation must not depend on to survive a group of transitions: \<open>frame\<close> for those
  that open and close objects, \<open>frame_flags\<close> with the first word of a datum,
  \<open>frame_index\<close> with the sample loops, which move the index, \<open>frame_all\<close> with all of S5.
\<close>

named_theorems frame \<open>rules that keep an observation of the machine\<close>

definition kept :: "(fsm \<Rightarrow> bool) \<Rightarrow> fsm_error + fsm \<Rightarrow> bool" where
  "kept P r \<longleftrightarrow> wpE (\<lambda>_. True) P r"

lemma keptD: "kept P r \<Longrightarrow> r = Inr t \<Longrightarrow> P t"
  by (simp add: kept_def wp)

lemma kept_Inl [frame]: "kept P (Inl e)"
  by (simp add: kept_def wp)

lemma kept_Inr [frame]: "P s \<Longrightarrow> kept P (Inr s)"
  by (simp add: kept_def wp)

lemma kept_skip [frame]: "P s \<Longrightarrow> kept P (skip s)"
  by (simp add: kept_def wp)

lemma kept_modify [frame]: "P (f s) \<Longrightarrow> kept P (modify f s)"
  by (simp add: kept_def wp)

lemma kept_seqE_Nil [frame]: "P s \<Longrightarrow> kept P (seqE [] s)"
  by (simp add: kept_def wp)

lemma kept_bindE:
  "kept P r \<Longrightarrow> (\<And>t. r = Inr t \<Longrightarrow> P t \<Longrightarrow> kept P (f t)) \<Longrightarrow> kept P (bindE r f)"
  by (cases r) (simp_all add: kept_def wp)

lemma kept_seqE_Cons [frame]:
  "kept P (f s) \<Longrightarrow> (\<And>t. P t \<Longrightarrow> kept P (seqE fs t)) \<Longrightarrow> kept P (seqE (f # fs) s)"
  by (simp add: kept_bindE)

lemma kept_tbl [frame]: "(\<And>x. kept P (f x)) \<Longrightarrow> kept P (bindE (tbl xs i) f)"
  by (simp add: kept_def wpE_bindE wpE_tbl)

lemma kept_if [frame]: "kept P r \<Longrightarrow> kept P r' \<Longrightarrow> kept P (if b then r else r')"
  by simp

lemma kept_if_fun [frame]: "kept P (f s) \<Longrightarrow> kept P (g s) \<Longrightarrow> kept P ((if b then f else g) s)"
  by simp

lemma kept_Let [frame]: "kept P (f x) \<Longrightarrow> kept P (let y = x in f y)"
  "kept P (g x s) \<Longrightarrow> kept P ((let y = x in g y) s)"
  by simp_all

lemma kept_cur [frame]: "(\<And>w. kept P (f w s)) \<Longrightarrow> kept P (cur f s)"
  by (simp add: kept_def wp split: option.split)

lemma kept_at_off [frame]: "(\<And>w. kept P (f w s)) \<Longrightarrow> kept P (at_off k f s)"
  by (simp add: kept_def wp split: option.split)

lemma kept_with [frame]:
  "(\<And>x. kept P (f1 x s)) \<Longrightarrow> kept P (with_blk f1 s)"
  "(\<And>x. kept P (f2 x s)) \<Longrightarrow> kept P (with_fee f2 s)"
  "(\<And>x. kept P (f3 x s)) \<Longrightarrow> kept P (with_hit f3 s)"
  "(\<And>x. kept P (f4 x s)) \<Longrightarrow> kept P (with_d f4 s)"
  "(\<And>x. kept P (f5 x s)) \<Longrightarrow> kept P (with_en f5 s)"
  "(\<And>x. kept P (f6 x s)) \<Longrightarrow> kept P (with_wf f6 s)"
  by (simp_all add: kept_def wp split: option.split)

lemma kept_log_names [frame]:
  "(\<And>a1 a2 a3 a4 a5 a6. kept P (f a1 a2 a3 a4 a5 a6 s)) \<Longrightarrow> kept P (log_names f s)"
  unfolding log_names_def by (intro frame)

lemma kept_option [frame]:
  "kept P r \<Longrightarrow> (\<And>y. kept P (f y)) \<Longrightarrow> kept P (case x of None \<Rightarrow> r | Some y \<Rightarrow> f y)"
  by (simp split: option.split)

lemma kept_list [frame]:
  "kept P r \<Longrightarrow> (\<And>y ys. kept P (f y ys)) \<Longrightarrow> kept P (case x of [] \<Rightarrow> r | y # ys \<Rightarrow> f y ys)"
  by (simp split: list.split)

text \<open>
  \<open>frame_data\<close>: the predicate does not look below the cards, at the sums or at the
  scratch fields, and an error flag cannot break it. \<open>frame\<close>: it does not look at the
  event or the pointers at all.
\<close>

locale frame_data =
  fixes P :: "fsm \<Rightarrow> bool"
  assumes ev_hits: "P s \<Longrightarrow> P (s\<lparr>ev := upd_hit q fh (ev s)\<rparr>)" "P s \<Longrightarrow> P (s\<lparr>ev := add_hit r h (ev s)\<rparr>)"
      "P s \<Longrightarrow> P (s\<lparr>ev := upd_data p fd (ev s)\<rparr>)" "P s \<Longrightarrow> P (s\<lparr>ev := add_data q d (ev s)\<rparr>)"
      "P s \<Longrightarrow> P (s\<lparr>ev := e_trinfo_update ft (ev s)\<rparr>)"
    and logs_err: "P s \<Longrightarrow> P (s\<lparr>logs := l\<rparr>)" "P s \<Longrightarrow> P (s\<lparr>err_in_event := True\<rparr>)"
    and pointers: "P s \<Longrightarrow> P (s\<lparr>hit_p := p3\<rparr>)" "P s \<Longrightarrow> P (s\<lparr>d_p := p4\<rparr>)"
      "P s \<Longrightarrow> P (s\<lparr>en_p := p5\<rparr>)" "P s \<Longrightarrow> P (s\<lparr>wf_p := p6\<rparr>)"
    and words: "P s \<Longrightarrow> P (s\<lparr>rd_feelen := w5\<rparr>)" "P s \<Longrightarrow> P (s\<lparr>dettag_done := b2\<rparr>)"
      "P s \<Longrightarrow> P (s\<lparr>energy1_done := b3\<rparr>)" "P s \<Longrightarrow> P (s\<lparr>energy2_done := b4\<rparr>)"
      "P s \<Longrightarrow> P (s\<lparr>pretrig_done := b5\<rparr>)" "P s \<Longrightarrow> P (s\<lparr>tag := w3\<rparr>)"
    and sums: "P s \<Longrightarrow> P (s\<lparr>blklen := l1\<rparr>)" "P s \<Longrightarrow> P (s\<lparr>feelen := l2\<rparr>)"
      "P s \<Longrightarrow> P (s\<lparr>blkcrc := c1\<rparr>)" "P s \<Longrightarrow> P (s\<lparr>feecrc := c2\<rparr>)"
      "P s \<Longrightarrow> P (s\<lparr>save_blkcrc := c3\<rparr>)" "P s \<Longrightarrow> P (s\<lparr>save_feecrc := c4\<rparr>)"
begin

lemmas laws = ev_hits logs_err pointers words sums

lemma kept_on:
  "P s \<Longrightarrow> kept P (on_hit f3 s)" "P s \<Longrightarrow> kept P (on_d f4 s)"
  "P s \<Longrightarrow> kept P (on_en f5 s)" "P s \<Longrightarrow> kept P (on_wf f6 s)"
  by (simp_all add: kept_def wp laws split: option.split)

lemma kept_add:
  "P s \<Longrightarrow> kept P (hit_add_hit s)" "P s \<Longrightarrow> kept P (d_add_data s)"
  "P s \<Longrightarrow> kept P (ev_add_trinfo n attr v s)" "P s \<Longrightarrow> kept P (write_log lg s)"
  by (auto simp: kept_def wp intro!: laws split: option.split)

lemmas kept_intros = kept_on kept_add frame

lemma kept_update: "P s \<Longrightarrow> kept P (update_blk s)" "P s \<Longrightarrow> kept P (update_fee s)"
  unfolding update_defs by (intro kept_intros; simp add: laws)+

lemma kept_data:
  "P s \<Longrightarrow> kept P (d_set_type t s)" "P s \<Longrightarrow> kept P (wf_begin s)"
  "P s \<Longrightarrow> kept P (en_begin b s)" "P s \<Longrightarrow> kept P (set_err_in_event s)"
  "(\<And>s. P s \<Longrightarrow> kept P (seqE fs s)) \<Longrightarrow> P s \<Longrightarrow> kept P (when_basic fs s)"
  unfolding d_set_type_def wf_begin_def en_begin_def wf_mutable_def en_mutable_def set_err_in_event_def when_basic_def
  by (intro kept_intros; simp add: laws)+

lemma kept_en_map [frame]:
  "(\<And>f. kept P (on_en f s)) \<Longrightarrow> kept P (en_map_value i g s)"
  by (auto simp: en_map_value_def kept_def wp split: option.split) (simp_all add: wpE_def split: sum.split)

lemma kept_energy:
  "P s \<Longrightarrow> kept P (en_add_value w s)" "P s \<Longrightarrow> kept P (en_low_word i s)"
  "P s \<Longrightarrow> kept P (wf_add_sample s)" "P s \<Longrightarrow> kept P (wf_set_pretrig s)"
  "P s \<Longrightarrow> kept P (restore_saved_crc s)"
  unfolding en_add_value_def en_low_word_def wf_add_sample_def wf_set_pretrig_def restore_saved_crc_def
  by (intro kept_intros kept_en_map; simp add: laws)+

lemma kept_checks:
  "P s \<Longrightarrow> kept P (check_waveform_len lbl s)" "P s \<Longrightarrow> kept P (check_energy_len s)"
  "P s \<Longrightarrow> kept P (trans10_hit w s)"
  "P s \<Longrightarrow> kept P (trans09_basic_hit f t d s)" "P s \<Longrightarrow> kept P (trans09_tag_hit f t d s)"
  unfolding check_waveform_len_def log_waveform_len_def check_energy_len_def check_energy_size_def
    trans10_hit_def trans09_basic_hit_def trans09_tag_hit_def
  by (intro kept_data kept_intros; simp add: laws)+

lemmas kept_more = kept_update kept_data kept_energy kept_checks kept_intros

lemma kept_read_trig: "P s \<Longrightarrow> kept P (read_trig_samples h vs s)"
proof (induction h vs s rule: read_trig_samples.induct)
  case (2 h x y z rest s)
  have "kept P (seqE [ev_add_trinfo x attr v, read_trig_samples h rest] s)" for attr v
    by (intro kept_intros 2)
  then show ?case
    by (cases "trig_attr x") (simp_all add: kept_Inl del: seqE.simps)
qed (simp_all add: frame)

lemma trans_data_kept:
  "P s \<Longrightarrow> kept P (trans04 s)" "P s \<Longrightarrow> kept P (trans05 s)" "P s \<Longrightarrow> kept P (trans06 s)"
  "P s \<Longrightarrow> kept P (trans09_basic s)" "P s \<Longrightarrow> kept P (trans09_tag s)"
  "P s \<Longrightarrow> kept P (trans10_basic s)" "P s \<Longrightarrow> kept P (trans10_tag s)"
  "P s \<Longrightarrow> kept P (trans11_basic s)" "P s \<Longrightarrow> kept P (trans11_tag s)"
  unfolding trans04_def trans05_def trans06_def trans06_data_def
    trans09_basic_def trans09_basic_data_def trans09_tag_def trans09_tag_data_def
    trans10_basic_def trans10_tag_def trans11_basic_def trans11_tag_def
  by (intro kept_more; simp add: laws)+

end

locale frame = frame_data +
  assumes ev_any: "P s \<Longrightarrow> P (s\<lparr>ev := e\<rparr>)" "P s \<Longrightarrow> P (s\<lparr>err_in_event := b1\<rparr>)"
      "P s \<Longrightarrow> P (s\<lparr>blk_p := p1\<rparr>)" "P s \<Longrightarrow> P (s\<lparr>fee_p := p2\<rparr>)"
    and close_words: "P s \<Longrightarrow> P (s\<lparr>tmp_ec := w1\<rparr>)" "P s \<Longrightarrow> P (s\<lparr>tmp_rawec := w2\<rparr>)"
      "P s \<Longrightarrow> P (s\<lparr>rd_blklen := w4\<rparr>)" "P s \<Longrightarrow> P (s\<lparr>rd_blkcrc := w6\<rparr>)" "P s \<Longrightarrow> P (s\<lparr>rd_feecrc := w7\<rparr>)"
begin

lemma kept_close:
  "P s \<Longrightarrow> kept P (on_blk f1 s)" "P s \<Longrightarrow> kept P (on_fee f2 s)"
  "P s \<Longrightarrow> kept P (blk_add_block s)" "P s \<Longrightarrow> kept P (fee_add_fee s)"
  by (simp_all add: kept_def wp ev_any split: option.split)

lemma kept_block_checks: "P s \<Longrightarrow> kept P (check_block_len s)" "P s \<Longrightarrow> kept P (check_block_crc s)"
  unfolding check_block_len_def check_block_crc_def read_triggerinfo_def block_RemoveLast_def
  by (intro kept_data kept_read_trig kept_close kept_intros; simp add: laws ev_any)+

lemma trans_close_kept:
  "P s \<Longrightarrow> kept P (trans02 s)" "P s \<Longrightarrow> kept P (trans03 s)"
  "P s \<Longrightarrow> kept P (trans12 s)" "P s \<Longrightarrow> kept P (trans13 s)" "P s \<Longrightarrow> kept P (trans14 s)"
  "P s \<Longrightarrow> kept P (trans15 s)" "P s \<Longrightarrow> kept P (trans16 s)" "P s \<Longrightarrow> kept P (trans17 s)"
  unfolding trans02_def trans03_def trans12_def trans13_def trans14_def trans15_def trans16_def trans17_def
  by (intro kept_block_checks kept_close kept_more; simp add: laws ev_any close_words)+

end

locale frame_flags = frame_data +
  assumes flags: "P s \<Longrightarrow> P (s\<lparr>rd_wflen := w1\<rparr>)" "P s \<Longrightarrow> P (s\<lparr>wflen_done := b1\<rparr>)"
    "P s \<Longrightarrow> P (s\<lparr>tag_done := b2\<rparr>)"
begin

lemma select_tag_kept: "P s \<Longrightarrow> kept P (select_tag s)"
  unfolding select_tag_def wf_begin_if_none_def
  by (intro kept_more; simp add: laws flags)

lemma store_wflen_kept: "P s \<Longrightarrow> kept P (store_wflen s)"
  unfolding store_wflen_def
  by (intro kept_more; simp add: laws flags)

lemma trans07_kept:
  "P s \<Longrightarrow> kept P (trans07_basic s)" "P s \<Longrightarrow> kept P (trans07_tag s)"
  unfolding trans07_basic_def trans07_tag_def
  by (intro select_tag_kept kept_more; simp add: laws flags)+

end

locale frame_index = frame_data +
  assumes index: "P s \<Longrightarrow> P (s\<lparr>event_index := i\<rparr>)"
begin

lemma kept_step_back: "P s \<Longrightarrow> kept P (step_back s)" "P s \<Longrightarrow> kept P (next_event_word s)"
  unfolding step_back_def next_event_word_def
  by (intro kept_more; simp add: laws index)+

lemma kept_sample_body: "P s \<Longrightarrow> kept P (sample_body s)" "P s \<Longrightarrow> kept P (tag_sample_body s)"
  unfolding sample_body_def tag_sample_body_def
  by (intro kept_step_back kept_more; simp add: laws index)+

lemma kept_loops:
  "P s \<Longrightarrow> kept P (wflen_loop n s)" "P s \<Longrightarrow> kept P (tag_sample_loop n s)"
  by (induction n arbitrary: s) (auto simp: kept_Inr intro!: kept_bindE kept_sample_body)

lemma kept_boost_loop: "P s \<Longrightarrow> kept P (boost_loop s)"
proof (induction s rule: boost_loop.induct)
  case (1 s)
  show ?case
  proof (cases "sample_body s")
    case (Inr t)
    with kept_sample_body(1) [OF "1.prems"] have "P t" by (simp add: kept_def wp)
    with 1 Inr show ?thesis by (subst boost_loop.simps) (simp add: frame)
  qed (subst boost_loop.simps; simp add: frame 1)
qed

lemma kept_rb_counters: "P s \<Longrightarrow> kept P (rb_counters n i s)"
  by (induction n arbitrary: i s) (auto simp: kept_Inr simp del: seqE.simps intro!: kept_step_back kept_add frame)

lemma kept_adc: "P s \<Longrightarrow> kept P (adc_sine_cosine s)"
  unfolding adc_sine_cosine_def adc_skip_def
  by (intro kept_more; simp add: laws index)

lemmas kept_most = kept_step_back kept_loops kept_boost_loop kept_rb_counters kept_adc kept_more

lemma tag_value_kept: "P s \<Longrightarrow> kept P (tag_value s)"
  unfolding tag_value_def tag_waveform_def tag_energy_def tag_baseline_def tag_rb_time_def tag_rb_gttag_def
    tag_rb_ec_def tag_rb_centrum_def tag_rb_centrum_pair_def
  by (intro kept_en_map kept_most; simp add: laws index)

end

locale frame_all = frame_flags + frame_index
begin

lemma trans08_kept: "P s \<Longrightarrow> kept P (trans08_basic s)" "P s \<Longrightarrow> kept P (trans08_tag s)"
  unfolding trans08_basic_def trans08_one_energy_def trans08_two_energies_def trans08_no_energy_def trans08_tag_def
    store_energy1_def store_energy2_def store_pretrig_def gather_boost_def
  by (intro kept_most select_tag_kept store_wflen_kept tag_value_kept; simp add: laws index flags)+

end

subsection \<open>One turn of the loop\<close>

text \<open>The statements a transition may run, by its number.\<close>

definition bodies :: "nat \<Rightarrow> fsm_stmt list" where
  "bodies t = (case nth_opt
     [[trans_invalid], [], [trans02], [trans03], [trans04], [trans05], [trans06],
      [trans07_basic, trans07_tag], [trans08_basic, trans08_tag], [trans09_basic, trans09_tag],
      [trans10_basic, trans10_tag], [trans11_basic, trans11_tag], [trans12], [trans13], [trans14],
      [trans15], [trans16], [trans17], [trans18]] t of None \<Rightarrow> [] | Some fs \<Rightarrow> fs)"

lemma kept_goto:
  "(\<And>s k. P s \<Longrightarrow> P (s\<lparr>state_id := k\<rparr>)) \<Longrightarrow> kept P r \<Longrightarrow> kept P (bindE r (seqE [goto k]))"
  by (rule kept_bindE) (simp_all add: goto_def kept_def wp)

lemma kept_by_format:
  "(evformat s = FMT_BASIC \<Longrightarrow> kept P (b s)) \<Longrightarrow> (evformat s = FMT_TAG \<Longrightarrow> kept P (t s)) \<Longrightarrow> P s \<Longrightarrow>
   kept P (by_format b t s)"
  by (simp add: by_format_def kept_Inr)

lemma trans_number_cases:
  "t \<le> 18 \<Longrightarrow> t = 0 \<or> t = 1 \<or> t = 2 \<or> t = 3 \<or> t = 4 \<or> t = 5 \<or> t = 6 \<or> t = 7 \<or> t = 8 \<or> t = 9 \<or> t = 10 \<or>
      t = 11 \<or> t = 12 \<or> t = 13 \<or> t = 14 \<or> t = 15 \<or> t = 16 \<or> t = 17 \<or> t = (18::nat)"
  by (simp add: le_Suc_eq numeral_eq_Suc)

lemma run_transition_kept:
  assumes "\<And>s k. P s \<Longrightarrow> P (s\<lparr>state_id := k\<rparr>)" and "P s"
    and "\<And>f. f \<in> set (bodies t) \<Longrightarrow> kept P (f s)" and "run_transition t r s = Inr (r', u)"
  shows "P u"
proof -
  note goto = kept_goto [of P, OF assms(1)]
  have run: "kept P v \<Longrightarrow> bindE v (\<lambda>t'. Inr (q, t')) = Inr (r', u) \<Longrightarrow> P u" for v q
    by (cases v) (simp_all add: kept_def wp)
  show ?thesis
  proof (cases "t \<le> 18")
    case True
    from trans_number_cases [OF this] assms(4) show ?thesis
      by (elim disjE)
        (use assms(2,3) in \<open>auto simp: run_transition_def bodies_def nth_opt_def skip_def intro!: kept_by_format goto
          elim!: run [rotated]\<close>)
  next
    case False
    with assms(2,4) show ?thesis by (simp add: run_transition_def skip_def)
  qed
qed

context frame_data begin

lemma bodies_kept_data:
  "t \<in> {1, 4, 5, 6, 9, 10, 11} \<Longrightarrow> P s \<Longrightarrow> f \<in> set (bodies t) \<Longrightarrow> kept P (f s)"
  by (auto simp: bodies_def nth_opt_def nth_Cons' trans_data_kept split: if_splits)

end

context frame begin

lemma bodies_kept:
  "t \<notin> {0, 7, 8, 18} \<Longrightarrow> P s \<Longrightarrow> f \<in> set (bodies t) \<Longrightarrow> kept P (f s)"
  by (auto simp: bodies_def nth_opt_def nth_Cons' trans_data_kept trans_close_kept split: if_splits)

end

context frame_flags begin

lemma bodies_kept_flags:
  "t \<in> {1, 4, 5, 6, 7, 9, 10, 11} \<Longrightarrow> P s \<Longrightarrow> f \<in> set (bodies t) \<Longrightarrow> kept P (f s)"
  by (auto simp: bodies_def nth_opt_def nth_Cons' trans_data_kept trans07_kept split: if_splits)

end

context frame_all begin

lemma bodies_kept_all:
  "t \<in> {1, 4, 5, 6, 7, 8, 9, 10, 11} \<Longrightarrow> P s \<Longrightarrow> f \<in> set (bodies t) \<Longrightarrow> kept P (f s)"
  by (auto simp: bodies_def nth_opt_def nth_Cons' trans_data_kept trans07_kept trans08_kept split: if_splits)

end

lemma bodies_0_18: "set (bodies 0) = {trans_invalid}" "set (bodies 18) = {trans18}" "set (bodies 8) = {trans08_basic, trans08_tag}"
  by (simp_all add: bodies_def nth_opt_def)

text \<open>The predicates every transition keeps: the input is the same, and outside S5 the index too.\<close>

locale frame_total = frame + frame_all +
  assumes ends: "P s \<Longrightarrow> P (s\<lparr>event_is_empty := b\<rparr>)" "P s \<Longrightarrow> P (s\<lparr>state_id := k\<rparr>)" "P s \<Longrightarrow> P (s\<lparr>fsm_report := fr\<rparr>)"
begin

lemma trans_ends_kept: "P s \<Longrightarrow> kept P (trans18 s)" "P s \<Longrightarrow> kept P (trans_invalid s)"
  unfolding trans18_def on_report_def trans_invalid_def goto_def
  by (intro kept_add frame; simp add: ends ev_any)+

lemma bodies_kept_total: "P s \<Longrightarrow> f \<in> set (bodies t) \<Longrightarrow> kept P (f s)"
  using bodies_kept_all [of t s f] bodies_kept [of t s f]
  by (cases "t = 0 \<or> t = 18"; cases "t = 7 \<or> t = 8") (auto simp: bodies_0_18 trans_ends_kept)

lemma run_kept: "run_transition t r s = Inr (r', u) \<Longrightarrow> P s \<Longrightarrow> P u"
  using run_transition_kept [of P s t] bodies_kept_total ends(2) by blast

end

interpretation input_frame: frame_total "\<lambda>s. (event s, evformat s) = a" for a
  by unfold_locales simp_all

lemma run_transition_input:
  "run_transition t r s = Inr (r', u) \<Longrightarrow> event u = event s \<and> evformat u = evformat s"
  using input_frame.run_kept [of t r s r' u] by simp

locale frame_still = frame + frame_flags +
  assumes ends: "P s \<Longrightarrow> P (s\<lparr>event_is_empty := b\<rparr>)" "P s \<Longrightarrow> P (s\<lparr>state_id := k\<rparr>)" "P s \<Longrightarrow> P (s\<lparr>fsm_report := fr\<rparr>)"
begin

lemma trans_ends_kept: "P s \<Longrightarrow> kept P (trans18 s)" "P s \<Longrightarrow> kept P (trans_invalid s)"
  unfolding trans18_def on_report_def trans_invalid_def goto_def
  by (intro kept_add frame; simp add: ends ev_any)+

lemma bodies_kept_still: "t \<noteq> 8 \<Longrightarrow> P s \<Longrightarrow> f \<in> set (bodies t) \<Longrightarrow> kept P (f s)"
  using bodies_kept_flags [of t s f] bodies_kept [of t s f]
  by (cases "t = 0 \<or> t = 18"; cases "t = 7") (auto simp: bodies_0_18 trans_ends_kept)

lemma run_kept: "run_transition t r s = Inr (r', u) \<Longrightarrow> t \<noteq> 8 \<Longrightarrow> P s \<Longrightarrow> P u"
  using run_transition_kept [of P s t] bodies_kept_still ends(2) by blast

end

interpretation index_frame: frame_still "\<lambda>s. event_index s = a" for a
  by unfold_locales simp_all

lemma run_transition_index:
  "run_transition t r s = Inr (r', u) \<Longrightarrow> t \<noteq> 8 \<Longrightarrow> event_index u = event_index s"
  using index_frame.run_kept [of t r s r' u] by simp

end
