(* ===== verification/FzFSM_Loop.thy ===== *)
theory FzFSM_Loop
  imports FzFSM_Frame
begin

section \<open>When the loop of process ends\<close>

text \<open>
  The loop ends when a measure of what is left of the event decreases with every turn
  (\<open>converging_loop\<close>). It does in the tag format, and in the basic format as long as no
  length word is zero; with a zero length word the basic format stays where it is.
\<close>

text \<open>A machine whose memory is zero, for concrete runs.\<close>

definition fsm_zero :: fsm where
  "fsm_zero = \<lparr>evformat = 0, state_id = 0, event = [], event_index = 0, ev = new_FzEvent,
     blk_p = None, fee_p = None, hit_p = None, d_p = None, en_p = None, wf_p = None,
     tmp_ec = 0, tmp_rawec = 0, tag = 0, tag_done = False, dettag_done = False, energy1_done = False,
     energy2_done = False, pretrig_done = False, wflen_done = False, rd_wflen = 0, blklen = 0, rd_blklen = 0,
     feelen = 0, rd_feelen = 0, blkcrc = 0, rd_blkcrc = 0, feecrc = 0, rd_feecrc = 0, save_blkcrc = 0,
     save_feecrc = 0, err_in_event = False, event_is_empty = False,
     fsm_report = new_FsmReport, logs = []\<rparr>"


subsection \<open>Tag format\<close>

locale converging_loop =
  fixes I :: "nat \<times> fsm \<Rightarrow> bool" and m :: "nat \<times> fsm \<Rightarrow> nat"
  assumes step: "I rs \<Longrightarrow> event_index (snd rs) < length (event (snd rs)) \<Longrightarrow> process_step rs = Inr rs' \<Longrightarrow>
    I rs' \<and> m rs' < m rs"
begin

lemma returns: "I rs \<Longrightarrow> process_loop rs \<noteq> None"
proof (induction "m rs" arbitrary: rs rule: less_induct)
  case less
  show ?case
  proof (cases "event_index (snd rs) < length (event (snd rs))")
    case True
    show ?thesis
    proof (cases "process_step rs")
      case (Inl e)
      with True show ?thesis by (subst process_loop.simps) simp
    next
      case (Inr rs')
      from step [OF less.prems True Inr] less.hyps have "process_loop rs' \<noteq> None" by blast
      with True Inr show ?thesis by (subst process_loop.simps) simp
    qed
  next
    case False
    then show ?thesis by (subst process_loop.simps) simp
  qed
qed

end

lemma process_stepD:
  assumes "process_step (r, s) = Inr (r', t)"
  shows "\<exists>w. event_index s < length (event s) \<and> w = event s ! event_index s \<and>
    (if getword_id w = 8 then r' = r \<and> t = s\<lparr>event_index := event_index s + 1\<rparr>
     else \<exists>u. run_transition (ttable ! getword_id w ! state_id s) r s = Inr (r', u) \<and>
       t = u\<lparr>event_index := event_index u + 1\<rparr>)"
  using assms by (auto simp: process_step_def nth_opt_def bindE_Inr_iff split: if_splits)

text \<open>The index never goes below a bound it is at; a step back can undo one word.\<close>

interpretation up_frame: frame_flags "\<lambda>s. n \<le> event_index s" for n
  by unfold_locales simp_all

lemma up_next: "n \<le> event_index s \<Longrightarrow> kept (\<lambda>s. n \<le> event_index s) (next_event_word s)"
  unfolding next_event_word_def by (intro up_frame.kept_update frame) simp_all

lemma up_samples:
  "n \<le> event_index s \<Longrightarrow> kept (\<lambda>s. n \<le> event_index s) (tag_sample_loop k s)"
proof (induction k arbitrary: s)
  case (Suc k)
  have "kept (\<lambda>s. n \<le> event_index s) (tag_sample_body s)"
    unfolding tag_sample_body_def using Suc.prems
    by (intro up_next up_frame.kept_energy frame) simp_all
  then show ?case unfolding tag_sample_loop.simps by (rule kept_bindE) (simp add: Suc.IH)
qed (simp add: frame)

lemma up_counters:
  "n \<le> event_index s \<Longrightarrow> kept (\<lambda>s. n \<le> event_index s) (rb_counters k i s)"
proof (induction k arbitrary: i s)
  case (Suc k)
  show ?case unfolding rb_counters.simps
    using Suc by (intro up_next up_frame.kept_add frame) simp_all
qed (simp add: frame)

lemma tag_value_index:
  assumes "n \<le> event_index s"
  shows "kept (\<lambda>s. n \<le> Suc (event_index s)) (tag_value s)"
proof -
  have weak: "kept (\<lambda>s. n \<le> event_index s) r \<Longrightarrow> kept (\<lambda>s. n \<le> Suc (event_index s)) r" for r
    by (auto simp: kept_def elim: wpE_mono)
  have "kept (\<lambda>s. n \<le> Suc (event_index s)) (tag_waveform s)"
    using up_samples [OF assms, of "unat (rd_wflen s)"]
    by (auto simp: tag_waveform_def step_back_def restore_saved_crc_def kept_def wp elim: wpE_mono)
  moreover have "kept (\<lambda>s. n \<le> event_index s) (tag_value s)" if "tag s \<noteq> TAG_WAVEFORM"
    unfolding tag_value_def tag_energy_def tag_baseline_def tag_rb_time_def tag_rb_gttag_def
      tag_rb_ec_def tag_rb_centrum_def tag_rb_centrum_pair_def
    using assms that
    by (simp only: if_False) (intro up_counters up_next up_frame.kept_en_map up_frame.kept_energy up_frame.kept_on up_frame.kept_add frame; simp)
  ultimately show ?thesis
    by (cases "tag s = TAG_WAVEFORM") (auto simp: tag_value_def tag_words weak)
qed

interpretation tag_frame: frame "\<lambda>s. (event_index s, tag_done s) = a" for a
  by unfold_locales simp_all

lemma trans08_tag_index:
  assumes "trans08_tag s = Inr t"
  shows "event_index s \<le> event_index t \<or> (event_index s \<le> Suc (event_index t) \<and> tag_done s \<and> \<not> tag_done t)"
proof -
  from assms obtain u v where u: "update_blk s = Inr u" "update_fee u = Inr v"
    and t: "(if \<not> tag_done v then select_tag v
          else if \<not> wflen_done v then store_wflen v
          else seqE [
            tag_value,
            (\<lambda>s. if tag s = TAG_WAVEFORM then check_waveform_len ''S5->S5'' s else Inr s),
            modify (\<lambda>s. s\<lparr>tag_done := False, wflen_done := False\<rparr>),
            modify (\<lambda>s. s\<lparr>rd_wflen := 0\<rparr>)] v) = Inr t"
    by (auto simp: trans08_tag_def bindE_Inr_iff simp del: seqE.simps(2)) (auto simp: bindE_Inr_iff)
  have v: "event_index v = event_index s" "tag_done v = tag_done s"
    using tag_frame.kept_update(1) [OF refl, of s] tag_frame.kept_update(2) [OF refl, of u] u
    by (simp_all add: kept_def wp)
  let ?le = "\<lambda>t. event_index v \<le> event_index t"
  have keep: "kept ?le r \<Longrightarrow> r = Inr t \<Longrightarrow> ?thesis" for r
    by (simp add: kept_def wp v)
  show ?thesis
  proof (cases "tag_done v \<and> wflen_done v")
    case True
    with t obtain x y where x: "tag_value v = Inr x" "(if tag x = TAG_WAVEFORM then check_waveform_len ''S5->S5'' x else Inr x) = Inr y"
      and y: "t = y\<lparr>tag_done := False, wflen_done := False, rd_wflen := 0\<rparr>"
      by (auto simp: bindE_Inr_iff modify_def)
    from tag_value_index [of "event_index v" v] x(1) have "event_index v \<le> Suc (event_index x)"
      by (simp add: kept_def wp)
    moreover from x(2) tag_frame.kept_checks(1) [OF refl, where s = x and lbl = "''S5->S5''"] have "event_index y = event_index x"
      by (auto simp: kept_def wp split: if_splits)
    ultimately show ?thesis using True v y by simp
  next
    case False
    have "kept ?le (if \<not> tag_done v then select_tag v else store_wflen v)"
      by (intro kept_if up_frame.select_tag_kept up_frame.store_wflen_kept) simp_all
    moreover from t False have "(if \<not> tag_done v then select_tag v else store_wflen v) = Inr t"
      by (simp split: if_splits del: seqE.simps)
    ultimately show ?thesis by (rule keep)
  qed
qed

definition tag_measure :: "nat \<times> fsm \<Rightarrow> nat" where
  "tag_measure rs = 2 * (length (event (snd rs)) - event_index (snd rs)) + of_bool (tag_done (snd rs))"

lemma tag_step:
  assumes "evformat s = FMT_TAG" "process_step (r, s) = Inr (r', t)"
  shows "evformat t = FMT_TAG \<and> tag_measure (r', t) < tag_measure (r, s)"
proof -
  from process_stepD [OF assms(2)] obtain w where i: "event_index s < length (event s)" "w = event s ! event_index s"
    and w: "if getword_id w = 8 then r' = r \<and> t = s\<lparr>event_index := event_index s + 1\<rparr>
     else \<exists>u. run_transition (ttable ! getword_id w ! state_id s) r s = Inr (r', u) \<and>
       t = u\<lparr>event_index := event_index u + 1\<rparr>" by blast
  show ?thesis
  proof (cases "getword_id w = 8")
    case True
    with w i assms show ?thesis by (simp add: tag_measure_def)
  next
    case False
    with w obtain u k where u: "run_transition k r s = Inr (r', u)" "t = u\<lparr>event_index := event_index u + 1\<rparr>" by auto
    note input = run_transition_input [OF u(1)]
    show ?thesis
    proof (cases "k = 8")
      case True
      with u(1) assms(1) obtain v where v: "trans08_tag s = Inr v" "u = v\<lparr>state_id := 5\<rparr>"
        by (auto simp: run_transition_def by_format_def bindE_Inr_iff goto_def modify_def)
      from trans08_tag_index [OF v(1)] i u(2) v(2) input assms(1) show ?thesis
        by (auto simp: tag_measure_def)
    next
      case False
      with run_transition_index [OF u(1)] input u(2) i assms(1) show ?thesis
        by (auto simp: tag_measure_def)
    qed
  qed
qed

interpretation tag_loop: converging_loop "\<lambda>rs. evformat (snd rs) = FMT_TAG" tag_measure
proof unfold_locales
  fix rs rs' :: "nat \<times> fsm"
  assume "evformat (snd rs) = FMT_TAG" "process_step rs = Inr rs'"
  with tag_step [of "snd rs" "fst rs" "fst rs'" "snd rs'"]
  show "evformat (snd rs') = FMT_TAG \<and> tag_measure rs' < tag_measure rs" by simp
qed

lemma process_tag_total: "fsm_process (fsm_import w (fsm_init FMT_TAG s)) \<noteq> None"
  using tag_loop.returns by (simp add: fsm_process_def Let_def fsm_import_def fsm_init_def)

text \<open>
  C2. Every event in the tag format is parsed to its end or to an error: \<open>process\<close> returns
  for all words and all prior states of the machine.
\<close>

theorem process_tag_returns:
  "fsm_process (fsm_import w (fsm_init FMT_TAG s)) \<noteq> None"
  by (rule process_tag_total)

subsection \<open>Basic format\<close>

lemma sample_body_index: "sample_body s = Inr t \<Longrightarrow> event_index t = Suc (event_index s)"
  using sample_body_frame by blast

lemma wflen_loop_index: "wflen_loop n s = Inr t \<Longrightarrow> event_index t = event_index s + n"
  by (induction n arbitrary: s) (auto simp: bindE_Inr_iff dest: sample_body_index)

lemma boost_loop_index: "boost_loop s = Inr t \<Longrightarrow> event_index s \<le> event_index t"
proof (induction s rule: boost_loop.induct)
  case (1 s)
  then show ?case
    by (subst (asm) (2) boost_loop.simps)
      (fastforce dest: sample_body_index split: if_splits sum.splits)
qed

lemma gather_boost_index:
  assumes "gather_boost s = Inr t" "event s ! event_index s \<le> 0x7FFF"
  shows "event_index s \<le> event_index t"
proof -
  let ?s = "s\<lparr>blkcrc := save_blkcrc s, feecrc := save_feecrc s\<rparr>"
  from assms(1) obtain u where u: "boost_loop ?s = Inr u" "step_back u = Inr t"
    by (auto simp: gather_boost_def restore_saved_crc_def bindE_Inr_iff modify_def)
  from u(1) assms(2) obtain v where "sample_body ?s = Inr v" "boost_loop v = Inr u"
    by (subst (asm) boost_loop.simps) (auto split: if_splits sum.splits)
  with boost_loop_index [of v u] sample_body_index [of ?s v] u(2) show ?thesis
    by (auto simp: step_back_def modify_def)
qed

lemma no_energy_index:
  assumes "trans08_no_energy d s = Inr t"
  shows "event_index s \<le> Suc (event_index t) \<and>
    ((wflen_done s \<longrightarrow> rd_wflen s \<noteq> 0) \<longrightarrow> event_index s \<le> event_index t)"
proof (cases "wflen_done s")
  case False
  with assms(1) up_frame.store_wflen_kept [of "event_index s" s] show ?thesis
    by (simp add: trans08_no_energy_def kept_def wp)
next
  case True
  have n: "0 < unat (rd_wflen s)" if "rd_wflen s \<noteq> 0" using that by (simp add: unat_gt_0)
  let ?s = "s\<lparr>blkcrc := save_blkcrc s, feecrc := save_feecrc s\<rparr>"
  from True assms(1) obtain u v where
    u: "(if d = ADC then adc_sine_cosine else skip) ?s = Inr u" "wflen_loop (unat (rd_wflen u)) u = Inr v"
    "step_back v = Inr t"
    by (auto simp: trans08_no_energy_def restore_saved_crc_def bindE_Inr_iff modify_def simp del: wflen_loop.simps)
  have "event_index s \<le> event_index u \<and> rd_wflen u = rd_wflen s"
    using u(1) by (auto simp: adc_sine_cosine_def adc_skip_def update_defs skip_def cur_def at_off_def bindE_Inr_iff modify_def
       on_d_def with_d_def split: if_splits option.splits)
  with True n wflen_loop_index [OF u(2)] u(3) show ?thesis
    by (auto simp: step_back_def modify_def)
qed

interpretation basic_frame: frame "\<lambda>s. (event s, event_index s, wflen_done s, rd_wflen s) = a" for a
  by unfold_locales simp_all

lemma with_d_Inr: "with_d f s = Inr t \<Longrightarrow> \<exists>x. f x s = Inr t"
  by (auto simp: with_d_def split: option.splits)

lemma trans08_basic_index:
  assumes "trans08_basic s = Inr t" "event s ! event_index s \<le> 0x7FFF"
  shows "event_index s \<le> Suc (event_index t) \<and>
    ((wflen_done s \<longrightarrow> rd_wflen s \<noteq> 0) \<longrightarrow> event_index s \<le> event_index t)"
proof -
  from assms(1) obtain u v x where u: "update_blk s = Inr u" "update_fee u = Inr v"
    and t: "(if d_type_of x = QH1 \<or> d_type_of x = Q2 then trans08_one_energy
       else if d_type_of x = Q3 then trans08_two_energies
       else if without_energy (d_type_of x) then trans08_no_energy (d_type_of x)
       else skip) v = Inr t"
    by (auto simp: trans08_basic_def bindE_Inr_iff dest!: with_d_Inr)
  have v: "event v = event s" "event_index v = event_index s" "wflen_done v = wflen_done s" "rd_wflen v = rd_wflen s"
    using basic_frame.kept_update(1) [OF refl, of s] basic_frame.kept_update(2) [OF refl, of u] u
    by (simp_all add: kept_def wp)
  let ?le = "\<lambda>t. event_index v \<le> event_index t"
  have keep: "kept ?le r \<Longrightarrow> r = Inr t \<Longrightarrow> ?le t" for r
    by (simp add: kept_def wp)
  have e: "kept ?le (store_energy1 v)" "kept ?le (store_pretrig v)" "kept ?le (store_wflen v)"
    "kept ?le (store_energy2 v)" "kept ?le (skip v)"
    unfolding store_energy1_def store_energy2_def store_pretrig_def
    by (intro up_frame.store_wflen_kept up_frame.kept_energy frame; simp)+
  from t v assms(2) gather_boost_index [of v t]
  have "?le t \<or> trans08_no_energy (d_type_of x) v = Inr t"
    by (auto simp: trans08_one_energy_def trans08_two_energies_def split: if_splits dest: e [THEN keep])
  with no_energy_index [of "d_type_of x" v t] v show ?thesis by auto
qed

text \<open>No zero length word has been read in S5.\<close>

definition nonzero_len :: "u16 list \<Rightarrow> fsm \<Rightarrow> bool" where
  "nonzero_len w s \<longleftrightarrow> event s = w \<and> (wflen_done s \<longrightarrow> rd_wflen s \<noteq> 0)"

interpretation nonzero_frame: frame_index "nonzero_len w" for w
  by unfold_locales (simp_all add: nonzero_len_def)

lemma store_wflen_nonzero:
  "0 \<notin> set w \<Longrightarrow> nonzero_len w s \<Longrightarrow> kept (nonzero_len w) (store_wflen s)"
  by (auto simp: store_wflen_def nonzero_len_def kept_def wp nth_opt_Some split: option.split) (metis nth_mem)+

lemma trans08_nonzero:
  assumes "0 \<notin> set w" "nonzero_len w s" shows "kept (nonzero_len w) (trans08_basic s)"
  using assms(2) unfolding trans08_basic_def trans08_one_energy_def trans08_two_energies_def trans08_no_energy_def
    store_energy1_def store_energy2_def store_pretrig_def gather_boost_def
  by (intro nonzero_frame.kept_most store_wflen_nonzero [OF assms(1)]; simp add: nonzero_frame.laws nonzero_frame.index)

lemma trans07_nonzero:
  assumes "event s = w" shows "kept (nonzero_len w) (trans07_basic s)"
proof -
  let ?s = "s\<lparr>energy1_done := False, energy2_done := False, pretrig_done := False,
       wflen_done := False, rd_wflen := 0\<rparr>"
  have "nonzero_len w ?s" using assms by (simp add: nonzero_len_def)
  then have "kept (nonzero_len w) (seqE [update_blk,
     update_fee,
     with_d (\<lambda>x s.
       if without_energy (d_type_of x)
       then (if \<not> pretrig_done s
             then seqE [wf_set_pretrig, modify (\<lambda>s. s\<lparr>pretrig_done := True\<rparr>)] s
             else Inr s)
       else if d_type_of x = QH1 \<or> d_type_of x = Q2 \<or> d_type_of x = Q3
       then (if \<not> energy1_done s then cur en_add_value s else Inr s)
       else Inr s)] ?s)"
    by (intro nonzero_frame.kept_more; simp add: nonzero_frame.laws)
  then show ?thesis
    by (simp add: trans07_basic_def modify_def)
qed

lemma unat_nibble3: "unat (nibble 3 w) = unat w div 4096"
proof -
  have "nibble 3 w = take_bit 4 (drop_bit 12 w)"
    by (simp add: nibble_def take_bit_eq_mask mask_eq_exp_minus_1)
  then have "unat (nibble 3 w) = unat w div 4096 mod 16"
    by (simp only: unsigned_take_bit_eq unat_drop_bit_eq) (simp add: take_bit_eq_mod drop_bit_eq_div)
  moreover have "unat w < 65536" using unsigned_less [of w] by simp
  ultimately show ?thesis by simp
qed

lemma getword_id_data: "getword_id w = 0 \<Longrightarrow> w \<le> 0x7FFF"
  by (auto simp: getword_id_def Let_def word_le_nat_alt word_less_nat_alt unat_nibble3 split: if_splits)

lemma getword_id_small: "getword_id w < 8 \<Longrightarrow> w \<le> 0x7FFF"
  by (intro getword_id_data) (auto simp: getword_id_def Let_def split: if_splits)

text \<open>The state a transition leads to.\<close>

definition target :: "nat \<Rightarrow> nat" where
  "target t = [0, 0, 1, 2, 3, 3, 4, 5, 5, 4, 2, 6, 7, 1, 8, 9, 10, 1, 0] ! t"

lemma run_transition_state:
  assumes "run_transition t r s = Inr (r', u)" "t \<le> 18" "t \<noteq> 1"
  shows "state_id u = target t"
  using trans_number_cases [OF assms(2)] assms(1,3)
  by (elim disjE) (auto simp: run_transition_def target_def bindE_Inr_iff goto_def modify_def trans_invalid_def on_report_def)

lemma ttable_8: "w < 18 \<Longrightarrow> k \<le> 10 \<Longrightarrow> ttable ! w ! k = 8 \<Longrightarrow> w < 8"
proof -
  have "\<forall>w\<in>set [0..<18]. \<forall>k\<in>set [0..<11]. ttable ! w ! k = 8 \<longrightarrow> w < 8"
    by code_simp
  then show "w < 18 \<Longrightarrow> k \<le> 10 \<Longrightarrow> ttable ! w ! k = 8 \<Longrightarrow> w < 8" by force
qed

definition basic_fine :: "nat \<times> fsm \<Rightarrow> bool" where
  "basic_fine rs \<longleftrightarrow> (case rs of (_, s) \<Rightarrow> good FMT_BASIC s \<and> 0 \<notin> set (event s) \<and>
     (state_id s = 5 \<longrightarrow> nonzero_len (event s) s))"

lemma basic_step:
  assumes "basic_fine (r, s)" "process_step (r, s) = Inr (r', t)"
  shows "basic_fine (r', t) \<and> length (event t) - event_index t < length (event s) - event_index s"
proof -
  from assms(1) have g: "good FMT_BASIC s" and F: "evformat s = FMT_BASIC" and nz: "0 \<notin> set (event s)"
    and nl: "state_id s = 5 \<Longrightarrow> nonzero_len (event s) s" and k: "state_id s \<le> 10"
    by (auto simp: basic_fine_def good_def fit_evformat)
  from process_step_good [of FMT_BASIC "(r, s)"] g assms(2) have g': "good FMT_BASIC t"
    by (simp add: wp)
  from process_stepD [OF assms(2)] obtain w where i: "event_index s < length (event s)" "w = event s ! event_index s"
    and w: "if getword_id w = 8 then r' = r \<and> t = s\<lparr>event_index := event_index s + 1\<rparr>
     else \<exists>u. run_transition (ttable ! getword_id w ! state_id s) r s = Inr (r', u) \<and>
       t = u\<lparr>event_index := event_index u + 1\<rparr>" by blast
  let ?k = "ttable ! getword_id w ! state_id s"
  show ?thesis
  proof (cases "getword_id w = 8")
    case True
    with w i nz nl g' show ?thesis by (auto simp: basic_fine_def nonzero_len_def)
  next
    case False
    with w obtain u where u: "run_transition ?k r s = Inr (r', u)" "t = u\<lparr>event_index := event_index u + 1\<rparr>" by auto
    note input = run_transition_input [OF u(1)]
    note from_k = ttable_from [OF getword_id_less k, of w]
    consider (s8) "?k = 8" | (s7) "?k = 7" | (no) "?k \<noteq> 8" "?k \<noteq> 7" by blast
    then show ?thesis
    proof cases
      case s8
      with u(1) F obtain v where v: "trans08_basic s = Inr v" "u = v\<lparr>state_id := 5\<rparr>"
        by (auto simp: run_transition_def by_format_def bindE_Inr_iff goto_def modify_def)
      from from_k s8 have s5: "state_id s = 5" by (simp add: trans_from_def)
      from ttable_8 [OF getword_id_less k s8] have "w \<le> 0x7FFF" by (rule getword_id_small)
      with trans08_basic_index [OF v(1)] nl [OF s5] i have "event_index s \<le> event_index v"
        by (simp add: nonzero_len_def)
      moreover from trans08_nonzero [OF nz nl [OF s5]] v(1) have "nonzero_len (event s) v"
        by (simp add: kept_def wp)
      ultimately show ?thesis using g' nz v(2) u(2) i
        by (auto simp: basic_fine_def nonzero_len_def)
    next
      case s7
      with u(1) F obtain v where v: "trans07_basic s = Inr v" "u = v\<lparr>state_id := 5\<rparr>"
        by (auto simp: run_transition_def by_format_def bindE_Inr_iff goto_def modify_def)
      from trans07_nonzero [of s "event s"] v(1) have "nonzero_len (event s) v"
        by (simp add: kept_def wp)
      with run_transition_index [OF u(1)] s7 g' nz v(2) u(2) i show ?thesis
        by (auto simp: basic_fine_def nonzero_len_def)
    next
      case no
      have "state_id u \<noteq> 5"
      proof (cases "?k = 1")
        case True
        with u(1) from_k show ?thesis by (simp add: run_transition_def skip_def trans_from_def)
      next
        case False
        from from_k have "?k \<le> 18" by (simp add: trans_from_def)
        from run_transition_state [OF u(1) this False] no trans_number_cases [OF this] show ?thesis
          by (auto simp: target_def)
      qed
      with run_transition_index [OF u(1) no(1)] input u(2) i g' nz show ?thesis
        by (auto simp: basic_fine_def)
    qed
  qed
qed

interpretation basic_loop: converging_loop basic_fine "\<lambda>rs. length (event (snd rs)) - event_index (snd rs)"
proof unfold_locales
  fix rs rs' :: "nat \<times> fsm"
  assume "basic_fine rs" "process_step rs = Inr rs'"
  with basic_step [of "fst rs" "snd rs" "fst rs'" "snd rs'"]
  show "basic_fine rs' \<and> length (event (snd rs')) - event_index (snd rs') < length (event (snd rs)) - event_index (snd rs)"
    by simp
qed

text \<open>
  C22. In the basic format \<open>process\<close> returns on every event without a zero word, since the
  only turn of its loop that does not advance is the one for a waveform of length zero.
\<close>

theorem process_basic_returns:
  assumes "0 \<notin> set w"
  shows "fsm_process (fsm_import w (fsm_init FMT_BASIC s)) \<noteq> None"
proof -
  have "basic_fine (PARSE_FAIL, (fsm_import w (fsm_init FMT_BASIC s))\<lparr>event_index := 0, fsm_report := r\<rparr>)" for r
    using assms by (simp add: basic_fine_def good_def fit_simps fsm_import_def fsm_init_def)
  then show ?thesis using basic_loop.returns by (simp add: fsm_process_def Let_def)
qed

lemma process_basic_returns_witness:
  "fsm_process (fsm_import [0xE001, 0x9800, 0xC805] (fsm_init FMT_BASIC fsm_zero)) \<noteq> None"
  by (rule process_basic_returns) simp

subsection \<open>A zero length stops the basic format\<close>

primrec run_steps :: "nat \<Rightarrow> nat \<times> fsm \<Rightarrow> fsm_error + (nat \<times> fsm)" where
  "run_steps 0 rs = Inr rs"
| "run_steps (Suc n) rs = bindE (process_step rs) (run_steps n)"

lemma process_step_in_range: "process_step rs = Inr rs' \<Longrightarrow> event_index (snd rs) < length (event (snd rs))"
  by (auto simp: process_step_def nth_opt_def split: prod.splits if_splits)

lemma process_loop_steps: "run_steps n rs = Inr rs' \<Longrightarrow> process_loop rs = process_loop rs'"
proof (induction n arbitrary: rs)
  case (Suc n)
  then obtain t where "process_step rs = Inr t" "run_steps n t = Inr rs'"
    by (auto simp: bindE_Inr_iff)
  with Suc.IH [of t] process_step_in_range [of rs t] show ?case
    by (subst process_loop.simps) simp
qed simp

text \<open>In S5 of a datum of type QL1, I1, I2 or unknown, its length word read as zero, at a data
  word. Data with energy (QH1, Q2, Q3) take their samples by the value of the words and not
  by the length, and a sine-cosine datum (ADC) passes six words first: they do advance.\<close>

definition stalled :: "fsm \<Rightarrow> bool" where
  "stalled s \<longleftrightarrow> evformat s = FMT_BASIC \<and> state_id s = 5 \<and>
     0 < event_index s \<and> event_index s < length (event s) \<and> event s ! event_index s \<le> 0x7FFF \<and>
     wflen_done s \<and> rd_wflen s = 0 \<and>
     (case d_p s of None \<Rightarrow> False | Some p \<Rightarrow> (case get_data (ev s) p of None \<Rightarrow> False
        | Some x \<Rightarrow> d_type_of x \<in> {QL1, I1, I2, UNKDT}))"

lemma word_data_id: "w \<le> 0x7FFF \<Longrightarrow> getword_id w = 0"
  by (auto simp: getword_id_def Let_def word_le_nat_alt word_less_nat_alt unat_nibble3)

lemma ttable_data_5: "ttable ! 0 ! 5 = 8"
  by code_simp

lemma stalled_step:
  assumes "stalled s"
  shows "\<exists>t. process_step (r, s) = Inr (r, t) \<and> stalled t"
proof -
  from assms obtain p x where p: "d_p s = Some p" "get_data (ev s) p = Some x"
    "without_energy (d_type_of x)" "d_type_of x \<noteq> ADC" "d_type_of x \<in> {QL1, I1, I2, UNKDT}" "evformat s = FMT_BASIC" "state_id s = 5"
    "0 < event_index s" "event_index s < length (event s)" "event s ! event_index s \<le> 0x7FFF"
    "wflen_done s" "rd_wflen s = 0"
    by (auto simp: stalled_def without_energy_def split: option.splits)
  let ?t = "s\<lparr>blkcrc := save_blkcrc s, feecrc := save_feecrc s\<rparr>"
  from p have "process_step (r, s) = Inr (r, ?t)"
    by (auto simp: process_step_def nth_opt_def word_data_id ttable_data_5 run_transition_def by_format_def
        trans08_basic_def update_defs cur_def modify_def with_d_def trans08_no_energy_def restore_saved_crc_def
        skip_def step_back_def goto_def without_energy_def)
  moreover from p have "stalled ?t" by (simp add: stalled_def)
  ultimately show ?thesis by blast
qed

lemma stalled_loop: "process_loop rs = Some y \<Longrightarrow> \<not> stalled (snd rs)"
proof (induction rule: process_loop_induct)
  case (stop rs)
  then show ?case by (simp add: stalled_def)
next
  case (error rs e)
  with stalled_step [of "snd rs" "fst rs"] show ?case by auto
next
  case (step rs rs' y)
  with stalled_step [of "snd rs" "fst rs"] show ?case by auto
qed

text \<open>
  C23. In the basic format a waveform of length zero of a datum of type QL1, I1, I2 or
  unknown hangs the parser: from any state of S5 in which such a datum is being read, its
  length was read as zero and the next word is a data word, the loop of \<open>process\<close> never
  ends. Nothing is claimed here of the data with energy (QH1, Q2, Q3) and of ADC.
\<close>

theorem zero_length_never_returns:
  assumes "stalled s"
  shows "process_loop (r, s) = None"
  using assms stalled_loop [of "(r, s)"] by (cases "process_loop (r, s)") auto

lemma zero_length_never_returns_witness:
  "fsm_process (fsm_import [0xE001, 0x9800, 0x0010, 0x0001, 0x9100, 5, 0, 7] (fsm_init FMT_BASIC fsm_zero)) = None"
proof -
  let ?s = "(fsm_import [0xE001, 0x9800, 0x0010, 0x0001, 0x9100, 5, 0, 7] (fsm_init FMT_BASIC fsm_zero))"
  let ?i = "?s\<lparr>event_index := 0, fsm_report := (fsm_report ?s)\<lparr>fr_in_events := fr_in_events (fsm_report ?s) + 1,
              fr_in_bytes := fr_in_bytes (fsm_report ?s) + event_bytes ?s\<rparr>\<rparr>"
  have "case run_steps 7 (PARSE_FAIL, ?i) of Inl _ \<Rightarrow> False | Inr (r, s) \<Rightarrow> stalled s"
    by code_simp
  then obtain r s where "run_steps 7 (PARSE_FAIL, ?i) = Inr (r, s)" "stalled s"
    by (auto split: sum.splits)
  with process_loop_steps zero_length_never_returns [of s r] have "process_loop (PARSE_FAIL, ?i) = None"
    by metis
  then show ?thesis unfolding fsm_process_def Let_def by (simp only: option.map_disc_iff)
qed

end
