(* ===== verification/FzFSM_Report.thy ===== *)
theory FzFSM_Report
  imports FzFSM_Loop
begin

section \<open>The counters of the machine\<close>

text \<open>
  The index moves forward, so every closed event has a register word of its own, and only
  the transition on that word touches the counters of good, bad and empty events.
\<close>

subsection \<open>The index never moves backwards\<close>

lemma process_step_up:
  assumes "process_step (r, s) = Inr (r', t)" "state_id s \<le> 10"
  shows "event_index s \<le> event_index t"
proof -
  from process_stepD [OF assms(1)] obtain w where i: "w = event s ! event_index s"
    and w: "if getword_id w = 8 then r' = r \<and> t = s\<lparr>event_index := event_index s + 1\<rparr>
     else \<exists>u. run_transition (ttable ! getword_id w ! state_id s) r s = Inr (r', u) \<and>
       t = u\<lparr>event_index := event_index u + 1\<rparr>" by blast
  let ?k = "ttable ! getword_id w ! state_id s"
  show ?thesis
  proof (cases "getword_id w = 8 \<or> ?k \<noteq> 8")
    case True
    with w run_transition_index [of ?k r s r'] show ?thesis by (auto split: if_splits)
  next
    case False
    with w obtain u where u: "run_transition 8 r s = Inr (r', u)" "t = u\<lparr>event_index := event_index u + 1\<rparr>" by auto
    then obtain v where v: "by_format trans08_basic trans08_tag s = Inr v" "u = v\<lparr>state_id := 5\<rparr>"
      by (auto simp: run_transition_def bindE_Inr_iff goto_def modify_def)
    have "w \<le> 0x7FFF"
      using False ttable_8 [OF getword_id_less assms(2)] by (intro getword_id_small) blast
    with v(1) i trans08_basic_index [of s v] trans08_tag_index [of s v] have "event_index s \<le> Suc (event_index v)"
      by (auto simp: by_format_def split: if_splits)
    with u(2) v(2) show ?thesis by simp
  qed
qed

definition regids_before :: "fsm \<Rightarrow> nat" where
  "regids_before s = length (filter (\<lambda>w. getword_id w = 12) (take (event_index s) (event s)))"

lemma ttable_18: "w < 18 \<Longrightarrow> k \<le> 10 \<Longrightarrow> ttable ! w ! k = 18 \<Longrightarrow> w = 12"
proof -
  have "\<forall>w\<in>set [0..<18]. \<forall>k\<in>set [0..<11]. ttable ! w ! k = 18 \<longrightarrow> w = 12"
    by code_simp
  then show "w < 18 \<Longrightarrow> k \<le> 10 \<Longrightarrow> ttable ! w ! k = 18 \<Longrightarrow> w = 12" by force
qed

interpretation report_frame: frame "\<lambda>s. fsm_report s = a" for a
  by unfold_locales simp_all

interpretation report_data: frame_all "\<lambda>s. fsm_report s = a" for a
  by unfold_locales simp_all

definition outcome :: "fsm \<Rightarrow> u64 \<times> u64 \<times> u64 \<times> u64 \<times> u64" where
  "outcome s = (fr_events_good (fsm_report s), fr_events_bad (fsm_report s), fr_events_empty (fsm_report s),
     fr_in_events (fsm_report s), fr_out_events (fsm_report s))"

lemma trans_invalid_outcome: "kept (\<lambda>t. outcome t = outcome s) (trans_invalid s)"
  by (simp add: trans_invalid_def goto_def on_report_def kept_def wp outcome_def)

lemma run_transition_outcome:
  assumes "run_transition k r s = Inr (r', u)" "k \<noteq> 18"
  shows "outcome u = outcome s \<and> r' = r"
proof -
  have "r' = r" using assms by (auto simp: run_transition_def bindE_Inr_iff)
  let ?P = "\<lambda>t. outcome t = outcome s"
  have "kept ?P (f s)" if "f \<in> set (bodies k)" for f
  proof (cases "k = 0")
    case True
    with that trans_invalid_outcome show ?thesis by (simp add: bodies_0_18)
  next
    case False
    with that assms(2) report_frame.bodies_kept [of k s _ f] report_data.bodies_kept_all [of k s _ f]
    have "kept (\<lambda>t. fsm_report t = fsm_report s) (f s)" by (cases "k \<in> {7, 8}") auto
    then show ?thesis by (auto simp: kept_def outcome_def elim: wpE_mono)
  qed
  with run_transition_kept [of ?P s k r r' u] assms(1) \<open>r' = r\<close> show ?thesis by (auto simp: outcome_def)
qed

subsection \<open>What closing an event counts\<close>

text \<open>An event is closed at a register word in S10. It is empty when it holds no trigger
  information and no card, else bad when an error was noted since the last event that was
  not empty, else good.\<close>

datatype verdict = Good | Bad | Empty

definition holds_nothing :: "FzEvent \<Rightarrow> bool" where
  "holds_nothing e \<longleftrightarrow> e_trinfo e = [] \<and> (\<forall>b\<in>set (e_block e). b_fee b = [])"

definition closes :: "fsm \<Rightarrow> verdict option" where
  "closes s = (if state_id s = 10 \<and> getword_id (event s ! event_index s) = 12
     then Some (if holds_nothing (ev s) then Empty else if err_in_event s then Bad else Good) else None)"

definition tally :: "verdict option \<Rightarrow> u64 \<times> u64 \<times> u64 \<times> u64 \<times> u64 \<Rightarrow> u64 \<times> u64 \<times> u64 \<times> u64 \<times> u64" where
  "tally v c = (case c of (g, b, e, i, out) \<Rightarrow>
     (if v = Some Good then g + 1 else g, if v = Some Bad then b + 1 else b, if v = Some Empty then e + 1 else e, i, out))"

lemma ttable_12_10: "ttable ! 12 ! 10 = 18"
  by code_simp

lemma run_transition_18:
  assumes "run_transition 18 r s = Inr (r', u)"
  shows "outcome u = tally (Some (if holds_nothing (ev s) then Empty else if err_in_event s then Bad else Good)) (outcome s) \<and>
    r' = PARSE_OK"
proof -
  have e: "ev_is_empty (e_regid_update f e) = holds_nothing e" for f e
    by (auto simp: ev_is_empty_def holds_nothing_def list_ex_iff)
  have "kept (\<lambda>u. outcome u = tally (Some (if holds_nothing (ev s) then Empty else if err_in_event s then Bad else Good))
      (outcome s)) (trans18 s)"
    by (auto simp: trans18_def on_report_def kept_def wp outcome_def tally_def e split: option.split)
  with assms show ?thesis
    by (auto simp: run_transition_def bindE_Inr_iff goto_def modify_def kept_def wp outcome_def)
qed

lemma regids_before_step:
  assumes "event_index s \<le> event_index t" "event t = event s" "event_index s < length (event s)"
  shows "regids_before s \<le> regids_before t"
    and "getword_id (event s ! event_index s) = 12 \<Longrightarrow> event_index t = Suc (event_index s) \<Longrightarrow>
      regids_before t = Suc (regids_before s)"
proof -
  from assms(1) obtain n where "event_index t = event_index s + n" by (auto simp: le_iff_add)
  with assms(2) show "regids_before s \<le> regids_before t"
    by (simp add: regids_before_def take_add)
  show "getword_id (event s ! event_index s) = 12 \<Longrightarrow> event_index t = Suc (event_index s) \<Longrightarrow>
      regids_before t = Suc (regids_before s)"
    using assms(2,3) by (simp add: regids_before_def take_Suc_conv_app_nth)
qed

lemma process_step_tally:
  assumes "process_step (r, s) = Inr (r', t)" "state_id s \<le> 10"
  shows "outcome t = tally (closes s) (outcome s) \<and> r' = (if closes s = None then r else PARSE_OK) \<and>
    regids_before s + (if closes s = None then 0 else 1) \<le> regids_before t \<and> event t = event s"
proof -
  from process_stepD [OF assms(1)] obtain w where i: "w = event s ! event_index s" "event_index s < length (event s)"
    and w: "if getword_id w = 8 then r' = r \<and> t = s\<lparr>event_index := event_index s + 1\<rparr>
     else \<exists>u. run_transition (ttable ! getword_id w ! state_id s) r s = Inr (r', u) \<and>
       t = u\<lparr>event_index := event_index u + 1\<rparr>" by blast
  have up: "event_index s \<le> event_index t" by (rule process_step_up [OF assms])
  have ev: "event t = event s" using w run_transition_input by (auto split: if_splits)
  note before = regids_before_step [OF up ev i(2)]
  show ?thesis
  proof (cases "getword_id w \<noteq> 8 \<and> ttable ! getword_id w ! state_id s = 18")
    case True
    with w obtain u where u: "run_transition 18 r s = Inr (r', u)" "t = u\<lparr>event_index := event_index u + 1\<rparr>" by auto
    from True ttable_18 [OF getword_id_less assms(2)] have w12: "getword_id w = 12" by blast
    from True ttable_from [OF getword_id_less assms(2), of w] have "state_id s = 10" by (simp add: trans_from_def)
    with w12 i have "closes s = Some (if holds_nothing (ev s) then Empty else if err_in_event s then Bad else Good)"
      by (simp add: closes_def)
    moreover from run_transition_index [OF u(1)] u(2) have "event_index t = Suc (event_index s)" by simp
    then have "regids_before t = Suc (regids_before s)" using before(2) w12 i by blast
    ultimately show ?thesis
      using run_transition_18 [OF u(1)] u(2) ev by (simp add: outcome_def)
  next
    case False
    then have "closes s = None" using i ttable_12_10 by (auto simp: closes_def)
    with w False run_transition_outcome [of "ttable ! getword_id w ! state_id s" r s r'] before(1) ev show ?thesis
      by (auto simp: tally_def outcome_def split: if_splits)
  qed
qed

subsection \<open>The turns of a run\<close>

text \<open>The states at the head of the loop, turn after turn, from the first to the return.\<close>

inductive loop_run :: "nat \<times> fsm \<Rightarrow> fsm list \<Rightarrow> nat \<times> fsm \<Rightarrow> bool" where
  stop: "\<not> event_index (snd rs) < length (event (snd rs)) \<Longrightarrow> loop_run rs [] rs"
| turn: "event_index (snd rs) < length (event (snd rs)) \<Longrightarrow> process_step rs = Inr rs' \<Longrightarrow>
    loop_run rs' vs rs'' \<Longrightarrow> loop_run rs (snd rs # vs) rs''"

inductive_cases loop_runE: "loop_run rs vs rs'"

lemma loop_run_exists: "process_loop rs = Some (Inr rs') \<Longrightarrow> \<exists>vs. loop_run rs vs rs'"
proof -
  have "\<forall>z. y = Inr z \<longrightarrow> (\<exists>vs. loop_run rs vs z)" if "process_loop rs = Some y" for rs y
    using that by (induction rule: process_loop_induct) (auto intro: loop_run.intros)
  then show "process_loop rs = Some (Inr rs') \<Longrightarrow> \<exists>vs. loop_run rs vs rs'" by blast
qed

text \<open>A run has one list of turns.\<close>

lemma loop_run_unique: "loop_run rs vs z \<Longrightarrow> loop_run rs vs' z' \<Longrightarrow> vs' = vs \<and> z' = z"
proof (induction arbitrary: vs' z' rule: loop_run.induct)
  case (stop rs)
  then show ?case by (auto elim: loop_runE)
next
  case (turn rs rs1 vs rs2)
  from turn.prems show ?case
  proof (cases rule: loop_run.cases)
    case (turn rs1' vs1)
    then show ?thesis using turn.hyps turn.IH by auto
  qed (use turn.hyps in simp)
qed

definition closed :: "verdict \<Rightarrow> fsm list \<Rightarrow> nat" where
  "closed k vs = length (filter (\<lambda>v. closes v = Some k) vs)"

lemma closed_simps [simp]:
  "closed k [] = 0"
  "closed k (v # vs) = (if closes v = Some k then Suc (closed k vs) else closed k vs)"
  by (simp_all add: closed_def)

definition totals :: "fsm list \<Rightarrow> u64 \<times> u64 \<times> u64 \<times> u64 \<times> u64 \<Rightarrow> u64 \<times> u64 \<times> u64 \<times> u64 \<times> u64" where
  "totals vs c = (case c of (g, b, e, i, out) \<Rightarrow>
     (g + of_nat (closed Good vs), b + of_nat (closed Bad vs), e + of_nat (closed Empty vs), i, out))"

lemma totals_Cons: "totals (v # vs) c = totals vs (tally (closes v) c)"
  by (cases c) (simp add: totals_def tally_def algebra_simps)

lemma loop_run_totals:
  "loop_run rs vs rs' \<Longrightarrow> good F (snd rs) \<Longrightarrow>
    outcome (snd rs') = totals vs (outcome (snd rs)) \<and>
    fst rs' = (if \<exists>v\<in>set vs. closes v \<noteq> None then PARSE_OK else fst rs) \<and>
    regids_before (snd rs) + length (filter (\<lambda>v. closes v \<noteq> None) vs) \<le> regids_before (snd rs') \<and>
    event (snd rs') = event (snd rs)"
proof (induction rule: loop_run.induct)
  case (stop rs)
  show ?case by (cases "outcome (snd rs)") (simp add: totals_def)
next
  case (turn rs rs1 vs rs2)
  obtain r s r1 s1 where e: "rs = (r, s)" "rs1 = (r1, s1)" by (cases rs; cases rs1)
  have "state_id s \<le> 10" using turn.prems e by (simp add: good_def)
  from process_step_tally [of r s r1 s1, OF _ this] turn.hyps(2) e have
    st: "outcome s1 = tally (closes s) (outcome s)" "r1 = (if closes s = None then r else PARSE_OK)"
      "regids_before s + (if closes s = None then 0 else 1) \<le> regids_before s1" "event s1 = event s" by simp_all
  have "good F (snd rs1)" using process_step_good [OF turn.prems] turn.hyps(2) by (simp add: wp)
  from turn.IH [OF this] st e show ?case by (auto simp: totals_Cons)
qed

lemma loop_run_event: "loop_run rs vs rs' \<Longrightarrow> \<forall>v\<in>set vs. event v = event (snd rs)"
proof (induction rule: loop_run.induct)
  case (turn rs rs1 vs rs2)
  have "event (snd rs1) = event (snd rs)"
    using process_stepD [of "fst rs" "snd rs" "fst rs1" "snd rs1"] turn.hyps(2) run_transition_input
    by (auto split: if_splits)
  with turn.IH show ?case by simp
qed simp

lemma regids_take: "length (filter P (take n xs)) \<le> length (filter P xs)"
  by (metis append_take_drop_id filter_append le_add1 length_append)

text \<open>The machine as \<open>process\<close> enters its loop.\<close>

definition entered :: "fsm \<Rightarrow> fsm" where
  "entered s = s\<lparr>event_index := 0, fsm_report := (fsm_report s)\<lparr>
      fr_in_events := fr_in_events (fsm_report s) + 1, fr_in_bytes := fr_in_bytes (fsm_report s) + event_bytes s\<rparr>\<rparr>"

lemma fsm_process_Inr:
  assumes "fsm_process s = Some (Inr (r, t))"
  shows "\<exists>u. process_loop (PARSE_FAIL, s\<lparr>event_index := 0, fsm_report := (fsm_report s)\<lparr>
      fr_in_events := fr_in_events (fsm_report s) + 1, fr_in_bytes := fr_in_bytes (fsm_report s) + event_bytes s\<rparr>\<rparr>)
      = Some (Inr (r, u)) \<and>
    t = u\<lparr>fsm_report := (fsm_report u)\<lparr>fr_out_events := fr_out_events (fsm_report u) + 1,
            fr_out_bytes := fr_out_bytes (fsm_report u) + event_bytes u\<rparr>\<rparr>"
  using assms by (auto simp: fsm_process_def Let_def bindE_Inr_iff)

text \<open>An event of one block with one card, one hit and a waveform of three samples.\<close>

definition one_block_event :: "u16 list" where
  "one_block_event = [0xE001, 0x9800, 0x0010, 0x0001, 0x9000, 0x7004, 1, 5, 0x7005, 3, 1, 2, 3,
     0xA00D, 0xBFE0, 0xE001, 0xC003, 0xA013, 0xD9D0, 0xC805]"

text \<open>
  C6. The counters are exact. Of the turns of the loop of a run that returns, those at a
  register word in S10 close an event; the counter of empty events grew by the number of
  them with neither trigger information nor a card, the counter of bad events by the number
  of the others with an error noted, the counter of good events by the number of the rest.
  One event came in and one went out, the result says whether any was closed, and no more
  were closed than the buffer has words of the register class.
\<close>

theorem process_counts_events:
  assumes "fsm_process (fsm_import w s) = Some (Inr (r, t))"
  shows "\<exists>vs u. loop_run (PARSE_FAIL, entered (fsm_import w s)) vs (r, u) \<and>
    fr_events_empty (fsm_report t) = fr_events_empty (fsm_report s) +
      of_nat (length (filter (\<lambda>v. state_id v = 10 \<and> getword_id (w ! event_index v) = 12 \<and> holds_nothing (ev v)) vs)) \<and>
    fr_events_bad (fsm_report t) = fr_events_bad (fsm_report s) +
      of_nat (length (filter (\<lambda>v. state_id v = 10 \<and> getword_id (w ! event_index v) = 12 \<and>
        \<not> holds_nothing (ev v) \<and> err_in_event v) vs)) \<and>
    fr_events_good (fsm_report t) = fr_events_good (fsm_report s) +
      of_nat (length (filter (\<lambda>v. state_id v = 10 \<and> getword_id (w ! event_index v) = 12 \<and>
        \<not> holds_nothing (ev v) \<and> \<not> err_in_event v) vs)) \<and>
    fr_in_events (fsm_report t) = fr_in_events (fsm_report s) + 1 \<and>
    fr_out_events (fsm_report t) = fr_out_events (fsm_report s) + 1 \<and>
    r = (if \<exists>v\<in>set vs. state_id v = 10 \<and> getword_id (w ! event_index v) = 12 then PARSE_OK else PARSE_FAIL) \<and>
    length (filter (\<lambda>v. state_id v = 10 \<and> getword_id (w ! event_index v) = 12) vs) \<le>
      length (filter (\<lambda>x. getword_id x = 12) w)"
proof -
  let ?s = "entered (fsm_import w s)"
  from fsm_process_Inr [OF assms] obtain u where u: "process_loop (PARSE_FAIL, ?s) = Some (Inr (r, u))"
    and t: "t = u\<lparr>fsm_report := (fsm_report u)\<lparr>fr_out_events := fr_out_events (fsm_report u) + 1,
            fr_out_bytes := fr_out_bytes (fsm_report u) + event_bytes u\<rparr>\<rparr>" by (auto simp: entered_def)
  from loop_run_exists [OF u] obtain vs where vs: "loop_run (PARSE_FAIL, ?s) vs (r, u)" by blast
  have g: "good (evformat s) (snd (PARSE_FAIL, ?s))"
    by (simp add: entered_def fsm_import_def good_def fit_simps)
  have ev: "\<forall>v\<in>set vs. event v = w" using loop_run_event [OF vs] by (simp add: entered_def fsm_import_def)
  have c: "closes v = (if state_id v = 10 \<and> getword_id (w ! event_index v) = 12
     then Some (if holds_nothing (ev v) then Empty else if err_in_event v then Bad else Good) else None)"
    if "v \<in> set vs" for v using ev that by (simp add: closes_def)
  have n: "closed Empty vs = length (filter (\<lambda>v. state_id v = 10 \<and> getword_id (w ! event_index v) = 12 \<and> holds_nothing (ev v)) vs)"
    "closed Bad vs = length (filter (\<lambda>v. state_id v = 10 \<and> getword_id (w ! event_index v) = 12 \<and>
        \<not> holds_nothing (ev v) \<and> err_in_event v) vs)"
    "closed Good vs = length (filter (\<lambda>v. state_id v = 10 \<and> getword_id (w ! event_index v) = 12 \<and>
        \<not> holds_nothing (ev v) \<and> \<not> err_in_event v) vs)"
    "filter (\<lambda>v. closes v \<noteq> None) vs = filter (\<lambda>v. state_id v = 10 \<and> getword_id (w ! event_index v) = 12) vs"
    unfolding closed_def by (auto intro!: arg_cong [where f = length] filter_cong simp: c split: if_splits)
  have x: "(\<exists>v\<in>set vs. closes v \<noteq> None) = (\<exists>v\<in>set vs. state_id v = 10 \<and> getword_id (w ! event_index v) = 12)"
    using c by (auto split: if_splits)
  have "regids_before u \<le> length (filter (\<lambda>x. getword_id x = 12) (event u))"
    unfolding regids_before_def by (rule regids_take)
  with loop_run_totals [OF vs g] t vs show ?thesis
    unfolding n x by (intro exI [of _ vs] exI [of _ u])
      (auto simp: outcome_def totals_def n entered_def fsm_import_def)
qed

lemma one_block_event_run:
  "case fsm_process (fsm_import one_block_event (fsm_init FMT_TAG fsm_zero)) of
     Some (Inr (r, t)) \<Rightarrow> r = PARSE_OK \<and> fr_events_good (fsm_report t) = 1 \<and>
       map b_blkid (e_block (ev t)) = [Some 3] | _ \<Rightarrow> False"
  by code_simp

lemma process_counts_events_witness:
  "\<exists>t vs u. fsm_process (fsm_import one_block_event (fsm_init FMT_TAG fsm_zero)) = Some (Inr (PARSE_OK, t)) \<and>
     loop_run (PARSE_FAIL, entered (fsm_import one_block_event (fsm_init FMT_TAG fsm_zero))) vs (PARSE_OK, u) \<and>
     (\<exists>v\<in>set vs. state_id v = 10 \<and> \<not> holds_nothing (ev v) \<and> \<not> err_in_event v)"
proof -
  let ?s = "fsm_init FMT_TAG fsm_zero"
  from one_block_event_run obtain t where t: "fsm_process (fsm_import one_block_event ?s) = Some (Inr (PARSE_OK, t))"
    "fr_events_good (fsm_report t) = 1" by (auto split: option.splits sum.splits)
  have z: "fr_events_good (fsm_report ?s) = 0" by code_simp
  from process_counts_events [OF t(1)] obtain vs u where vs:
    "loop_run (PARSE_FAIL, entered (fsm_import one_block_event ?s)) vs (PARSE_OK, u)"
    "fr_events_good (fsm_report t) = fr_events_good (fsm_report ?s) +
      of_nat (length (filter (\<lambda>v. state_id v = 10 \<and> getword_id (one_block_event ! event_index v) = 12 \<and>
        \<not> holds_nothing (ev v) \<and> \<not> err_in_event v) vs))" by blast
  then have "filter (\<lambda>v. state_id v = 10 \<and> getword_id (one_block_event ! event_index v) = 12 \<and>
        \<not> holds_nothing (ev v) \<and> \<not> err_in_event v) vs \<noteq> []" using t(2) z by auto
  then have "\<exists>v\<in>set vs. state_id v = 10 \<and> \<not> holds_nothing (ev v) \<and> \<not> err_in_event v"
    by (auto simp: filter_empty_conv)
  with t(1) vs(1) show ?thesis by blast
qed

end
