(* ===== verification/FzFSM_Clean.thy ===== *)
theory FzFSM_Clean
  imports FzFSM_Report
begin

section \<open>A good event carries no block or card error\<close>

text \<open>
  A block and a card begin with both error flags set. As long as no error was noted in the
  event, every closed card and every closed block had its checks passed; \<open>clean\<close> says so
  for each state.
\<close>

definition fee_flags :: "FzFee \<Rightarrow> bool option \<times> bool option" where
  "fee_flags f = (f_len_error f, f_crc_error f)"

definition blk_flags :: "FzBlock \<Rightarrow> (bool option \<times> bool option) \<times> (bool option \<times> bool option) list" where
  "blk_flags b = ((b_len_error b, b_crc_error b), map fee_flags (b_fee b))"

definition flags :: "FzEvent \<Rightarrow> ((bool option \<times> bool option) \<times> (bool option \<times> bool option) list) list" where
  "flags e = map blk_flags (e_block e)"

abbreviation ok_flags :: "bool option \<times> bool option" where
  "ok_flags \<equiv> (Some False, Some False)"

definition ok_block :: "(bool option \<times> bool option) \<times> (bool option \<times> bool option) list \<Rightarrow> bool" where
  "ok_block x \<longleftrightarrow> fst x = ok_flags \<and> (\<forall>f\<in>set (snd x). f = ok_flags)"

lemma map_upd_at: "(\<And>x. g (f x) = f' (g x)) \<Longrightarrow> map g (upd_at i f xs) = upd_at i f' (map g xs)"
  by (simp add: upd_at_def map_update)

lemma map_upd_at_id: "(\<And>x. g (f x) = g x) \<Longrightarrow> map g (upd_at i f xs) = map g xs"
  by (auto simp: upd_at_def map_update list_update_same_conv)

lemma flags_below:
  "flags (upd_hit q fh e) = flags e" "flags (add_hit r h e) = flags e"
  "flags (upd_data p fd e) = flags e" "flags (add_data q d e) = flags e"
  "flags (e_trinfo_update ft e) = flags e"
proof -
  have fee: "flags (upd_fee r g e) = flags e" if "\<And>f. fee_flags (g f) = fee_flags f" for r g
    by (cases r) (auto simp: flags_def upd_fee.simps upd_blk_def blk_flags_def that intro!: map_upd_at_id)
  have fl: "fee_flags (f_hit_update g f) = fee_flags f" for g f by (simp add: fee_flags_def)
  show "flags (upd_hit q fh e) = flags e" by (cases q) (simp add: upd_hit.simps fee fl)
  show "flags (add_hit r h e) = flags e" by (simp add: add_hit_def fee fl)
  have hit: "flags (upd_hit q g e) = flags e" for q g by (cases q) (simp add: upd_hit.simps fee fl)
  show "flags (upd_data p fd e) = flags e" by (cases p) (simp add: upd_data.simps hit)
  show "flags (add_data q d e) = flags e" by (simp add: add_data_def hit)
  show "flags (e_trinfo_update ft e) = flags e" by (simp add: flags_def)
qed

interpretation flags_frame: frame_all "\<lambda>t. err_in_event t \<or> (flags (ev t), blk_p t, fee_p t) = a" for a
  by unfold_locales (auto simp: flags_below)

text \<open>All blocks but the last are done, and the last is the current one.\<close>

definition last_current :: "fsm \<Rightarrow> bool" where
  "last_current s \<longleftrightarrow> (let K = flags (ev s) in K \<noteq> [] \<and> blk_p s = Some (length K - 1) \<and>
     (\<forall>b\<in>set (butlast K). ok_block b))"

definition cards_closed :: "fsm \<Rightarrow> bool" where
  "cards_closed s \<longleftrightarrow> last_current s \<and> (\<forall>f\<in>set (snd (last (flags (ev s)))). f = ok_flags)"

definition card_open :: "fsm \<Rightarrow> bool" where
  "card_open s \<longleftrightarrow> last_current s \<and> (let K = flags (ev s); fs = snd (last K) in
     fs \<noteq> [] \<and> fee_p s = Some (length K - 1, length fs - 1) \<and> (\<forall>f\<in>set (butlast fs). f = ok_flags))"

definition clean :: "nat \<Rightarrow> fsm \<Rightarrow> bool" where
  "clean k s \<longleftrightarrow> (if k = 0 then flags (ev s) = [] else \<not> err_in_event s \<longrightarrow>
     (if k = 1 \<or> k = 7 \<or> k = 8 \<or> k = 9 then cards_closed s
      else if k = 10 then (\<forall>b\<in>set (flags (ev s)). ok_block b)
      else card_open s))"

lemma clean_simps:
  "clean 0 s \<longleftrightarrow> flags (ev s) = []"
  "clean 1 s \<longleftrightarrow> (\<not> err_in_event s \<longrightarrow> cards_closed s)" "clean (Suc 0) s \<longleftrightarrow> (\<not> err_in_event s \<longrightarrow> cards_closed s)"
  "clean 7 s \<longleftrightarrow> (\<not> err_in_event s \<longrightarrow> cards_closed s)" "clean 8 s \<longleftrightarrow> (\<not> err_in_event s \<longrightarrow> cards_closed s)"
  "clean 9 s \<longleftrightarrow> (\<not> err_in_event s \<longrightarrow> cards_closed s)"
  "clean 2 s \<longleftrightarrow> (\<not> err_in_event s \<longrightarrow> card_open s)" "clean 3 s \<longleftrightarrow> (\<not> err_in_event s \<longrightarrow> card_open s)"
  "clean 4 s \<longleftrightarrow> (\<not> err_in_event s \<longrightarrow> card_open s)" "clean 5 s \<longleftrightarrow> (\<not> err_in_event s \<longrightarrow> card_open s)"
  "clean 6 s \<longleftrightarrow> (\<not> err_in_event s \<longrightarrow> card_open s)"
  "clean 10 s \<longleftrightarrow> (\<not> err_in_event s \<longrightarrow> (\<forall>b\<in>set (flags (ev s)). ok_block b))"
  by (simp_all add: clean_def)

lemma upd_at_last: "xs \<noteq> [] \<Longrightarrow> upd_at (length xs - 1) f xs = butlast xs @ [f (last xs)]"
  by (cases xs rule: rev_cases) (simp_all add: upd_at_def)

lemma flags_add_block: "flags (add_block new_FzBlock e) = flags e @ [((None, None), [])]"
  by (simp add: flags_def add_block_def blk_flags_def new_FzBlock_def)

lemma flags_upd_blk:
  assumes "\<And>b. blk_flags (f b) = g (blk_flags b)"
  shows "flags (upd_blk p f e) = upd_at p g (flags e)"
  using assms by (simp add: flags_def upd_blk_def map_upd_at)

lemma flags_upd_fee:
  assumes "\<And>x. fee_flags (f x) = g (fee_flags x)"
  shows "flags (upd_fee (p, i) f e) = upd_at p (apsnd (upd_at i g)) (flags e)"
proof -
  have "blk_flags (b_fee_update (upd_at i f) b) = apsnd (upd_at i g) (blk_flags b)" for b
    using map_upd_at [of fee_flags f g i "b_fee b"] assms by (simp add: blk_flags_def)
  then show ?thesis unfolding upd_fee.simps by (rule flags_upd_blk)
qed

lemma flags_add_fee: "flags (add_fee p new_FzFee e) = upd_at p (apsnd (\<lambda>fs. fs @ [(None, None)])) (flags e)"
  unfolding add_fee_def by (rule flags_upd_blk) (simp add: blk_flags_def fee_flags_def new_FzFee_def)

lemma flags_set:
  "flags (upd_blk p (b_len_error_update fl) e) = upd_at p (apfst (apfst fl)) (flags e)"
  "flags (upd_blk p (b_crc_error_update fl) e) = upd_at p (apfst (apsnd fl)) (flags e)"
  "flags (upd_blk p (b_blkid_update fi) e) = upd_at p (\<lambda>x. x) (flags e)"
  "flags (upd_fee (p, i) (f_len_error_update fl) e) = upd_at p (apsnd (upd_at i (apfst fl))) (flags e)"
  "flags (upd_fee (p, i) (f_crc_error_update fl) e) = upd_at p (apsnd (upd_at i (apsnd fl))) (flags e)"
  "flags (upd_fee (p, i) (f_feeid_update fj) e) = upd_at p (apsnd (upd_at i (\<lambda>x. x))) (flags e)"
  by (rule flags_upd_blk flags_upd_fee, simp add: blk_flags_def fee_flags_def)+

lemmas flag_laws = flags_below flags_add_block flags_set flags_add_fee

lemma flags_top: "length (e_block e) = length (flags e)" "flags (e_ec_update fe e) = flags e"
  by (simp_all add: flags_def)

lemma upd_at_snoc [simp]:
  "upd_at (length xs) f (xs @ [x]) = xs @ [f x]" "upd_at 0 f [x] = [f x]"
  "i < length xs \<Longrightarrow> upd_at i f (xs @ [x]) = upd_at i f xs @ [x]"
  "upd_at i (\<lambda>x. x) xs = xs"
  by (simp_all add: upd_at_def list_update_append nth_append)

lemma trans02_clean:
  assumes "clean 0 s"
  shows "kept (clean 1) (trans02 s)"
proof -
  from assms have "flags (ev s) = []" by (simp add: clean_simps)
  then show ?thesis
    by (auto simp: trans02_def Let_def kept_def wp clean_simps cards_closed_def last_current_def flags_top flag_laws split: option.split)
qed

lemma trans17_clean: "clean 10 s \<Longrightarrow> kept (clean 1) (trans17 s)"
  by (auto simp: trans17_def Let_def kept_def wp clean_simps cards_closed_def last_current_def flags_top flag_laws split: option.split)

lemma last_currentE:
  assumes "last_current s"
  obtains K x where "flags (ev s) = K @ [x]" "blk_p s = Some (length K)" "\<forall>b\<in>set K. ok_block b"
  using assms by (cases "flags (ev s)" rule: rev_cases) (auto simp: last_current_def Let_def)

lemma trans03_clean:
  assumes "clean 1 s"
  shows "kept (clean 2) (trans03 s)"
proof (cases "err_in_event s")
  case True
  then show ?thesis
    by (auto simp: trans03_def update_defs Let_def kept_def wp clean_simps split: option.split)
next
  case False
  with assms have c: "cards_closed s" by (simp add: clean_simps)
  then obtain K l fs where k: "flags (ev s) = K @ [(l, fs)]" "blk_p s = Some (length K)" "\<forall>b\<in>set K. ok_block b" "\<forall>f\<in>set fs. f = ok_flags"
    by (auto simp: cards_closed_def elim!: last_currentE)
  have "length (b_fee x) = length fs" if "get_blk (ev s) (length K) = Some x" for x
  proof -
    have "blk_flags x = flags (ev s) ! length K"
      using that by (auto simp: get_blk_def flags_def nth_opt_def split: if_splits)
    then show ?thesis using k(1) by (auto simp: blk_flags_def)
  qed
  with k show ?thesis
    by (auto simp: trans03_def update_defs Let_def kept_def wp clean_simps card_open_def last_current_def flags_top flag_laws split: option.split)
qed

lemma card_openE:
  assumes "card_open s"
  obtains K l fs f where "flags (ev s) = K @ [(l, fs @ [f])]" "blk_p s = Some (length K)" "fee_p s = Some (length K, length fs)"
    "\<forall>b\<in>set K. ok_block b" "\<forall>f\<in>set fs. f = ok_flags"
proof -
  from assms obtain K x where k: "flags (ev s) = K @ [x]" "blk_p s = Some (length K)" "\<forall>b\<in>set K. ok_block b"
    by (auto simp: card_open_def elim: last_currentE)
  moreover obtain l gs where x: "x = (l, gs)" by (cases x)
  moreover from assms k x have "gs \<noteq> []" by (auto simp: card_open_def Let_def)
  then obtain fs f where "gs = fs @ [f]" by (cases gs rule: rev_cases) auto
  ultimately show thesis using assms that [of K l fs f] by (auto simp: card_open_def Let_def)
qed

lemma trans12_clean:
  assumes "clean 6 s"
  shows "kept (clean 7) (trans12 s)"
proof (cases "err_in_event s")
  case True
  then show ?thesis
    by (auto simp: trans12_def update_defs set_err_in_event_def Let_def kept_def wp clean_simps split: option.split)
next
  case False
  with assms have "card_open s" by (simp add: clean_simps)
  then show ?thesis using False
    by (auto elim!: card_openE simp: trans12_def update_defs set_err_in_event_def Let_def kept_def wp clean_simps
       cards_closed_def last_current_def flags_top flag_laws split: option.split)
qed

lemma trans13_clean: "clean 7 s \<Longrightarrow> kept (clean 1) (trans13 s)"
  by (auto simp: trans13_def update_defs Let_def kept_def wp clean_simps cards_closed_def last_current_def split: option.split)

lemma trans14_clean: "clean 1 s \<Longrightarrow> kept (clean 8) (trans14 s)"
  by (auto simp: trans14_def update_defs Let_def kept_def wp clean_simps cards_closed_def last_current_def flags_top flag_laws split: option.split)

lemma trans15_clean: "clean 8 s \<Longrightarrow> kept (clean 9) (trans15 s)"
  by (auto simp: trans15_def Let_def kept_def wp clean_simps cards_closed_def last_current_def split: option.split)

context frame_data begin

lemma kept_read_triggerinfo: "P s \<Longrightarrow> kept P (read_triggerinfo fee s)"
  unfolding read_triggerinfo_def by (intro kept_read_trig frame)

end

context frame_all begin

lemma run_data_kept:
  assumes "run_transition k r s = Inr (r', u)" "k \<in> {1, 4, 5, 6, 7, 8, 9, 10, 11}" "P s"
    and "\<And>s k. P s \<Longrightarrow> P (s\<lparr>state_id := k\<rparr>)"
  shows "P u"
  using run_transition_kept [of P s k r r' u] bodies_kept_all [of k s] assms by blast

end

interpretation err_frame: frame_all err_in_event
  by unfold_locales simp_all

lemma trig_fees:
  "P u \<Longrightarrow> (\<And>f. kept P (read_triggerinfo f u)) \<Longrightarrow> kept P (case fees of [] \<Rightarrow> Inr u | fee # _ \<Rightarrow> read_triggerinfo fee u)"
  by (simp add: kept_Inr split: list.split)

lemma checks_err:
  assumes "err_in_event s"
  shows "kept err_in_event (check_block_len s)" "kept err_in_event (check_block_crc s)"
proof -
  show "kept err_in_event (check_block_len s)"
    using assms by (auto simp: check_block_len_def set_err_in_event_def kept_def wp split: option.split)
  have "wpE (\<lambda>_. True) err_in_event (case fees of [] \<Rightarrow> Inr u | fee # _ \<Rightarrow> read_triggerinfo fee u)" if "err_in_event u" for u fees
    using trig_fees [of err_in_event u fees] err_frame.kept_read_triggerinfo that by (simp add: kept_def)
  then show "kept err_in_event (check_block_crc s)"
    using assms by (auto simp: check_block_crc_def set_err_in_event_def block_RemoveLast_def kept_def wp Let_def split: option.split)
qed

lemma flags_RemoveLast: "flags (e_block_update butlast e) = butlast (flags e)"
  by (simp add: flags_def map_butlast)

lemma trans16_clean:
  assumes "clean 9 s"
  shows "kept (clean 10) (trans16 s)"
proof -
  let ?s = "\<lambda>c. s\<lparr>rd_blkcrc := c\<rparr>"
  have "kept (clean 10) (bindE (check_block_len (?s c)) check_block_crc)" for c
  proof (cases "err_in_event s")
    case True
    then have "kept err_in_event (bindE (check_block_len (?s c)) check_block_crc)"
      by (intro kept_bindE checks_err) simp_all
    then show ?thesis by (auto simp: kept_def clean_simps elim: wpE_mono)
  next
    case False
    with assms obtain K l fs where k: "flags (ev s) = K @ [(l, fs)]" "blk_p s = Some (length K)" "\<forall>b\<in>set K. ok_block b"
      "\<forall>f\<in>set fs. f = ok_flags"
      by (auto simp: clean_simps cards_closed_def elim!: last_currentE)
    let ?P = "\<lambda>t. err_in_event t \<or> (flags (ev t) = K @ [((Some False, snd l), fs)] \<and> blk_p t = Some (length K))"
    have len: "kept ?P (check_block_len (?s c))"
      using k by (cases l) (auto simp: check_block_len_def set_err_in_event_def kept_def wp flag_laws split: option.split)
    have crc: "kept (clean 10) (check_block_crc t)" if t: "?P t" for t
    proof (cases "err_in_event t")
      case True
      from checks_err(2) [OF this] show ?thesis by (auto simp: kept_def clean_simps elim: wpE_mono)
    next
      case False
      with t have f: "flags (ev t) = K @ [((Some False, snd l), fs)]" "blk_p t = Some (length K)" by auto
      let ?Q = "\<lambda>u. err_in_event u \<or> flags (ev u) = K @ [((Some False, Some False), fs)]"
      have "kept ?Q (read_triggerinfo f u)" if "?Q u" for u f
        using that err_frame.kept_read_triggerinfo [of u f]
          flags_frame.kept_read_triggerinfo [of u "(flags (ev u), blk_p u, fee_p u)" f]
        by (cases "err_in_event u") (auto simp: kept_def elim!: wpE_mono)
      then have trig: "wpE (\<lambda>_. True) ?Q (case fees of [] \<Rightarrow> Inr u | fee # _ \<Rightarrow> read_triggerinfo fee u)" if "?Q u" for u fees
        using trig_fees [of ?Q u fees] that by (auto simp: kept_def)
      have fin: "wpE (\<lambda>_. True) (\<lambda>u. \<not> err_in_event u \<longrightarrow> (\<forall>b\<in>set (butlast (flags (ev u))). ok_block b)) r"
        if "wpE (\<lambda>_. True) ?Q r" for r
        by (rule wpE_mono [OF that]) (use k(3) in auto)
      have "ok_block ((Some False, Some False), fs)" using k(4) by (simp add: ok_block_def)
      with f k(3) show ?thesis
        by (auto simp: check_block_crc_def set_err_in_event_def block_RemoveLast_def kept_def wp flag_laws flags_RemoveLast clean_simps(12) Let_def
            split: option.split intro!: fin trig)
    qed
    show ?thesis using len unfolding kept_def wpE_bindE by (rule wpE_mono) (use crc in \<open>simp add: kept_def\<close>)
  qed
  then show ?thesis
    by (auto simp: trans16_def Let_def kept_def wp modify_def split: option.split)
qed

subsection \<open>A run\<close>

lemma card_open_cong:
  "card_open s \<Longrightarrow> flags (ev t) = flags (ev s) \<Longrightarrow> blk_p t = blk_p s \<Longrightarrow> fee_p t = fee_p s \<Longrightarrow> card_open t"
  by (simp add: card_open_def last_current_def)

lemma clean_state_id [simp]: "clean k (s\<lparr>state_id := j\<rparr>) = clean k s" "clean k (s\<lparr>event_index := i\<rparr>) = clean k s"
  by (simp_all add: clean_def cards_closed_def card_open_def last_current_def)

lemma data_transitions_clean:
  assumes "run_transition k r s = Inr (r', u)" "k \<in> {4, 5, 6, 7, 8, 9, 10, 11}" "trans_from k (state_id s)"
    "clean (state_id s) s"
  shows "clean (state_id u) u"
proof -
  let ?P = "\<lambda>t. err_in_event t \<or> (flags (ev t), blk_p t, fee_p t) = (flags (ev s), blk_p s, fee_p s)"
  have "?P u"
    by (rule flags_frame.run_data_kept [OF assms(1)]) (use assms(2) in auto)
  moreover from assms(2) have "state_id u \<in> {2, 3, 4, 5, 6}" 
    using run_transition_state [OF assms(1)] by (auto simp: target_def)
  moreover from assms(2,3) have "state_id s \<in> {2, 3, 4, 5}" by (simp add: trans_from_def) (elim disjE; simp)
  with assms(4) have "\<not> err_in_event s \<longrightarrow> card_open s" by (auto simp: clean_simps)
  moreover have "err_in_event s \<Longrightarrow> err_in_event u"
    by (rule err_frame.run_data_kept [OF assms(1)]) (use assms(2) in auto)
  ultimately show ?thesis
    using card_open_cong [of s u] by (auto simp: clean_simps)
qed

lemma run_transition_clean:
  assumes "run_transition k r s = Inr (r', u)" "k \<noteq> 18" "trans_from k (state_id s)" "clean (state_id s) s"
  shows "clean (state_id u) u"
proof -
  from assms(3) have "k \<le> 18" by (simp add: trans_from_def)
  have run: "kept (clean j) v \<Longrightarrow> bindE (bindE v (seqE [goto j])) (\<lambda>t. Inr (q, t)) = Inr (r', u) \<Longrightarrow> clean (state_id u) u"
    for v j q by (cases v) (auto simp: goto_def modify_def kept_def wp)
  have from_state: "state_id s = j \<Longrightarrow> clean j s" for j using assms(4) by simp
  note closing = trans02_clean trans03_clean trans12_clean trans13_clean trans14_clean trans15_clean trans16_clean trans17_clean
  note runs = closing [THEN run]
  show ?thesis
  proof (cases "k \<in> {4, 5, 6, 7, 8, 9, 10, 11}")
    case True
    then show ?thesis using data_transitions_clean assms by blast
  next
    case False
    with trans_number_cases [OF \<open>k \<le> 18\<close>] assms(2)
    have "k = 0 \<or> k = 1 \<or> k = 2 \<or> k = 3 \<or> k = 12 \<or> k = 13 \<or> k = 14 \<or> k = 15 \<or> k = 16 \<or> k = 17" by auto
    moreover have "k = 0 \<Longrightarrow> ?thesis"
      using assms(1) by (auto simp: run_transition_def trans_invalid_def goto_def on_report_def modify_def clean_simps flags_def new_FzEvent_def)
    moreover have "k = 1 \<Longrightarrow> ?thesis"
      using assms(1,4) by (simp add: run_transition_def skip_def)
    ultimately show ?thesis
      using assms(3) runs [OF from_state] assms(1)
      by (elim disjE) (simp_all add: run_transition_def trans_from_def)
  qed
qed

lemma trans18_good:
  assumes "run_transition 18 r s = Inr (r', u)" "state_id s = 10" "clean 10 s"
  shows "fr_events_good (fsm_report u) = fr_events_good (fsm_report s) \<or> (\<forall>b\<in>set (flags (ev u)). ok_block b)"
proof -
  have "kept (\<lambda>u. fr_events_good (fsm_report u) = fr_events_good (fsm_report s) \<or> (\<forall>b\<in>set (flags (ev u)). ok_block b)) (trans18 s)"
  proof (cases "err_in_event s")
    case True
    then show ?thesis by (auto simp: trans18_def on_report_def kept_def wp split: option.split)
  next
    case False
    have e: "flags (e_regid_update f e) = flags e" for f e by (simp add: flags_def)
    from False assms(3) have "\<forall>b\<in>set (flags (ev s)). ok_block b" by (simp add: clean_simps)
    then show ?thesis using False by (simp add: trans18_def on_report_def kept_def wp e split: option.split)
  qed
  with assms(1) show ?thesis
    by (auto simp: run_transition_def bindE_Inr_iff goto_def modify_def kept_def wp)
qed

text \<open>
  \<open>I\<close> holds as long as the event is being built, \<open>F\<close> when its register word closed it. If
  only the last word can be a register word, one of them holds at the end.
\<close>

locale register_last =
  fixes I F :: "nat \<times> fsm \<Rightarrow> bool"
  assumes builds: "run_transition k r s = Inr (r', u) \<Longrightarrow> k \<noteq> 18 \<Longrightarrow> trans_from k (state_id s) \<Longrightarrow>
      state_id s \<le> 10 \<Longrightarrow> I (r, s) \<Longrightarrow> I (r', u)"
    and closes: "run_transition 18 r s = Inr (r', u) \<Longrightarrow> state_id s = 10 \<Longrightarrow> I (r, s) \<Longrightarrow> F (r', u)"
    and index: "I (r, s\<lparr>event_index := i\<rparr>) = I (r, s)" "F (r, s\<lparr>event_index := i\<rparr>) = F (r, s)"
begin

definition so_far :: "u16 list \<Rightarrow> nat \<times> fsm \<Rightarrow> bool" where
  "so_far w rs \<longleftrightarrow> event (snd rs) = w \<and> good (evformat (snd rs)) (snd rs) \<and>
     (I rs \<or> length w \<le> event_index (snd rs) \<and> F rs)"

lemma process_step_so_far:
  assumes "so_far w (r, s)" "process_step (r, s) = Inr (r', t)" "\<forall>x\<in>set (butlast w). getword_id x \<noteq> 12"
  shows "so_far w (r', t)"
proof -
  from process_stepD [OF assms(2)] obtain x where i: "x = event s ! event_index s" "event_index s < length (event s)"
    and x: "if getword_id x = 8 then r' = r \<and> t = s\<lparr>event_index := event_index s + 1\<rparr>
     else \<exists>u. run_transition (ttable ! getword_id x ! state_id s) r s = Inr (r', u) \<and>
       t = u\<lparr>event_index := event_index u + 1\<rparr>" by blast
  from assms(1) i have w: "event s = w" and g: "good (evformat s) s" and c: "I (r, s)"
    by (auto simp: so_far_def)
  have k: "state_id s \<le> 10" using g by (simp add: good_def)
  from process_step_good [of "evformat s" "(r, s)"] g assms(2) have "good (evformat s) t" by (simp add: wp)
  then have g': "good (evformat t) t" by (simp add: good_def fit_def)
  show ?thesis
  proof (cases "getword_id x = 8")
    case True
    with x w g c show ?thesis by (simp add: so_far_def index)
  next
    case False
    let ?k = "ttable ! getword_id x ! state_id s"
    from False x obtain u where u: "run_transition ?k r s = Inr (r', u)" "t = u\<lparr>event_index := event_index u + 1\<rparr>" by auto
    note from_k = ttable_from [OF getword_id_less k, of x]
    have ev: "event u = w" using run_transition_input [OF u(1)] w by simp
    show ?thesis
    proof (cases "?k = 18")
      case True
      from ttable_18 [OF getword_id_less k True] have "getword_id x = 12" .
      with assms(3) i w have "\<not> event_index s < length w - 1"
        by (metis length_butlast nth_butlast nth_mem)
      moreover from run_transition_index [OF u(1)] True have "event_index u = event_index s" by simp
      moreover from True from_k have "state_id s = 10" by (simp add: trans_from_def)
      ultimately show ?thesis
        using closes [of r s r' u] u True c g' ev by (auto simp: so_far_def index)
    next
      case False
      with builds [OF u(1) False from_k k c] u(2) ev g' show ?thesis by (simp add: so_far_def index)
    qed
  qed
qed

lemma loop_result:
  assumes "process_loop rs = Some (Inr rs')" "so_far w rs" "\<forall>x\<in>set (butlast w). getword_id x \<noteq> 12"
  shows "I rs' \<or> F rs'"
proof -
  have "wpE (\<lambda>_. True) (so_far w) y" if "process_loop rs = Some y" "so_far w rs" for rs y
    using that
  proof (induction rule: process_loop_induct)
    case (step rs rs' y)
    then show ?case
      using process_step_so_far [of w "fst rs" "snd rs" "fst rs'" "snd rs'"] assms(3) by simp
  qed (simp_all add: wp)
  from this [OF assms(1,2)] show ?thesis by (auto simp: wp so_far_def)
qed

lemma process_result:
  assumes "fsm_process (fsm_import w s) = Some (Inr (r, t))" "\<forall>x\<in>set (butlast w). getword_id x \<noteq> 12"
    and "\<And>rep. fr_events_good rep = fr_events_good (fsm_report s) \<Longrightarrow>
      I (PARSE_FAIL, (fsm_import w s)\<lparr>event_index := 0, fsm_report := rep\<rparr>)"
  shows "\<exists>u. (I (r, u) \<or> F (r, u)) \<and> ev t = ev u \<and> fr_events_good (fsm_report t) = fr_events_good (fsm_report u)"
proof -
  let ?s = "(fsm_import w s)\<lparr>event_index := 0, fsm_report := (fsm_report (fsm_import w s))\<lparr>
      fr_in_events := fr_in_events (fsm_report (fsm_import w s)) + 1,
      fr_in_bytes := fr_in_bytes (fsm_report (fsm_import w s)) + event_bytes (fsm_import w s)\<rparr>\<rparr>"
  from fsm_process_Inr [OF assms(1)] obtain u where u: "process_loop (PARSE_FAIL, ?s) = Some (Inr (r, u))"
    and t: "t = u\<lparr>fsm_report := (fsm_report u)\<lparr>fr_out_events := fr_out_events (fsm_report u) + 1,
            fr_out_bytes := fr_out_bytes (fsm_report u) + event_bytes u\<rparr>\<rparr>" by blast
  have "so_far w (PARSE_FAIL, ?s)"
    using assms(3) by (simp add: so_far_def fsm_import_def good_def fit_simps)
  from loop_result [OF u this assms(2)] t show ?thesis by (intro exI [of _ u]) simp
qed

end

interpretation good_run: register_last
  "\<lambda>(r, s). fr_events_good (fsm_report s) = g \<and> clean (state_id s) s"
  "\<lambda>(r, s). fr_events_good (fsm_report s) = g \<or> (\<forall>b\<in>set (flags (ev s)). ok_block b)" for g
proof (unfold_locales, goal_cases)
  case (1 k r s r' u)
  then show ?case
    using run_transition_clean [of k r s r' u] run_transition_outcome [of k r s r' u] by (auto simp: outcome_def)
next
  case (2 r s r' u)
  then show ?case using trans18_good [of r s r' u] by auto
qed simp_all

lemma good_event_clean:
  assumes "\<forall>x\<in>set (butlast w). getword_id x \<noteq> 12"
    and "fsm_process (fsm_import w s) = Some (Inr (r, t))"
    and "fr_events_good (fsm_report t) \<noteq> fr_events_good (fsm_report s)"
    and "b \<in> set (e_block (ev t))"
  shows "b_len_error b = Some False \<and> b_crc_error b = Some False \<and>
    (\<forall>f\<in>set (b_fee b). f_len_error f = Some False \<and> f_crc_error f = Some False)"
proof -
  from good_run.process_result [OF assms(2,1), of "fr_events_good (fsm_report s)"] assms(3,4)
  have "ok_block (blk_flags b)"
    by (auto simp: fsm_import_def clean_simps flags_def new_FzEvent_def)
  then show ?thesis by (simp add: ok_block_def blk_flags_def fee_flags_def)
qed

text \<open>
  C7. What the report counts as a good event is free of transmission errors: if the words
  end with their only register word, as the reader cuts them, and the counter of good
  events moved, then every block left in the message has its length and checksum flags
  cleared, and so has every front-end card in it.
\<close>

theorem good_event_has_no_errors:
  assumes "\<forall>x\<in>set (butlast w). getword_id x \<noteq> 12"
    and "fsm_process (fsm_import w s) = Some (Inr (r, t))"
    and "fr_events_good (fsm_report t) \<noteq> fr_events_good (fsm_report s)"
    and "b \<in> set (e_block (ev t))"
  shows "b_len_error b = Some False \<and> b_crc_error b = Some False \<and>
    (\<forall>f\<in>set (b_fee b). f_len_error f = Some False \<and> f_crc_error f = Some False)"
  using assms by (rule good_event_clean)

lemma good_event_has_no_errors_witness:
  "\<exists>t b. fsm_process (fsm_import one_block_event (fsm_init FMT_TAG fsm_zero)) = Some (Inr (PARSE_OK, t)) \<and>
     b \<in> set (e_block (ev t)) \<and> b_blkid b = Some 3 \<and> b_len_error b = Some False \<and> b_crc_error b = Some False"
proof -
  let ?s = "fsm_init FMT_TAG fsm_zero"
  from one_block_event_run obtain t where t: "fsm_process (fsm_import one_block_event ?s) = Some (Inr (PARSE_OK, t))"
    "fr_events_good (fsm_report t) = 1" "map b_blkid (e_block (ev t)) = [Some 3]"
    by (auto split: option.splits sum.splits)
  from t(3) obtain b where b: "b \<in> set (e_block (ev t))" "b_blkid b = Some 3" by (cases "e_block (ev t)") auto
  have "\<forall>x\<in>set (butlast one_block_event). getword_id x \<noteq> 12" by code_simp
  moreover have "fr_events_good (fsm_report ?s) = 0" by code_simp
  ultimately have "b_len_error b = Some False \<and> b_crc_error b = Some False"
    using good_event_has_no_errors [OF _ t(1) _ b(1)] t(2) by simp
  with t(1) b show ?thesis by blast
qed

end
