(* ===== verification/FzFSM_Fields.thy ===== *)
theory FzFSM_Fields
  imports FzFSM_Clean
begin

section \<open>Which required fields an event has\<close>

text \<open>
  The schema has required fields in every message. \<open>fields\<close> says which of them the event under construction
  has: everywhere all but the detector tag and the pretrigger, except in the block, the hit
  and the datum being opened. Every transition keeps it, and the locale \<open>register_last\<close>
  carries it over a run.
\<close>

subsection \<open>Reading an object above the level of an operation\<close>

lemma get_above_fee:
  "get_blk (upd_fee p f e) b = map_option (\<lambda>x. if b = fst p then b_fee_update (upd_at (snd p) f) x else x) (get_blk e b)"
  "get_blk (add_fee c x e) b = map_option (\<lambda>y. if b = c then b_fee_update (\<lambda>xs. xs @ [x]) y else y) (get_blk e b)"
  by (cases p; cases "get_blk e b"; simp add: upd_fee.simps add_fee_def tree)+

lemma get_above_hit:
  "get_fee (upd_hit p f e) q = map_option (\<lambda>x. if q = fst p then f_hit_update (upd_at (snd p) f) x else x) (get_fee e q)"
  "get_fee (add_hit r x e) q = map_option (\<lambda>y. if q = r then f_hit_update (\<lambda>xs. xs @ [x]) y else y) (get_fee e q)"
  by (cases p; cases "get_fee e q"; simp add: upd_hit.simps add_hit_def tree)+

lemma get_above_data:
  "get_hit (upd_data p f e) q = map_option (\<lambda>x. if q = fst p then h_data_update (upd_at (snd p) f) x else x) (get_hit e q)"
  "get_hit (add_data r x e) q = map_option (\<lambda>y. if q = r then h_data_update (\<lambda>xs. xs @ [x]) y else y) (get_hit e q)"
  by (cases p; cases "get_hit e q"; simp add: upd_data.simps add_data_def tree)+

subsection \<open>The objects of one level\<close>

text \<open>What is always set in an object, \<open>_set\<close>, and a predicate on all objects of a level with their paths.\<close>

definition blk_set :: "FzBlock \<Rightarrow> bool" where
  "blk_set b \<longleftrightarrow> b_len_error b \<noteq> None \<and> b_crc_error b \<noteq> None"

definition fee_set :: "FzFee \<Rightarrow> bool" where
  "fee_set f \<longleftrightarrow> opt_ex (\<lambda>i. i \<le> ADCF) (f_feeid f) \<and> f_len_error f \<noteq> None \<and> f_crc_error f \<noteq> None"

definition hit_set :: "FzHit \<Rightarrow> bool" where
  "hit_set h \<longleftrightarrow> h_ec h \<noteq> None \<and> opt_ex (\<lambda>i. i \<le> Tel_B) (h_telid h) \<and> opt_ex (\<lambda>i. i \<le> ADCF) (h_feeid h)"

definition wf_set :: "Waveform \<Rightarrow> bool" where
  "wf_set w \<longleftrightarrow> wf_len_error w \<noteq> None"

definition data_set :: "FzData \<Rightarrow> bool" where
  "data_set d \<longleftrightarrow> opt_all init_Energy (d_energy d) \<and>
     opt_all wf_set (d_waveform d)"

definition all_blk :: "(blk_path \<Rightarrow> FzBlock \<Rightarrow> bool) \<Rightarrow> FzEvent \<Rightarrow> bool" where
  "all_blk P e \<longleftrightarrow> (\<forall>p x. get_blk e p = Some x \<longrightarrow> P p x)"

definition all_fee :: "(fee_path \<Rightarrow> FzFee \<Rightarrow> bool) \<Rightarrow> FzEvent \<Rightarrow> bool" where
  "all_fee P e \<longleftrightarrow> (\<forall>p x. get_fee e p = Some x \<longrightarrow> P p x)"

definition all_hit :: "(hit_path \<Rightarrow> FzHit \<Rightarrow> bool) \<Rightarrow> FzEvent \<Rightarrow> bool" where
  "all_hit P e \<longleftrightarrow> (\<forall>p x. get_hit e p = Some x \<longrightarrow> P p x)"

definition all_data :: "(data_path \<Rightarrow> FzData \<Rightarrow> bool) \<Rightarrow> FzEvent \<Rightarrow> bool" where
  "all_data P e \<longleftrightarrow> (\<forall>p x. get_data e p = Some x \<longrightarrow> P p x)"

named_theorems alls \<open>a predicate on all objects of a level after an operation\<close>

lemma all_blk_upd [alls]: "all_blk P (upd_blk p f e) = all_blk (\<lambda>q x. P q (if q = p then f x else x)) e"
  by (auto simp: all_blk_def tree)

lemma all_blk_add [alls]: "all_blk P (add_block x e) = (all_blk P e \<and> P (length (e_block e)) x)"
  by (auto simp: all_blk_def tree)

lemma all_fee_upd [alls]: "all_fee P (upd_fee p f e) = all_fee (\<lambda>q x. P q (if q = p then f x else x)) e"
  by (auto simp: all_fee_def tree)

lemma all_hit_upd [alls]: "all_hit P (upd_hit p f e) = all_hit (\<lambda>q x. P q (if q = p then f x else x)) e"
  by (auto simp: all_hit_def tree)

lemma all_data_upd [alls]: "all_data P (upd_data p f e) = all_data (\<lambda>q x. P q (if q = p then f x else x)) e"
  by (auto simp: all_data_def tree)

lemma all_fee_add [alls]:
  assumes "get_blk e b = Some y"
  shows "all_fee P (add_fee b x e) = (all_fee P e \<and> P (b, length (b_fee y)) x)"
proof -
  have n: "get_fee e (b, length (b_fee y)) = None"
    using assms by (simp add: get_fee.simps nth_opt_def)
  have "get_fee (add_fee b x e) q = (if q = (b, length (b_fee y)) then Some x else get_fee e q)" for q
    using assms by (cases q) (auto simp: tree)
  with n show ?thesis by (auto simp: all_fee_def)
qed

lemma all_hit_add [alls]:
  assumes "get_fee e b = Some y"
  shows "all_hit P (add_hit b x e) = (all_hit P e \<and> P (b, length (f_hit y)) x)"
proof -
  have n: "get_hit e (b, length (f_hit y)) = None"
    using assms by (simp add: get_hit.simps nth_opt_def)
  have "get_hit (add_hit b x e) q = (if q = (b, length (f_hit y)) then Some x else get_hit e q)" for q
    using assms by (cases q) (auto simp: tree)
  with n show ?thesis by (auto simp: all_hit_def)
qed

lemma all_data_add [alls]:
  assumes "get_hit e b = Some y"
  shows "all_data P (add_data b x e) = (all_data P e \<and> P (b, length (h_data y)) x)"
proof -
  have n: "get_data e (b, length (h_data y)) = None"
    using assms by (simp add: get_data.simps nth_opt_def)
  have "get_data (add_data b x e) q = (if q = (b, length (h_data y)) then Some x else get_data e q)" for q
    using assms by (cases q) (auto simp: tree)
  with n show ?thesis by (auto simp: all_data_def)
qed

lemma all_below [alls]:
  "(\<And>x. b_fee (f1 x) = b_fee x) \<Longrightarrow> all_fee Pf (upd_blk b f1 e) = all_fee Pf e"
  "(\<And>x. b_fee (f1 x) = b_fee x) \<Longrightarrow> all_hit Ph (upd_blk b f1 e) = all_hit Ph e"
  "(\<And>x. b_fee (f1 x) = b_fee x) \<Longrightarrow> all_data Pd (upd_blk b f1 e) = all_data Pd e"
  "(\<And>x. f_hit (f2 x) = f_hit x) \<Longrightarrow> all_hit Ph (upd_fee c f2 e) = all_hit Ph e"
  "(\<And>x. f_hit (f2 x) = f_hit x) \<Longrightarrow> all_data Pd (upd_fee c f2 e) = all_data Pd e"
  "(\<And>x. h_data (f3 x) = h_data x) \<Longrightarrow> all_data Pd (upd_hit d f3 e) = all_data Pd e"
  "b_fee x1 = [] \<Longrightarrow> all_fee Pf (add_block x1 e) = all_fee Pf e"
  "b_fee x1 = [] \<Longrightarrow> all_hit Ph (add_block x1 e) = all_hit Ph e"
  "b_fee x1 = [] \<Longrightarrow> all_data Pd (add_block x1 e) = all_data Pd e"
  "get_blk e b = Some y1 \<Longrightarrow> f_hit x2 = [] \<Longrightarrow> all_hit Ph (add_fee b x2 e) = all_hit Ph e"
  "get_blk e b = Some y1 \<Longrightarrow> f_hit x2 = [] \<Longrightarrow> all_data Pd (add_fee b x2 e) = all_data Pd e"
  "get_fee e c = Some y2 \<Longrightarrow> h_data x3 = [] \<Longrightarrow> all_data Pd (add_hit c x3 e) = all_data Pd e"
  by (simp_all add: all_fee_def all_hit_def all_data_def tree)

lemma all_mono:
  "all_blk P e \<Longrightarrow> (\<And>q x. P q x \<Longrightarrow> P' q x) \<Longrightarrow> all_blk P' e"
  "all_fee Q e \<Longrightarrow> (\<And>q x. Q q x \<Longrightarrow> Q' q x) \<Longrightarrow> all_fee Q' e"
  "all_hit R e \<Longrightarrow> (\<And>q x. R q x \<Longrightarrow> R' q x) \<Longrightarrow> all_hit R' e"
  "all_data S e \<Longrightarrow> (\<And>q x. S q x \<Longrightarrow> S' q x) \<Longrightarrow> all_data S' e"
  by (auto simp: all_blk_def all_fee_def all_hit_def all_data_def)

subsection \<open>The fields of the event under construction\<close>

text \<open>The object \<open>c\<close>, which is being opened, may lack the field its flag stands for.\<close>

definition blk_ok :: "bool \<Rightarrow> blk_path option \<Rightarrow> blk_path \<Rightarrow> FzBlock \<Rightarrow> bool" where
  "blk_ok n c p b \<longleftrightarrow> blk_set b \<and> (b_blkid b \<noteq> None \<or> n \<and> c = Some p)"

definition hit_ok :: "bool \<Rightarrow> bool \<Rightarrow> hit_path option \<Rightarrow> hit_path \<Rightarrow> FzHit \<Rightarrow> bool" where
  "hit_ok g d c p h \<longleftrightarrow> hit_set h \<and> (h_gttag h \<noteq> None \<or> g \<and> c = Some p) \<and> (h_detid h \<noteq> None \<or> d \<and> c = Some p)"

lemma only_at: "(\<And>q x. P q (f x) = P q x) \<Longrightarrow> (\<lambda>q x. P q (if q = b then f x else x)) = P"
  by (auto simp: fun_eq_iff)

lemma all_blk_up: "(\<And>q x g. P q (b_fee_update g x) = P q x) \<Longrightarrow>
  all_blk P (upd_fee p f e) = all_blk P e"
  "(\<And>q x g. P q (b_fee_update g x) = P q x) \<Longrightarrow> all_blk P (upd_hit r f3 e) = all_blk P e"
  "(\<And>q x g. P q (b_fee_update g x) = P q x) \<Longrightarrow> all_blk P (upd_data d f4 e) = all_blk P e"
  "(\<And>q x g. P q (b_fee_update g x) = P q x) \<Longrightarrow> all_blk P (add_fee b x1 e) = all_blk P e"
  "(\<And>q x g. P q (b_fee_update g x) = P q x) \<Longrightarrow> all_blk P (add_hit p x2 e) = all_blk P e"
  "(\<And>q x g. P q (b_fee_update g x) = P q x) \<Longrightarrow> all_blk P (add_data r x3 e) = all_blk P e"
proof -
  assume a: "\<And>q x g. P q (b_fee_update g x) = P q x"
  have b: "all_blk P (upd_blk b (b_fee_update g) e) = all_blk P e" for b g
    by (simp add: all_blk_upd only_at [of P "b_fee_update g", OF a])
  show f: "all_blk P (upd_fee p f e) = all_blk P e" for p f by (cases p) (simp add: upd_fee.simps b)
  show h: "all_blk P (upd_hit r f3 e) = all_blk P e" for r f3 by (cases r) (simp add: upd_hit.simps f)
  show d: "all_blk P (upd_data d f4 e) = all_blk P e" for d f4 by (cases d) (simp add: upd_data.simps h)
  show "all_blk P (add_fee b x1 e) = all_blk P e" by (simp add: add_fee_def b)
  show "all_blk P (add_hit p x2 e) = all_blk P e" by (simp add: add_hit_def f)
  show "all_blk P (add_data r x3 e) = all_blk P e" by (simp add: add_data_def h)
qed

lemma all_fee_up:
  "(\<And>q x g. P q (f_hit_update g x) = P q x) \<Longrightarrow> all_fee P (upd_hit r f3 e) = all_fee P e"
  "(\<And>q x g. P q (f_hit_update g x) = P q x) \<Longrightarrow> all_fee P (upd_data d f4 e) = all_fee P e"
  "(\<And>q x g. P q (f_hit_update g x) = P q x) \<Longrightarrow> all_fee P (add_hit p x2 e) = all_fee P e"
  "(\<And>q x g. P q (f_hit_update g x) = P q x) \<Longrightarrow> all_fee P (add_data r x3 e) = all_fee P e"
proof -
  assume a: "\<And>q x g. P q (f_hit_update g x) = P q x"
  have f: "all_fee P (upd_fee b (f_hit_update g) e) = all_fee P e" for b g
    by (simp add: all_fee_upd only_at [of P "f_hit_update g", OF a])
  show h: "all_fee P (upd_hit r f3 e) = all_fee P e" for r f3 by (cases r) (simp add: upd_hit.simps f)
  show d: "all_fee P (upd_data d f4 e) = all_fee P e" for d f4 by (cases d) (simp add: upd_data.simps h)
  show "all_fee P (add_hit p x2 e) = all_fee P e" by (simp add: add_hit_def f)
  show "all_fee P (add_data r x3 e) = all_fee P e" by (simp add: add_data_def h)
qed

lemma all_hit_up:
  "(\<And>q x g. P q (h_data_update g x) = P q x) \<Longrightarrow> all_hit P (upd_data d f4 e) = all_hit P e"
  "(\<And>q x g. P q (h_data_update g x) = P q x) \<Longrightarrow> all_hit P (add_data r x3 e) = all_hit P e"
proof -
  assume a: "\<And>q x g. P q (h_data_update g x) = P q x"
  have h: "all_hit P (upd_hit b (h_data_update g) e) = all_hit P e" for b g
    by (simp add: all_hit_upd only_at [of P "h_data_update g", OF a])
  show d: "all_hit P (upd_data d f4 e) = all_hit P e" for d f4 by (cases d) (simp add: upd_data.simps h)
  show "all_hit P (add_data r x3 e) = all_hit P e" by (simp add: add_data_def h)
qed

lemma sets_up [simp]:
  "blk_ok n c q (b_fee_update g1 b) = blk_ok n c q b" "fee_set (f_hit_update g2 f) = fee_set f"
  "hit_ok g d c' r (h_data_update g3 h) = hit_ok g d c' r h"
  by (simp_all add: blk_ok_def blk_set_def fee_set_def hit_ok_def hit_set_def)

definition datum_ok :: "bool \<Rightarrow> data_path option \<Rightarrow> data_path \<Rightarrow> FzData \<Rightarrow> bool" where
  "datum_ok m c p x \<longleftrightarrow> data_set x \<and> (d_type x \<noteq> None \<or> m \<and> c = Some p)"

definition fields :: "bool \<Rightarrow> bool \<Rightarrow> bool \<Rightarrow> bool \<Rightarrow> bool \<Rightarrow> fsm \<Rightarrow> bool" where
  "fields k n g d m s \<longleftrightarrow> (k \<longrightarrow> e_ec (ev s) \<noteq> None) \<and> all_blk (blk_ok n (blk_p s)) (ev s) \<and> all_fee (\<lambda>_. fee_set) (ev s) \<and>
     all_hit (hit_ok g d (hit_p s)) (ev s) \<and> all_data (datum_ok m (d_p s)) (ev s) \<and>
     list_all init_FzTrigInfo (e_trinfo (ev s))"

lemmas all_up = all_blk_up all_fee_up all_hit_up

lemma fields_top [simp]:
  "all_blk Pb (e_ec_update f1 e) = all_blk Pb e" "all_blk Pb (e_regid_update f2 e) = all_blk Pb e" "all_blk Pb (e_trinfo_update f3 e) = all_blk Pb e"
  "all_fee Pf (e_ec_update f1 e) = all_fee Pf e" "all_fee Pf (e_regid_update f2 e) = all_fee Pf e" "all_fee Pf (e_trinfo_update f3 e) = all_fee Pf e"
  "all_hit Ph (e_ec_update f1 e) = all_hit Ph e" "all_hit Ph (e_regid_update f2 e) = all_hit Ph e" "all_hit Ph (e_trinfo_update f3 e) = all_hit Ph e"
  "all_data Pd (e_ec_update f1 e) = all_data Pd e" "all_data Pd (e_regid_update f2 e) = all_data Pd e" "all_data Pd (e_trinfo_update f3 e) = all_data Pd e"
  by (simp_all add: all_blk_def all_fee_def all_hit_def all_data_def get_same_blocks [of "e_ec_update f1 e" e] get_same_blocks [of "e_regid_update f2 e" e] get_same_blocks [of "e_trinfo_update f3 e" e])

lemma top_upd [simp]:
  "e_trinfo (upd_blk p1 f1 e) = e_trinfo e" "e_trinfo (upd_fee p2 f2 e) = e_trinfo e"
  "e_trinfo (upd_hit p3 f3 e) = e_trinfo e" "e_trinfo (upd_data p4 f4 e) = e_trinfo e"
  "e_trinfo (add_block x1 e) = e_trinfo e" "e_trinfo (add_fee p1 x2 e) = e_trinfo e"
  "e_trinfo (add_hit p2 x3 e) = e_trinfo e" "e_trinfo (add_data p3 x4 e) = e_trinfo e"
  by (cases p2, cases p3, cases "fst p3", cases p4, cases "fst p4", cases "fst (fst p4)",
    simp add: upd_blk_def upd_fee.simps upd_hit.simps upd_data.simps add_block_def add_fee_def add_hit_def add_data_def)+

lemma top_upd_ec [simp]:
  "e_ec (upd_blk p1 f1 e) = e_ec e" "e_ec (upd_fee p2 f2 e) = e_ec e"
  "e_ec (upd_hit p3 f3 e) = e_ec e" "e_ec (upd_data p4 f4 e) = e_ec e"
  "e_ec (add_block x1 e) = e_ec e" "e_ec (add_fee p1 x2 e) = e_ec e"
  "e_ec (add_hit p2 x3 e) = e_ec e" "e_ec (add_data p3 x4 e) = e_ec e"
  by (cases p2, cases p3, cases "fst p3", cases p4, cases "fst p4", cases "fst (fst p4)",
    simp add: upd_blk_def upd_fee.simps upd_hit.simps upd_data.simps add_block_def add_fee_def add_hit_def add_data_def)+

subsection \<open>Opening and closing\<close>

lemma trans02_fields: "fields k False False False False s \<Longrightarrow> kept (fields True True False False False) (trans02 s)"
  by (auto simp: trans02_def Let_def kept_def wp fields_def alls tree blk_ok_def blk_set_def elim!: all_mono split: option.split)

lemma trans17_fields: "fields True False False False False s \<Longrightarrow> kept (fields True True False False False) (trans17 s)"
  by (auto simp: trans17_def Let_def kept_def wp fields_def alls tree blk_ok_def blk_set_def elim!: all_mono split: option.split)

lemma trans14_fields: "fields True True False False False s \<Longrightarrow> kept (fields True False False False False) (trans14 s)"
  by (auto simp: trans14_def update_defs Let_def kept_def wp fields_def alls tree blk_ok_def blk_set_def elim!: all_mono split: option.split)

lemma valid_ids [simp]: "valid_telid t \<le> UNKT" "valid_telid (telid_of w) \<le> Tel_B" "valid_feeid (feeid_of w) \<le> ADCF"
proof -
  have "unat (w AND TELID_MASK) \<le> unat TELID_MASK" 
    by (rule word_le_nat_alt [THEN iffD1]) (rule word_and_le1)
  then show "valid_telid (telid_of w) \<le> Tel_B"
    by (auto simp: valid_telid_def telid_of_def mask_defs Tel_B_def Tel_A_def)
  have "w AND FEEID_MASK \<le> FEEID_MASK" by (rule word_and_le1)
  then have "unat (w AND FEEID_MASK) \<le> 30" by (simp add: word_le_nat_alt mask_defs)
  then have "feeid_of w \<le> 15"
    by (simp add: feeid_of_def drop_bit_eq_div unat_div)
  then show "valid_feeid (feeid_of w) \<le> ADCF"
    by (simp add: valid_feeid_def ADCF_def FEC0_def)
qed (auto simp: valid_telid_def Tel_B_def Tel_A_def UNKT_def)

lemma fields_scalar [simp]: 
  "fields k n g d m (s\<lparr>blklen := w1\<rparr>) = fields k n g d m s" "fields k n g d m (s\<lparr>blkcrc := w2\<rparr>) = fields k n g d m s"
  "fields k n g d m (s\<lparr>feelen := w1\<rparr>) = fields k n g d m s" "fields k n g d m (s\<lparr>feecrc := w2\<rparr>) = fields k n g d m s"
  "fields k n g d m (s\<lparr>dettag_done := b\<rparr>) = fields k n g d m s" 
  by (simp_all add: fields_def)

lemma trans04_fields: "fields True True True True False s \<Longrightarrow> kept (fields True True False True False) (trans04 s)"
  by (auto simp: trans04_def update_defs Let_def kept_def wp fields_def alls all_up tree hit_ok_def hit_set_def elim!: all_mono split: option.split)

lemma trans05_fields: "fields True True False True False s \<Longrightarrow> kept (fields True True False True False) (trans05 s)"
  by (auto simp: trans05_def update_defs Let_def kept_def wp fields_def alls all_up tree hit_ok_def hit_set_def elim!: all_mono split: option.split)

lemma trans12_fields: "fields True True False False False s \<Longrightarrow> kept (fields True True False False False) (trans12 s)"
  by (auto simp: trans12_def set_err_in_event_def update_defs Let_def kept_def wp fields_def alls all_up tree fee_set_def elim!: all_mono split: option.split)

lemma trans13_fields: "fields True True False False False s \<Longrightarrow> kept (fields True True False False False) (trans13 s)"
  by (auto simp: trans13_def update_defs Let_def kept_def wp fields_def alls all_up tree fee_set_def elim!: all_mono split: option.split)

lemma trans15_fields: "fields True False False False False s \<Longrightarrow> kept (fields True False False False False) (trans15 s)"
  by (auto simp: trans15_def update_defs Let_def kept_def wp fields_def alls all_up tree fee_set_def elim!: all_mono split: option.split)

lemma trans03_fields: "fields True True False False False s \<Longrightarrow> kept (fields True True True True False) (trans03 s)"
  by (auto simp: trans03_def update_defs Let_def kept_def wp fields_def alls all_up tree get_above_hit fee_set_def hit_ok_def hit_set_def elim!: all_mono split: option.split)

lemma kept_seq: "kept P (f s) \<Longrightarrow> (\<And>t. P t \<Longrightarrow> kept Q (seqE fs t)) \<Longrightarrow> kept Q (seqE (f # fs) s)"
  by (cases "f s") (simp_all add: kept_def wp)

lemma trans10_hit_fields: "fields True True False False False s \<Longrightarrow> kept (fields True True True True False) (trans10_hit w s)"
  by (auto simp: trans10_hit_def update_defs Let_def kept_def wp fields_def alls all_up tree get_above_hit hit_ok_def hit_set_def elim!: all_mono split: option.split)

lemma d_set_type_fields: "fields k n g d m s \<Longrightarrow> kept (fields k n g d False) (d_set_type t s)"
  by (auto simp: d_set_type_def kept_def wp fields_def alls all_up datum_ok_def data_set_def elim!: all_mono split: option.split)

subsection \<open>The statements of the data\<close>

named_theorems keeps \<open>statements that keep the fields of the event\<close>

lemma fields_on_d [keeps]:
  "fields k n g d m s \<Longrightarrow> (\<And>x. data_set x \<Longrightarrow> data_set (f x)) \<Longrightarrow> (\<And>x. d_type (f x) = d_type x) \<Longrightarrow>
   kept (fields k n g d m) (on_d f s)"
  by (auto simp: kept_def wp fields_def alls all_up datum_ok_def elim!: all_mono split: option.split)

lemma fields_on_en [keeps]:
  "fields k n g d m s \<Longrightarrow> (\<And>x. init_Energy x \<Longrightarrow> init_Energy (f x)) \<Longrightarrow> kept (fields k n g d m) (on_en f s)"
  by (auto simp: kept_def wp fields_def alls all_up datum_ok_def data_set_def opt_all_def elim!: all_mono split: option.splits)

lemma fields_on_wf [keeps]:
  "fields k n g d m s \<Longrightarrow> (\<And>x. wf_set x \<Longrightarrow> wf_set (f x)) \<Longrightarrow> kept (fields k n g d m) (on_wf f s)"
  by (auto simp: kept_def wp fields_def alls all_up datum_ok_def data_set_def opt_all_def elim!: all_mono split: option.splits)

lemma fields_begin [keeps]:
  assumes "fields k n g d m s"
  shows "kept (fields k n g d m) (wf_begin s)" "kept (fields k n g d m) (en_begin b s)"
  using assms
  by (auto simp: wf_begin_def en_begin_def wf_mutable_def en_mutable_def kept_def wp fields_def alls all_up datum_ok_def
      data_set_def mutable_waveform_def mutable_energy_def init_Energy_def wf_set_def opt_all_def get_or_def elim!: all_mono split: option.splits)

lemma fields_add_trinfo [keeps]: "fields k n g d m s \<Longrightarrow> kept (fields k n g d m) (ev_add_trinfo i a v s)"
  by (simp add: kept_def wp fields_def init_FzTrigInfo_def)

lemma fields_write_log [keeps]: "fields k n g d m s \<Longrightarrow> kept (fields k n g d m) (write_log l s)"
  by (simp add: kept_def wp fields_def)

lemma fields_more [simp]:
  "fields k n g d m (s\<lparr>tag := w\<rparr>) = fields k n g d m s" "fields k n g d m (s\<lparr>tag_done := b\<rparr>) = fields k n g d m s"
  "fields k n g d m (s\<lparr>energy1_done := b\<rparr>) = fields k n g d m s" "fields k n g d m (s\<lparr>energy2_done := b\<rparr>) = fields k n g d m s"
  "fields k n g d m (s\<lparr>pretrig_done := b\<rparr>) = fields k n g d m s" "fields k n g d m (s\<lparr>wflen_done := b\<rparr>) = fields k n g d m s"
  "fields k n g d m (s\<lparr>rd_wflen := w\<rparr>) = fields k n g d m s" "fields k n g d m (s\<lparr>rd_feelen := w\<rparr>) = fields k n g d m s"
  "fields k n g d m (s\<lparr>save_blkcrc := w\<rparr>) = fields k n g d m s" "fields k n g d m (s\<lparr>save_feecrc := w\<rparr>) = fields k n g d m s"
  "fields k n g d m (s\<lparr>event_index := i\<rparr>) = fields k n g d m s" "fields k n g d m (s\<lparr>err_in_event := b\<rparr>) = fields k n g d m s"
  "fields k n g d m (s\<lparr>rd_blkcrc := w\<rparr>) = fields k n g d m s" "fields k n g d m (s\<lparr>en_p := q\<rparr>) = fields k n g d m s"
  "fields k n g d m (s\<lparr>wf_p := q\<rparr>) = fields k n g d m s" "fields k n g d m (s\<lparr>state_id := i\<rparr>) = fields k n g d m s"
  "fields k n g d m (s\<lparr>fsm_report := r\<rparr>) = fields k n g d m s"  "fields k n g d m (s\<lparr>event_is_empty := b\<rparr>) = fields k n g d m s"
  by (simp_all add: fields_def)

lemma fields_update [keeps]: 
  "fields k n g d m s \<Longrightarrow> kept (fields k n g d m) (update_blk s)" "fields k n g d m s \<Longrightarrow> kept (fields k n g d m) (update_fee s)"
  unfolding update_defs by (intro keeps frame; simp)+

lemma fields_moves [keeps]:
  "fields k n g d m s \<Longrightarrow> kept (fields k n g d m) (step_back s)" "fields k n g d m s \<Longrightarrow> kept (fields k n g d m) (next_event_word s)"
  "fields k n g d m s \<Longrightarrow> kept (fields k n g d m) (restore_saved_crc s)" "fields k n g d m s \<Longrightarrow> kept (fields k n g d m) (set_err_in_event s)"
  "fields k n g d m s \<Longrightarrow> kept (fields k n g d m) (store_wflen s)"
  unfolding step_back_def next_event_word_def restore_saved_crc_def set_err_in_event_def store_wflen_def by (intro keeps frame; simp)+

lemma fields_values [keeps]:
  "fields k n g d m s \<Longrightarrow> kept (fields k n g d m) (en_add_value w s)" "fields k n g d m s \<Longrightarrow> kept (fields k n g d m) (wf_add_sample s)"
  "fields k n g d m s \<Longrightarrow> kept (fields k n g d m) (wf_set_pretrig s)"
  unfolding en_add_value_def wf_add_sample_def wf_set_pretrig_def by (intro keeps frame; simp add: init_Energy_def wf_set_def)+

lemma kept_map_value:
  assumes "\<And>v. kept P (on_en (\<lambda>e. e\<lparr>en_value := (en_value e)[i := v]\<rparr>) s)"
  shows "kept P (en_map_value i h s)"
proof -
  have "kept P (bindE (h v) (\<lambda>v'. on_en (\<lambda>e. e\<lparr>en_value := (en_value e)[i := v']\<rparr>) s))" for v
    by (cases "h v") (simp_all add: kept_Inl assms)
  then show ?thesis unfolding en_map_value_def by (intro kept_with kept_option kept_Inl)
qed

lemma fields_map_value [keeps]: "fields k n g d m s \<Longrightarrow> kept (fields k n g d m) (en_map_value i h s)"
  by (rule kept_map_value) (intro keeps; simp add: init_Energy_def)

lemma fields_low_word [keeps]: "fields k n g d m s \<Longrightarrow> kept (fields k n g d m) (en_low_word i s)"
  unfolding en_low_word_def by (intro keeps frame)

lemma fields_bodies [keeps]:
  "fields k n g d m s \<Longrightarrow> kept (fields k n g d m) (sample_body s)" "fields k n g d m s \<Longrightarrow> kept (fields k n g d m) (tag_sample_body s)"
  unfolding sample_body_def tag_sample_body_def by (intro keeps frame; simp)+

lemma fields_loops [keeps]:
  "fields k n g d m s \<Longrightarrow> kept (fields k n g d m) (wflen_loop l s)" "fields k n g d m s \<Longrightarrow> kept (fields k n g d m) (tag_sample_loop l s)"
  by (induction l arbitrary: s) (auto simp: kept_Inr intro!: kept_bindE keeps)

lemma fields_boost [keeps]: "fields k n g d m s \<Longrightarrow> kept (fields k n g d m) (boost_loop s)"
proof (induction s rule: boost_loop.induct)
  case (1 s)
  show ?case
  proof (cases "sample_body s")
    case (Inr t)
    with fields_bodies(1) [OF "1.prems"] have "fields k n g d m t" by (simp add: kept_def wp)
    with 1 Inr show ?thesis by (subst boost_loop.simps) (simp add: frame)
  qed (subst boost_loop.simps; simp add: frame 1)
qed

lemma fields_counters [keeps]: "fields k n g d m s \<Longrightarrow> kept (fields k n g d m) (rb_counters l i s)"
  by (induction l arbitrary: i s) (auto simp: kept_Inr simp del: seqE.simps intro!: keeps frame)

lemma fields_read_trig [keeps]: "fields k n g d m s \<Longrightarrow> kept (fields k n g d m) (read_trig_samples h vs s)"
proof (induction h vs s rule: read_trig_samples.induct)
  case (2 h x y z rest s)
  have "kept (fields k n g d m) (seqE [ev_add_trinfo x attr v, read_trig_samples h rest] s)" for attr v
    by (intro keeps frame 2)
  then show ?case
    by (cases "trig_attr x") (simp_all add: kept_Inl del: seqE.simps)
qed (simp_all add: frame)

lemma fields_adc [keeps]: "fields k n g d m s \<Longrightarrow> kept (fields k n g d m) (adc_sine_cosine s)"
  unfolding adc_sine_cosine_def adc_skip_def by (intro keeps frame; simp add: data_set_def)

subsection \<open>The transitions of S4 and S5\<close>

lemma fields_trans07:
  "fields k n g d m s \<Longrightarrow> kept (fields k n g d m) (trans07_basic s)" "fields k n g d m s \<Longrightarrow> kept (fields k n g d m) (trans07_tag s)"
  unfolding trans07_basic_def trans07_tag_def select_tag_def wf_begin_if_none_def by (intro keeps frame; simp)+

lemma fields_trans08:
  "fields k n g d m s \<Longrightarrow> kept (fields k n g d m) (trans08_basic s)"
  unfolding trans08_basic_def trans08_one_energy_def trans08_two_energies_def trans08_no_energy_def
    store_energy1_def store_energy2_def store_pretrig_def gather_boost_def by (intro keeps frame; simp)

lemma fields_checks [keeps]:
  "fields k n g d m s \<Longrightarrow> kept (fields k n g d m) (check_waveform_len lbl s)" "fields k n g d m s \<Longrightarrow> kept (fields k n g d m) (check_energy_len s)"
  unfolding check_waveform_len_def log_waveform_len_def check_energy_len_def check_energy_size_def
  by (intro keeps frame; simp add: wf_set_def init_Energy_def)+

lemma fields_trans08_tag:
  "fields k n g d m s \<Longrightarrow> kept (fields k n g d m) (trans08_tag s)"
  unfolding trans08_tag_def tag_value_def tag_waveform_def tag_energy_def tag_baseline_def tag_rb_time_def tag_rb_gttag_def
    tag_rb_ec_def tag_rb_centrum_def tag_rb_centrum_pair_def select_tag_def wf_begin_if_none_def by (intro keeps frame; simp add: data_set_def)

lemma fields_trans11:
  "fields k n g d m s \<Longrightarrow> kept (fields k n g d m) (trans11_basic s)" "fields k n g d m s \<Longrightarrow> kept (fields k n g d m) (trans11_tag s)"
  unfolding trans11_basic_def trans11_tag_def by (intro keeps frame; simp)+

lemma trans10_fields:
  "fields True True False False False s \<Longrightarrow> kept (fields True True True True False) (trans10_basic s)"
  "fields True True False False False s \<Longrightarrow> kept (fields True True True True False) (trans10_tag s)"
  unfolding trans10_basic_def trans10_tag_def
  by (rule kept_cur, (rule kept_seq, erule keeps)+, rule kept_seq, erule trans10_hit_fields, erule kept_seqE_Nil)+

lemma trans09_hit_fields:
  "fields True True False False False s \<Longrightarrow> kept (fields True True False False True) (trans09_basic_hit (feeid_of w) (telid_of w) d s)"
  "fields True True False False False s \<Longrightarrow> kept (fields True True False False True) (trans09_tag_hit (feeid_of w) (telid_of w) d s)"
  by (auto simp: trans09_basic_hit_def trans09_tag_hit_def Let_def kept_def wp fields_def alls all_up tree get_above_hit get_above_data hit_ok_def hit_set_def
     datum_ok_def data_set_def elim!: all_mono split: option.split)

lemma trans06_data_fields: "fields k n g d True s \<Longrightarrow> kept (fields k n g d False) (trans06_data i t s)"
  unfolding trans06_data_def when_basic_def
  by (intro kept_if_fun) ((rule kept_seq, erule d_set_type_fields), intro keeps frame; assumption)+

lemma trans09_data_fields:
  "fields k n g d True s \<Longrightarrow> kept (fields k n g d False) (trans09_basic_data i t s)"
  "fields k n g d True s \<Longrightarrow> kept (fields k n g d False) (trans09_tag_data i t s)"
  unfolding trans09_basic_data_def trans09_tag_data_def
  by (intro kept_if_fun; (erule d_set_type_fields | ((rule kept_seq, erule d_set_type_fields), intro keeps frame; assumption)))+

lemma fields_detid: "fields True True False True False s \<Longrightarrow> kept (fields True True False False False) (on_hit (\<lambda>h. h\<lparr>h_detid := Some i\<rparr>) s)"
  by (auto simp: kept_def wp fields_def alls all_up tree hit_ok_def hit_set_def elim!: all_mono split: option.split)

lemma fields_add_data: "fields k n g d False s \<Longrightarrow> kept (fields k n g d True) (d_add_data s)"
  by (auto simp: kept_def wp fields_def alls all_up datum_ok_def data_set_def elim!: all_mono split: option.split)

lemma trans06_fields: "fields True True False True False s \<Longrightarrow> kept (fields True True False False False) (trans06 s)"
  unfolding trans06_def Let_def
  by (rule kept_cur, rule kept_seq, erule keeps, rule kept_seq, erule keeps, rule kept_seq, erule fields_detid,
      rule kept_seq, erule fields_add_data, rule kept_seq, erule trans06_data_fields, erule kept_seqE_Nil)

lemma trans09_fields:
  "fields True True False False False s \<Longrightarrow> kept (fields True True False False False) (trans09_basic s)"
  "fields True True False False False s \<Longrightarrow> kept (fields True True False False False) (trans09_tag s)"
  unfolding trans09_basic_def trans09_tag_def Let_def
  by (rule kept_cur, (rule kept_seq, erule keeps)+, rule kept_seq, erule trans09_hit_fields,
      rule kept_seq, erule trans09_data_fields, erule kept_seqE_Nil)+

lemma fields_on_blk [keeps]:
  "fields k n g d m s \<Longrightarrow> (\<And>x. blk_set x \<Longrightarrow> blk_set (f x)) \<Longrightarrow> (\<And>x. b_blkid (f x) = b_blkid x) \<Longrightarrow> (\<And>x. b_fee (f x) = b_fee x) \<Longrightarrow>
   kept (fields k n g d m) (on_blk f s)"
  by (auto simp: kept_def wp fields_def alls all_up blk_ok_def elim!: all_mono split: option.split)

lemma nth_opt_butlast: "nth_opt (butlast xs) i = Some x \<Longrightarrow> nth_opt xs i = Some x"
  by (auto simp: nth_opt_def nth_butlast split: if_splits)

lemma get_RemoveLast:
  "get_blk (e_block_update butlast e) p1 = Some x1 \<Longrightarrow> get_blk e p1 = Some x1"
  "get_fee (e_block_update butlast e) p2 = Some x2 \<Longrightarrow> get_fee e p2 = Some x2"
  "get_hit (e_block_update butlast e) p3 = Some x3 \<Longrightarrow> get_hit e p3 = Some x3"
  "get_data (e_block_update butlast e) p4 = Some x4 \<Longrightarrow> get_data e p4 = Some x4"
proof -
  show b: "get_blk (e_block_update butlast e) p = Some x \<Longrightarrow> get_blk e p = Some x" for p x
    by (auto simp: get_blk_def dest: nth_opt_butlast)
  show f: "get_fee (e_block_update butlast e) p = Some x \<Longrightarrow> get_fee e p = Some x" for p x
    by (cases p) (auto simp: get_fee.simps bind_eq_Some_conv dest: b)
  show h: "get_hit (e_block_update butlast e) p = Some x \<Longrightarrow> get_hit e p = Some x" for p x
    by (cases p) (auto simp: get_hit.simps bind_eq_Some_conv dest: f)
  show "get_data (e_block_update butlast e) p4 = Some x4 \<Longrightarrow> get_data e p4 = Some x4"
    by (cases p4) (auto simp: get_data.simps bind_eq_Some_conv dest: h)
qed

lemma fields_RemoveLast [keeps]: "fields k n g d m s \<Longrightarrow> kept (fields k n g d m) (block_RemoveLast s)"
  by (auto simp: block_RemoveLast_def kept_def wp fields_def all_blk_def all_fee_def all_hit_def all_data_def dest: get_RemoveLast)

lemma trans16_fields: "fields k n g d m s \<Longrightarrow> kept (fields k n g d m) (trans16 s)"
  unfolding trans16_def check_block_len_def check_block_crc_def read_triggerinfo_def Let_def
  by (intro keeps frame; simp add: blk_set_def)

lemma trans18_fields: "fields k n g d m s \<Longrightarrow> kept (\<lambda>t. fields k n g d m t \<and> e_regid (ev t) \<noteq> None) (trans18 s)"
  by (auto simp: trans18_def on_report_def Let_def kept_def wp fields_def split: option.split)

subsection \<open>A run\<close>

definition need :: "nat \<Rightarrow> fsm \<Rightarrow> bool" where
  "need k s \<longleftrightarrow> fields (k \<noteq> 0) (1 \<le> k \<and> k \<le> 7) (k = 2) (k = 2 \<or> k = 3) False s"

lemma need_eqs:
  "need 0 = fields False False False False False" "need 1 = fields True True False False False"
  "need (Suc 0) = fields True True False False False"
  "need 2 = fields True True True True False" "need 3 = fields True True False True False"
  "need 4 = fields True True False False False" "need 5 = fields True True False False False"
  "need 6 = fields True True False False False" "need 7 = fields True True False False False"
  "need 8 = fields True False False False False" "need 9 = fields True False False False False"
  "need 10 = fields True False False False False"
  by (simp_all add: need_def fun_eq_iff)

lemma need_cong [simp]: "need k (s\<lparr>state_id := i\<rparr>) = need k s" "need k (s\<lparr>event_index := j\<rparr>) = need k s"
  by (simp_all add: need_def)

lemma fields_weaken:
  "fields k n False False m s \<Longrightarrow> fields k n g d m s"
  by (auto simp: fields_def hit_ok_def elim!: all_mono)

lemma need_by_format:
  assumes "kept (need j) (b s)" "kept (need j) (t s)" "need j s"
  shows "kept (need j) (by_format b t s)"
  using assms by (simp add: by_format_def kept_Inr)

lemma need_opens:
  "need 0 s \<Longrightarrow> kept (need 1) (trans02 s)" "need 1 s \<Longrightarrow> kept (need 2) (trans03 s)"
  "need 2 s \<Longrightarrow> kept (need 3) (trans04 s)" "need 3 s \<Longrightarrow> kept (need 3) (trans05 s)"
  "need 3 s \<Longrightarrow> kept (need 4) (trans06 s)" "need 10 s \<Longrightarrow> kept (need 1) (trans17 s)"
  by (simp_all add: need_eqs trans02_fields trans03_fields trans04_fields trans05_fields trans06_fields trans17_fields)

lemma need_closes:
  "need 6 s \<Longrightarrow> kept (need 7) (trans12 s)" "need 7 s \<Longrightarrow> kept (need 1) (trans13 s)"
  "need 1 s \<Longrightarrow> kept (need 8) (trans14 s)" "need 8 s \<Longrightarrow> kept (need 9) (trans15 s)"
  "need 9 s \<Longrightarrow> kept (need 10) (trans16 s)"
  by (simp_all add: need_eqs trans12_fields trans13_fields trans14_fields trans15_fields trans16_fields)

lemma need_data:
  "need 4 s \<Longrightarrow> kept (need 5) (by_format trans07_basic trans07_tag s)"
  "need 5 s \<Longrightarrow> kept (need 5) (by_format trans08_basic trans08_tag s)"
  "need 5 s \<Longrightarrow> kept (need 4) (by_format trans09_basic trans09_tag s)"
  "need 5 s \<Longrightarrow> kept (need 2) (by_format trans10_basic trans10_tag s)"
  "need 5 s \<Longrightarrow> kept (need 6) (by_format trans11_basic trans11_tag s)"
  by (intro need_by_format;
      simp add: need_eqs fields_trans07 fields_trans08 fields_trans08_tag trans09_fields trans10_fields fields_trans11 fields_weaken)+

lemma run_transition_need:
  assumes "run_transition k r s = Inr (r', u)" "k \<noteq> 18" "trans_from k (state_id s)" "need (state_id s) s"
  shows "need (state_id u) u"
proof -
  from assms(3) have "k \<le> 18" by (simp add: trans_from_def)
  have run: "kept (need j) v \<Longrightarrow> bindE (bindE v (seqE [goto j])) (\<lambda>t. Inr (q, t)) = Inr (r', u) \<Longrightarrow> need (state_id u) u"
    for v j q by (cases v) (auto simp: goto_def modify_def kept_def wp)
  have from_state: "state_id s = j \<Longrightarrow> need j s" for j using assms(4) by simp
  note runs = need_opens [THEN run] need_closes [THEN run] need_data [THEN run]
  have "k = 0 \<Longrightarrow> ?thesis"
    using assms(1) by (auto simp: run_transition_def trans_invalid_def goto_def on_report_def modify_def need_def fields_def
        new_FzEvent_def all_blk_def all_fee_def all_hit_def all_data_def get_blk_def get_fee.simps get_hit.simps get_data.simps)
  moreover have "k = 1 \<Longrightarrow> ?thesis" using assms(1,4) by (simp add: run_transition_def skip_def)
  ultimately show ?thesis
    using trans_number_cases [OF \<open>k \<le> 18\<close>] assms(1,2,3) runs [OF from_state]
    by (elim disjE) (simp_all add: run_transition_def trans_from_def)
qed

lemma trans18_need:
  assumes "run_transition 18 r s = Inr (r', u)" "state_id s = 10" "need 10 s"
  shows "fields True False False False False u \<and> e_regid (ev u) \<noteq> None"
proof -
  from assms(3) have "kept (\<lambda>t. fields True False False False False t \<and> e_regid (ev t) \<noteq> None) (trans18 s)"
    by (intro trans18_fields) (simp add: need_eqs)
  with assms(1) show ?thesis
    by (auto simp: run_transition_def bindE_Inr_iff goto_def modify_def kept_def wp)
qed

interpretation set_run: register_last
  "\<lambda>(r, s). r \<noteq> PARSE_OK \<and> need (state_id s) s"
  "\<lambda>(r, s). r \<noteq> PARSE_OK \<or> fields True False False False False s \<and> e_regid (ev s) \<noteq> None"
proof (unfold_locales, goal_cases)
  case (1 k r s r' u)
  then have "r' = r" by (auto simp: run_transition_def bindE_Inr_iff)
  with 1 run_transition_need [of k r s r' u] show ?case by auto
next
  case (2 r s r' u)
  then show ?case using trans18_need [of r s r' u] by auto
qed simp_all

lemma new_event_need: "ev s = new_FzEvent \<Longrightarrow> need 0 s"
  by (auto simp: need_def fields_def new_FzEvent_def all_blk_def all_fee_def all_hit_def all_data_def get_blk_def
      get_fee.simps get_hit.simps get_data.simps)

text \<open>From the objects at all paths to the objects of the message.\<close>

lemma all_lists:
  "all_blk P e \<Longrightarrow> i < length (e_block e) \<Longrightarrow> P i (e_block e ! i)"
  "all_fee Q e \<Longrightarrow> i < length (e_block e) \<Longrightarrow> j < length (b_fee (e_block e ! i)) \<Longrightarrow> Q (i, j) (b_fee (e_block e ! i) ! j)"
  "all_hit R e \<Longrightarrow> i < length (e_block e) \<Longrightarrow> j < length (b_fee (e_block e ! i)) \<Longrightarrow>
     k < length (f_hit (b_fee (e_block e ! i) ! j)) \<Longrightarrow> R ((i, j), k) (f_hit (b_fee (e_block e ! i) ! j) ! k)"
  "all_data S e \<Longrightarrow> i < length (e_block e) \<Longrightarrow> j < length (b_fee (e_block e ! i)) \<Longrightarrow>
     k < length (f_hit (b_fee (e_block e ! i) ! j)) \<Longrightarrow> l < length (h_data (f_hit (b_fee (e_block e ! i) ! j) ! k)) \<Longrightarrow>
     S (((i, j), k), l) (h_data (f_hit (b_fee (e_block e ! i) ! j) ! k) ! l)"
  by (simp_all add: all_blk_def all_fee_def all_hit_def all_data_def get_blk_def get_fee.simps get_hit.simps
      get_data.simps nth_opt_def)

definition hit_complete :: "FzHit \<Rightarrow> bool" where
  "hit_complete h \<longleftrightarrow> hit_set h \<and> h_gttag h \<noteq> None \<and> h_detid h \<noteq> None \<and>
     (\<forall>d\<in>set (h_data h). data_set d \<and> d_type d \<noteq> None)"

definition fee_complete :: "FzFee \<Rightarrow> bool" where
  "fee_complete f \<longleftrightarrow> fee_set f \<and> (\<forall>h\<in>set (f_hit f). hit_complete h)"

definition block_complete :: "FzBlock \<Rightarrow> bool" where
  "block_complete b \<longleftrightarrow> blk_set b \<and> b_blkid b \<noteq> None \<and> (\<forall>f\<in>set (b_fee b). fee_complete f)"

lemma fields_complete:
  assumes "fields True False False False False s" "b \<in> set (e_block (ev s))"
  shows "block_complete b"
proof -
  from assms(2) obtain i where i: "i < length (e_block (ev s))" "b = e_block (ev s) ! i" by (auto simp: in_set_conv_nth)
  note all = assms(1) [unfolded fields_def]
  have "fee_complete f" if f: "f \<in> set (b_fee b)" for f
  proof -
    from f obtain j where j: "j < length (b_fee b)" "f = b_fee b ! j" by (auto simp: in_set_conv_nth)
    have "hit_complete h" if h: "h \<in> set (f_hit f)" for h
    proof -
      from h obtain k where k: "k < length (f_hit f)" "h = f_hit f ! k" by (auto simp: in_set_conv_nth)
      have "data_set d \<and> d_type d \<noteq> None" if "d \<in> set (h_data h)" for d
        using that all all_lists(4) [of "datum_ok False (d_p s)" "ev s" i j k] i j k
        by (auto simp: in_set_conv_nth datum_ok_def)
      with all all_lists(3) [of "hit_ok False False (hit_p s)" "ev s" i j k] i j k
      show ?thesis by (auto simp: hit_complete_def hit_ok_def)
    qed
    with all all_lists(2) [of "\<lambda>_. fee_set" "ev s" i j] i j show ?thesis by (auto simp: fee_complete_def)
  qed
  with all all_lists(1) [of "blk_ok False (blk_p s)" "ev s" i] i show ?thesis by (auto simp: block_complete_def blk_ok_def)
qed

lemma closed_event_complete:
  assumes "\<forall>x\<in>set (butlast w). getword_id x \<noteq> 12" "fsm_process (fsm_import w s) = Some (Inr (PARSE_OK, t))"
  shows "e_ec (ev t) \<noteq> None \<and> e_regid (ev t) \<noteq> None \<and> list_all init_FzTrigInfo (e_trinfo (ev t)) \<and>
    (\<forall>b\<in>set (e_block (ev t)). block_complete b)"
proof -
  have "need 0 ((fsm_import w s)\<lparr>event_index := 0, fsm_report := rep\<rparr>)" for rep
    by (rule new_event_need) (simp add: fsm_import_def)
  then obtain u where "fields True False False False False u \<and> e_regid (ev u) \<noteq> None" "ev t = ev u"
    using set_run.process_result [OF assms(2,1)] by (auto simp: fsm_import_def PARSE_OK_def PARSE_FAIL_def)
  with fields_complete [of u] show ?thesis by (auto simp: fields_def)
qed

text \<open>The two required fields the transitions may leave out.\<close>

definition timed :: "FzHit \<Rightarrow> bool" where
  "timed h \<longleftrightarrow> h_dettag h \<noteq> None \<and> (\<forall>d\<in>set (h_data h). pred_option (\<lambda>w. wf_pretrig w \<noteq> None) (d_waveform d))"

lemma init_data_set:
  "data_set d \<Longrightarrow> d_type d \<noteq> None \<Longrightarrow> init_FzData d \<longleftrightarrow> pred_option (\<lambda>w. wf_pretrig w \<noteq> None) (d_waveform d)"
  by (cases "d_energy d"; cases "d_waveform d") (simp_all add: data_set_def init_FzData_def init_Waveform_def wf_set_def)

lemma init_timed: "hit_complete h \<Longrightarrow> init_FzHit h \<longleftrightarrow> timed h"
  by (auto simp: hit_complete_def hit_set_def init_FzHit_def timed_def list_all_iff init_data_set opt_ex_iff)

lemma init_blocks:
  assumes "block_complete b"
  shows "init_FzBlock b \<longleftrightarrow> (\<forall>f\<in>set (b_fee b). \<forall>h\<in>set (f_hit f). timed h)"
proof -
  have "init_FzFee f \<longleftrightarrow> (\<forall>h\<in>set (f_hit f). timed h)" if "fee_complete f" for f
    using that by (auto simp: fee_complete_def fee_set_def init_FzFee_def list_all_iff init_timed opt_ex_iff)
  with assms show ?thesis
    by (auto simp: block_complete_def blk_set_def init_FzBlock_def list_all_iff)
qed

text \<open>What a reader finds of an event with its fields set: the enumerators it knows.\<close>

definition hit_known :: "FzHit \<Rightarrow> bool" where
  "hit_known h \<longleftrightarrow> pred_option FzDetector_IsValid (h_detid h) \<and> pred_option FzFec_IsValid (h_feeid h)"

lemma init_hit_read:
  assumes "hit_complete h"
  shows "init_FzHit (hit_read h) \<longleftrightarrow> init_FzHit h \<and> hit_known h"
proof -
  from assms obtain t i d where h: "h_telid h = Some t" "t \<le> Tel_B" "h_feeid h = Some i" "h_detid h = Some d"
    by (auto simp: hit_complete_def hit_set_def opt_ex_iff)
  then show ?thesis
    by (auto simp: init_FzHit_def hit_read_def known_def hit_known_def FzTelescope_IsValid_def Tel_B_def)
qed

lemma init_fee_read:
  assumes "fee_complete f"
  shows "init_FzFee (fee_read f) \<longleftrightarrow>
    init_FzFee f \<and> pred_option FzFec_IsValid (f_feeid f) \<and> (\<forall>h\<in>set (f_hit f). hit_known h)"
proof -
  from assms obtain i where "f_feeid f = Some i" by (auto simp: fee_complete_def fee_set_def opt_ex_iff)
  moreover have "\<forall>h\<in>set (f_hit f). init_FzHit (hit_read h) \<longleftrightarrow> init_FzHit h \<and> hit_known h"
    using assms init_hit_read by (simp add: fee_complete_def)
  ultimately show ?thesis by (auto simp: init_FzFee_def fee_read_def known_def list_all_iff)
qed

lemma init_event_read:
  assumes "\<forall>b\<in>set (e_block m). block_complete b"
  shows "init_FzEvent (event_read m) \<longleftrightarrow> init_FzEvent m \<and>
    (\<forall>b\<in>set (e_block m). \<forall>f\<in>set (b_fee b). pred_option FzFec_IsValid (f_feeid f) \<and> (\<forall>h\<in>set (f_hit f). hit_known h))"
proof -
  have "init_FzBlock (b_fee_update (map fee_read) b) \<longleftrightarrow> init_FzBlock b \<and>
      (\<forall>f\<in>set (b_fee b). pred_option FzFec_IsValid (f_feeid f) \<and> (\<forall>h\<in>set (f_hit f). hit_known h))"
    if "b \<in> set (e_block m)" for b
  proof -
    have "\<forall>f\<in>set (b_fee b). fee_complete f" using assms that by (simp add: block_complete_def)
    then show ?thesis by (auto simp: init_FzBlock_def list_all_iff init_fee_read)
  qed
  then show ?thesis by (auto simp: init_FzEvent_def event_read_def list_all_iff)
qed

text \<open>
  C9. Which required fields the parser sets. In an event closed by its register word all of
  them are set, in every message at every level, the card identifier being at most 15 and
  the telescope A or B, but for the detector tag of a hit and the pretrigger of a waveform.
  So for its sender the event is initialized exactly when these two are there as well, which
  is when no hit was cut short before those words. A reader finds it initialized exactly
  when, besides, every identifier is an enumerator of the schema: the detector field, which
  the machine takes from three bits of the word, at most 3, and the card fields not 8 to 14.
\<close>

theorem closed_event_initialized:
  assumes "\<forall>x\<in>set (butlast w). getword_id x \<noteq> 12"
    and "fsm_process (fsm_import w s) = Some (Inr (PARSE_OK, t))"
  shows "(e_ec (ev t) \<noteq> None \<and> e_regid (ev t) \<noteq> None \<and>
      (\<forall>x\<in>set (e_trinfo (ev t)). ti_id x \<noteq> None \<and> ti_attr x \<noteq> None \<and> ti_value x \<noteq> None) \<and>
      (\<forall>b\<in>set (e_block (ev t)). b_blkid b \<noteq> None \<and> b_len_error b \<noteq> None \<and> b_crc_error b \<noteq> None \<and>
        (\<forall>f\<in>set (b_fee b). (\<exists>i. f_feeid f = Some i \<and> i \<le> 15) \<and> f_len_error f \<noteq> None \<and> f_crc_error f \<noteq> None \<and>
          (\<forall>h\<in>set (f_hit f). h_ec h \<noteq> None \<and> h_gttag h \<noteq> None \<and> h_detid h \<noteq> None \<and>
            (\<exists>i. h_telid h = Some i \<and> i \<le> 1) \<and> (\<exists>i. h_feeid h = Some i \<and> i \<le> 15) \<and>
            (\<forall>d\<in>set (h_data h). d_type d \<noteq> None \<and> pred_option (\<lambda>x. en_len_error x \<noteq> None) (d_energy d) \<and>
              pred_option (\<lambda>x. wf_len_error x \<noteq> None) (d_waveform d)))))) \<and>
    (init_FzEvent (ev t) \<longleftrightarrow>
      (\<forall>b\<in>set (e_block (ev t)). \<forall>f\<in>set (b_fee b). \<forall>h\<in>set (f_hit f).
        h_dettag h \<noteq> None \<and> (\<forall>d\<in>set (h_data h). pred_option (\<lambda>x. wf_pretrig x \<noteq> None) (d_waveform d)))) \<and>
    (init_FzEvent (event_read (ev t)) \<longleftrightarrow> init_FzEvent (ev t) \<and>
      (\<forall>b\<in>set (e_block (ev t)). \<forall>f\<in>set (b_fee b). pred_option FzFec_IsValid (f_feeid f) \<and>
        (\<forall>h\<in>set (f_hit f). pred_option FzDetector_IsValid (h_detid h) \<and> pred_option FzFec_IsValid (h_feeid h))))"
proof -
  from closed_event_complete [OF assms] have c: "e_ec (ev t) \<noteq> None" "e_regid (ev t) \<noteq> None"
    "list_all init_FzTrigInfo (e_trinfo (ev t))" "\<forall>b\<in>set (e_block (ev t)). block_complete b" by blast+
  let ?D = "\<lambda>d. d_type d \<noteq> None \<and> pred_option (\<lambda>x. en_len_error x \<noteq> None) (d_energy d) \<and>
      pred_option (\<lambda>x. wf_len_error x \<noteq> None) (d_waveform d)"
  let ?H = "\<lambda>h. h_ec h \<noteq> None \<and> h_gttag h \<noteq> None \<and> h_detid h \<noteq> None \<and>
      (\<exists>i. h_telid h = Some i \<and> i \<le> 1) \<and> (\<exists>i. h_feeid h = Some i \<and> i \<le> 15) \<and> (\<forall>d\<in>set (h_data h). ?D d)"
  let ?F = "\<lambda>f. (\<exists>i. f_feeid f = Some i \<and> i \<le> 15) \<and> f_len_error f \<noteq> None \<and> f_crc_error f \<noteq> None \<and>
      (\<forall>h\<in>set (f_hit f). ?H h)"
  have data: "?D d" if "data_set d \<and> d_type d \<noteq> None" for d
    using that by (cases "d_energy d"; cases "d_waveform d") (simp_all add: data_set_def init_Energy_def wf_set_def)
  have hit: "?H h" if "hit_complete h" for h
    using that data unfolding hit_complete_def hit_set_def opt_ex_iff ADCF_def Tel_B_def by blast
  have fee: "?F f" if "fee_complete f" for f
    using that hit unfolding fee_complete_def fee_set_def opt_ex_iff ADCF_def by blast
  have blk: "\<forall>b\<in>set (e_block (ev t)). b_blkid b \<noteq> None \<and> b_len_error b \<noteq> None \<and> b_crc_error b \<noteq> None \<and>
      (\<forall>f\<in>set (b_fee b). ?F f)"
    using c(4) fee unfolding block_complete_def blk_set_def by blast
  have "init_FzEvent (ev t) \<longleftrightarrow> (\<forall>b\<in>set (e_block (ev t)). \<forall>f\<in>set (b_fee b). \<forall>h\<in>set (f_hit f). timed h)"
    using c init_blocks by (auto simp: init_FzEvent_def list_all_iff)
  moreover note init_event_read [OF c(4)]
  moreover have "\<forall>x\<in>set (e_trinfo (ev t)). ti_id x \<noteq> None \<and> ti_attr x \<noteq> None \<and> ti_value x \<noteq> None"
    using c(3) by (simp add: list_all_iff init_FzTrigInfo_def)
  ultimately show ?thesis
    using c(1,2) blk unfolding timed_def hit_known_def by (intro conjI)
qed

text \<open>A hit whose telescope header is followed by one word only: no detector tag.\<close>

definition untagged_event :: "u16 list" where
  "untagged_event = [0xE001, 0x9800, 0x0010, 0x9000, 0x7004, 1, 5, 0x7005, 3, 1, 2, 3,
     0xA00C, 0xBFF0, 0xE001, 0xC003, 0xA012, 0xD8C0, 0xC805]"

lemma untagged_event_run:
  "case fsm_process (fsm_import untagged_event (fsm_init FMT_TAG fsm_zero)) of
     Some (Inr (r, t)) \<Rightarrow> r = PARSE_OK \<and> fr_events_good (fsm_report t) = 1 \<and>
       map (map (map h_dettag \<circ> f_hit) \<circ> b_fee) (e_block (ev t)) = [[[None]]] | _ \<Rightarrow> False"
  by code_simp

text \<open>A datum header whose detector bits are 101: set, and unknown to a reader.\<close>

definition odd_detector_event :: "u16 list" where
  "odd_detector_event = [0xE001, 0x9800, 0x0010, 0x0001, 0x90A0, 0x7004, 1, 5, 0x7005, 3, 1, 2, 3,
     0xA00D, 0xB9E0, 0xE001, 0xC003, 0xA013, 0xDFB0, 0xC805]"

lemma odd_detector_run:
  "case fsm_process (fsm_import odd_detector_event (fsm_init FMT_TAG fsm_zero)) of
     Some (Inr (r, t)) \<Rightarrow> r = PARSE_OK \<and>
       map (map (map (\<lambda>h. (h_detid h, h_dettag h, map (map_option wf_pretrig \<circ> d_waveform) (h_data h))) \<circ> f_hit) \<circ> b_fee)
         (e_block (ev t)) = [[[(Some 5, Some 1, [Some (Some 5)])]]] | _ \<Rightarrow> False"
  by code_simp

lemma pretrig_read: "map_option wf_pretrig x = Some (Some p) \<Longrightarrow> pred_option (\<lambda>w. wf_pretrig w \<noteq> None) x"
  by (cases x) auto

lemma closed_event_initialized_witness:
  "(\<exists>t. fsm_process (fsm_import untagged_event (fsm_init FMT_TAG fsm_zero)) = Some (Inr (PARSE_OK, t)) \<and>
     fr_events_good (fsm_report t) = 1 \<and> \<not> init_FzEvent (ev t)) \<and>
   (\<exists>t. fsm_process (fsm_import odd_detector_event (fsm_init FMT_TAG fsm_zero)) = Some (Inr (PARSE_OK, t)) \<and>
     init_FzEvent (ev t) \<and> \<not> init_FzEvent (event_read (ev t)))"
proof -
  let ?s = "fsm_init FMT_TAG fsm_zero"
  from untagged_event_run obtain t where t: "fsm_process (fsm_import untagged_event ?s) = Some (Inr (PARSE_OK, t))"
    "fr_events_good (fsm_report t) = 1" "map (map (map h_dettag \<circ> f_hit) \<circ> b_fee) (e_block (ev t)) = [[[None]]]"
    by (auto split: option.splits sum.splits)
  have "\<forall>x\<in>set (butlast untagged_event). getword_id x \<noteq> 12" by code_simp
  from closed_event_initialized [OF this t(1)] t(3) have 1: "\<not> init_FzEvent (ev t)" by auto
  from odd_detector_run obtain u where u: "fsm_process (fsm_import odd_detector_event ?s) = Some (Inr (PARSE_OK, u))"
    "map (map (map (\<lambda>h. (h_detid h, h_dettag h, map (map_option wf_pretrig \<circ> d_waveform) (h_data h))) \<circ> f_hit) \<circ> b_fee)
         (e_block (ev u)) = [[[(Some 5, Some 1, [Some (Some 5)])]]]"
    by (auto split: option.splits sum.splits)
  have "\<forall>x\<in>set (butlast odd_detector_event). getword_id x \<noteq> 12" by code_simp
  note c = closed_event_initialized [OF this u(1), THEN conjunct2]
  from u(2) obtain b f h d where e: "e_block (ev u) = [b]" "b_fee b = [f]" "f_hit f = [h]" "h_data h = [d]"
    "h_detid h = Some 5" "h_dettag h = Some 1" "map_option wf_pretrig (d_waveform d) = Some (Some 5)"
    by (auto simp: map_eq_Cons_conv)
  then have 2: "init_FzEvent (ev u)" using c pretrig_read [OF e(7)] by simp
  have 3: "\<not> init_FzEvent (event_read (ev u))" using c e(1-3,5) by (simp add: FzDetector_IsValid_def)
  from t(1,2) 1 u(1) 2 3 show ?thesis by blast
qed

end
