(* ===== verification/FzFSM_Words.thy ===== *)
theory FzFSM_Words
  imports FzFSM_Process
begin

section \<open>What the parser reads out of single words\<close>

text \<open>
  The word-level arithmetic of the parser against its meaning in numbers: the test that
  recognises the last word of an event, the fold of a 16-bit sum to 8 bits and what it
  detects, the sign of a trapezoid baseline, and the lock-in (ADC) amplitudes, which the
  code computes in 32 bits although they have 37.
\<close>

lemma all_less_16: "(\<forall>n<16. P n) \<longleftrightarrow> P 0 \<and> P 1 \<and> P 2 \<and> P 3 \<and> P 4 \<and> P 5 \<and> P 6 \<and> P 7 \<and> P 8 \<and> P 9 \<and> P 10 \<and>
   P 11 \<and> P 12 \<and> P 13 \<and> P 14 \<and> P (15::nat)"
  by (simp add: All_less_Suc numeral_eq_Suc conj_ac)

lemma u16_eq_iff: "(a :: u16) = b \<longleftrightarrow> (\<forall>n<16. bit a n = bit b n)"
  by (auto intro: bit_word_eqI)

lemma high5_iff: "w AND 0xF800 = (0xC800::u16) \<longleftrightarrow> bit w 15 \<and> bit w 14 \<and> \<not> bit w 13 \<and> \<not> bit w 12 \<and> bit w 11"
  by (auto simp: u16_eq_iff all_less_16 bit_simps)

lemma nibble3_C: "nibble 3 w = 0xC \<longleftrightarrow> bit w 15 \<and> bit w 14 \<and> \<not> bit w 13 \<and> \<not> bit w 12"
  by (auto simp: nibble_def u16_eq_iff all_less_16 bit_simps)

lemma bit_at_11: "bit_at 11 w \<noteq> 0 \<longleftrightarrow> bit w 11"
  by (auto simp: bit_at_def u16_eq_iff all_less_16 bit_simps)

lemma regword_iff:
  "getword_id w = 12 \<longleftrightarrow> w AND 0xF800 = 0xC800"
proof -
  have "getword_id w = 12 \<longleftrightarrow> nibble 3 w = 0xC \<and> bit_at 11 w \<noteq> 0"
    by (auto simp: getword_id_def Let_def)
  then show ?thesis by (simp add: nibble3_C bit_at_11 high5_iff)
qed

text \<open>
  The test of the reader and the classification of the parser agree: a word is the one
  that closes an event (register word, id 12) for \<open>getword_id\<close> exactly when its top
  five bits are 11001, that is \<open>(w & REGID_MASK) == REGID_TAG\<close>.
\<close>

theorem register_word_test:
  "getword_id w = 12 \<longleftrightarrow> w AND 0xF800 = 0xC800"
  by (rule regword_iff)

subsection \<open>The 8-bit check sum\<close>

lemma crc8_xor: "crc8 (a XOR b) = crc8 a XOR crc8 b"
  by (rule bit_word_eqI) (auto simp: crc8_def Let_def bit_simps)

lemma crc8_bit: "k < 16 \<Longrightarrow> crc8 (push_bit k 1) \<noteq> 0"
proof -
  have "\<forall>k\<in>set [0..<16]. crc8 (push_bit k 1) \<noteq> 0" by code_simp
  then show "k < 16 \<Longrightarrow> crc8 (push_bit k 1) \<noteq> 0" by simp
qed

definition xor_sum :: "u16 list \<Rightarrow> u16" where
  "xor_sum ws = fold (XOR) ws 0"

lemma fold_xor: "fold (XOR) ws a = fold (XOR) ws 0 XOR (a :: u16)"
proof (induction ws arbitrary: a)
  case (Cons x ws)
  show ?case by (simp add: Cons.IH [of "a XOR x"] Cons.IH [of x] ac_simps)
qed simp

lemma xor_sum_append: "xor_sum (us @ vs) = xor_sum us XOR xor_sum vs"
  using fold_xor [of vs "fold (XOR) us 0"] by (simp add: xor_sum_def xor.commute)

lemma xor_sum_Cons: "xor_sum (v # vs) = v XOR xor_sum vs"
  using xor_sum_append [of "[v]" vs] by (simp add: xor_sum_def)

text \<open>
  The 8-bit check sum of a card or a block (the XOR of its words, folded to its low and
  high byte XORed together) changes whenever one bit of one word changes, so a single-bit
  error is always reported.
\<close>

theorem crc8_detects_single_bit:
  assumes "i < length ws" "k < 16"
  shows "crc8 (xor_sum (ws[i := ws ! i XOR push_bit k 1])) \<noteq> crc8 (xor_sum ws)"
proof -
  have "xor_sum (ws[i := ws ! i XOR push_bit k 1]) = xor_sum ws XOR push_bit k 1"
    unfolding upd_conv_take_nth_drop [OF assms(1)]
    by (subst (3) id_take_nth_drop [OF assms(1)]) (simp only: xor_sum_append xor_sum_Cons xor.assoc, simp add: ac_simps)
  moreover have "x XOR y = x \<Longrightarrow> y = 0" for x y :: u8
    by (metis xor.assoc xor.left_neutral xor_self_eq)
  ultimately show ?thesis using crc8_bit [OF assms(2)] by (metis crc8_xor)
qed

lemma crc8_detects_single_bit_witness:
  "crc8 (xor_sum [0xE001, 0x1234 XOR push_bit 5 1]) \<noteq> crc8 (xor_sum [0xE001, 0x1234])"
  using crc8_detects_single_bit [of 1 "[0xE001, 0x1234]" 5] by simp

subsection \<open>Signed values\<close>

lemma sint_32_small:
  assumes "n < 2 ^ 31"
  shows "sint (of_nat n :: u32) = int n"
  using assms by (simp add: sint_uint unsigned_of_nat take_bit_nat_eq_self signed_take_bit_int_eq_self)

lemma baseline_int_value:
  assumes "a \<le> 0x7FFF" "b \<le> 0x7FFF"
  shows "baseline_int a b = (let t = uint a * 2 ^ 15 + uint b in if t > 536870911 then t - 2 ^ 30 else t)"
proof -
  have n: "unat a < 2 ^ 15" "unat b < 2 ^ 15" using assms by (simp_all add: word_le_nat_alt)
  have "push_bit 15 (ucast a :: u32) + ucast b = of_nat (unat a * 2 ^ 15 + unat b)"
    by (simp add: push_bit_eq_mult)
  then have "sint (push_bit 15 (ucast a :: u32) + ucast b) = int (unat a * 2 ^ 15 + unat b)"
    using sint_32_small [of "unat a * 2 ^ 15 + unat b"] n by simp
  then show ?thesis by (simp add: baseline_int_def Let_def)
qed

text \<open>
  The baseline of the energy trapezoid is the 30-bit two's complement number whose high
  and low 15 bits the two words carry.
\<close>

theorem baseline_sign:
  assumes "a \<le> 0x7FFF" "b \<le> 0x7FFF"
  shows "- (2 ^ 29) \<le> baseline_int a b \<and> baseline_int a b < 2 ^ 29 \<and>
    baseline_int a b mod 2 ^ 30 = uint a * 2 ^ 15 + uint b"
proof -
  have "uint a \<le> 0x7FFF" "uint b \<le> 0x7FFF" using assms by (simp_all add: word_le_def)
  moreover have "- (2 ^ 29) \<le> (let t = A * 2 ^ 15 + B in if t > 536870911 then t - 2 ^ 30 else t) \<and>
      (let t = A * 2 ^ 15 + B in if t > 536870911 then t - 2 ^ 30 else t) < 2 ^ 29 \<and>
      (let t = A * 2 ^ 15 + B in if t > 536870911 then t - 2 ^ 30 else t) mod 2 ^ 30 = A * 2 ^ 15 + B"
    if "0 \<le> A" "A \<le> 0x7FFF" "0 \<le> B" "B \<le> 0x7FFF" for A B :: int
    using that by (auto simp: Let_def)
  ultimately show ?thesis
    unfolding baseline_int_value [OF assms] by simp
qed

lemma baseline_sign_witness:
  "- (2 ^ 29) \<le> baseline_int 0x7FFF 0x7FF0 \<and> baseline_int 0x7FFF 0x7FF0 < 2 ^ 29 \<and>
    baseline_int 0x7FFF 0x7FF0 mod 2 ^ 30 = uint (0x7FFF :: u16) * 2 ^ 15 + uint (0x7FF0 :: u16)"
  by (rule baseline_sign) simp_all

definition adc_value :: "u16 \<Rightarrow> u16 \<Rightarrow> u16 \<Rightarrow> int" where
  "adc_value a b c = uint a * 2 ^ 22 + uint b * 2 ^ 7 + uint c div 2 ^ 8"

lemma adc_word3_nat:
  "adc_word3 a b c = scast (of_nat (unat a * 2 ^ 22 + unat b * 2 ^ 7 + unat c div 2 ^ 8) :: u32)"
proof -
  have "ucast (drop_bit 8 c) = (of_nat (unat (drop_bit 8 c)) :: u32)"
    by simp
  moreover have "unat (drop_bit 8 c) = unat c div 2 ^ 8"
    unfolding unat_drop_bit_eq by (rule drop_bit_eq_div)
  ultimately have c: "ucast (drop_bit 8 c) = (of_nat (unat c div 2 ^ 8) :: u32)"
    by (simp only:)
  have "(ucast a :: u32) = of_nat (unat a)" "(ucast b :: u32) = of_nat (unat b)"
    by simp_all
  then show ?thesis unfolding adc_word3_def c
    by (simp only: push_bit_eq_mult of_nat_add of_nat_mult of_nat_power of_nat_numeral)
qed

lemma sint_32_any:
  assumes "n < 2 ^ 32"
  shows "sint (of_nat n :: u32) = (if n < 2 ^ 31 then int n else int n - 2 ^ 32)"
proof -
  have "sint (of_nat n :: u32) = signed_take_bit 31 (int n)"
    by (subst of_int_of_nat_eq [symmetric]) (simp add: sint_sbintrunc' del: of_int_of_nat_eq)
  also have "\<dots> = (if n < 2 ^ 31 then int n else int n - 2 ^ 32)"
  proof (cases "n < 2 ^ 31")
    case True
    then show ?thesis by (simp add: signed_take_bit_int_eq_self)
  next
    case False
    have "signed_take_bit 31 (int n) = (int n + 2 ^ 31) mod 2 ^ 32 - 2 ^ 31"
      by (simp add: signed_take_bit_eq_take_bit_shift take_bit_eq_mod)
    also have "(int n + 2 ^ 31) mod 2 ^ 32 = (int n + 2 ^ 31 - 2 ^ 32) mod 2 ^ 32"
      by (rule minus_mod_self2 [symmetric])
    also have "(int n + 2 ^ 31 - 2 ^ 32) mod 2 ^ 32 = int n + 2 ^ 31 - 2 ^ 32"
      using False assms by (intro mod_pos_pos_trivial) auto
    finally show ?thesis using False by simp
  qed
  finally show ?thesis .
qed

lemma and_bit36: "v AND 0x1000000000 \<noteq> 0 \<longleftrightarrow> bit (v :: u64) 36"
proof -
  have "(0x1000000000 :: u64) = push_bit 36 1" by simp
  then show ?thesis by (metis and_exp_eq_0_iff_not_bit push_bit_of_1)
qed

lemma sint_64_of_int:
  assumes "- (2 ^ 40) \<le> i" "i < 2 ^ 40"
  shows "sint (word_of_int i :: u64) = i"
proof -
  have "sint (word_of_int i :: u64) = signed_take_bit 63 i"
    by (simp add: sint_sbintrunc')
  also have "\<dots> = i" using assms by (intro signed_take_bit_int_eq_self) auto
  finally show ?thesis .
qed

lemma adc_sign_signed:
  "sint (adc_sign (scast (w :: u32))) = (if sint w < 0 then sint w - 2 ^ 37 else sint w)"
proof -
  have r: "- (2 ^ 31) \<le> sint w" "sint w < 2 ^ 31"
    using sint_ge [of w] sint_lt [of w] by simp_all
  have b: "bit (scast w :: u64) 36 \<longleftrightarrow> sint w < 0"
  proof -
    have "bit w 31 \<longleftrightarrow> sint w < 0" using bit_last_iff [of w] by simp
    moreover have "bit (scast w :: u64) 36 \<longleftrightarrow> bit w 31" by (simp add: bit_signed_iff)
    ultimately show ?thesis by blast
  qed
  have "adc_sign (scast w) = (if sint w < 0 then 0xFFFFFFE000000000 + scast w else scast w)"
    by (simp only: adc_sign_def and_bit36 b)
  also have "\<dots> = (if sint w < 0 then scast w - 0x2000000000 else scast w)"
  proof -
    have "(0xFFFFFFE000000000 :: u64) = - 0x2000000000" by simp
    then show ?thesis by (metis add.commute diff_conv_add_uminus)
  qed
  also have "\<dots> = word_of_int (if sint w < 0 then sint w - 2 ^ 37 else sint w)"
    by simp
  finally have "adc_sign (scast w) = word_of_int (if sint w < 0 then sint w - 2 ^ 37 else sint w)" .
  then show ?thesis by (simp only:) (rule sint_64_of_int; use r in auto)
qed

text \<open>
  C40. The lock-in amplitudes. Three words \<open>a b c\<close> hold a 37-bit two's complement number.
  The code shifts \<open>a\<close> left by 22 in a 32-bit \<open>int\<close> before it widens the sum: for
  \<open>a < 0x200\<close> the value is right, for \<open>0x200 \<le> a < 0x400\<close> (still positive numbers)
  bit 31 is taken for the sign, and the stored value is too small by \<open>2^32 + 2^37\<close>.
\<close>

theorem adc_sine_cosine_range:
  assumes "a < 0x400" "b \<le> 0x7FFF" "c \<le> 0x7FFF"
  shows "sint (adc_sign (adc_word3 a b c)) =
    (if a < 0x200 then adc_value a b c else adc_value a b c - 2 ^ 32 - 2 ^ 37)"
proof -
  let ?n = "unat a * 2 ^ 22 + unat b * 2 ^ 7 + unat c div 2 ^ 8"
  have u: "unat a < 2 ^ 10" "unat b < 2 ^ 15" "unat c < 2 ^ 15"
    using assms by (simp_all add: word_le_nat_alt word_less_nat_alt)
  have n: "?n < 2 ^ 32" using u by simp
  have a: "?n < 2 ^ 31 \<longleftrightarrow> a < 0x200" using u by (auto simp: word_less_nat_alt)
  have v: "int ?n = adc_value a b c" by (simp only: adc_value_def zdiv_int uint_nat of_nat_add of_nat_mult of_nat_power of_nat_numeral)
  have "sint (of_nat ?n :: u32) = (if a < 0x200 then adc_value a b c else adc_value a b c - 2 ^ 32)"
    using sint_32_any [OF n] a v by simp
  moreover have "0 \<le> adc_value a b c" using v by (metis of_nat_0_le_iff)
  moreover have "adc_value a b c < 2 ^ 32" unfolding v [symmetric] using n
    by (simp only: of_nat_less_numeral_power_cancel_iff)
  ultimately show ?thesis unfolding adc_word3_nat adc_sign_signed by auto
qed

lemma adc_sine_cosine_range_witness:
  "sint (adc_sign (adc_word3 0x201 0x1234 0x5600)) =
    (if (0x201 :: u16) < 0x200 then adc_value 0x201 0x1234 0x5600
     else adc_value 0x201 0x1234 0x5600 - 2 ^ 32 - 2 ^ 37)"
  by (rule adc_sine_cosine_range) simp_all

end
