(* ===== verification/FzWire.thy ===== *)
theory FzWire
  imports FzPrelude
begin

section \<open>Bytes, words and length-framed records\<close>

text \<open>
  How the program moves data as bytes: the reinterpretation of a byte buffer as 16-bit words
  and back (\<open>reinterpret_cast\<close> in reader and parser, on the little-endian hosts of the
  experiment), and the length-framed record files of \<open>utils/FzProtobuf.h\<close> with the loop
  of \<open>utils/publish-fazia-pb.cpp\<close> that reads them back. The protobuf coder itself is not
  part of the repository: its effect on a message is a parameter.
\<close>

type_synonym bytes = "u8 list"

subsection \<open>Little endian\<close>

definition le16 :: "u16 \<Rightarrow> bytes" where
  "le16 w = [ucast w, ucast (drop_bit 8 w)]"

definition of_le16 :: "u8 \<Rightarrow> u8 \<Rightarrow> u16" where
  "of_le16 a b = or (ucast a) (push_bit 8 (ucast b))"

definition le32 :: "u32 \<Rightarrow> bytes" where
  "le32 w = [ucast w, ucast (drop_bit 8 w), ucast (drop_bit 16 w), ucast (drop_bit 24 w)]"

definition of_le32 :: "u8 \<Rightarrow> u8 \<Rightarrow> u8 \<Rightarrow> u8 \<Rightarrow> u32" where
  "of_le32 a b c d = or (or (ucast a) (push_bit 8 (ucast b))) (or (push_bit 16 (ucast c)) (push_bit 24 (ucast d)))"

lemma of_le16_le16 [simp]: "of_le16 (ucast w) (ucast (drop_bit 8 w)) = w"
  by (rule bit_word_eqI) (auto simp: of_le16_def bit_simps)

lemma of_le32_le32 [simp]:
  "of_le32 (ucast w) (ucast (drop_bit 8 w)) (ucast (drop_bit 16 w)) (ucast (drop_bit 24 w)) = w"
proof (rule bit_word_eqI)
  fix n assume n: "n < LENGTH(32)"
  show "bit (of_le32 (ucast w) (ucast (drop_bit 8 w)) (ucast (drop_bit 16 w)) (ucast (drop_bit 24 w))) n = bit w n"
    using n by (cases "24 \<le> n"; cases "16 \<le> n") (auto simp: of_le32_def bit_simps)
qed

lemma length_le32 [simp]: "length (le32 w) = 4"
  by (simp add: le32_def)

lemma length_le16 [simp]: "length (le16 w) = 2"
  by (simp add: le16_def)

subsection \<open>A buffer as an array of 16-bit words\<close>

text \<open>\<open>buf[i]\<close> of an \<open>unsigned short int *\<close> into a buffer of bytes; \<open>None\<close> when
  one of its bytes lies outside the buffer.\<close>

definition word_at :: "bytes \<Rightarrow> nat \<Rightarrow> u16 option" where
  "word_at buf i =
     (if 2 * i + 1 < length buf then Some (of_le16 (buf ! (2 * i)) (buf ! (2 * i + 1))) else None)"

fun words_of :: "bytes \<Rightarrow> u16 list" where
  "words_of (a # b # bs) = of_le16 a b # words_of bs"
| "words_of _ = []"

definition bytes_of :: "u16 list \<Rightarrow> bytes" where
  "bytes_of ws = concat (map le16 ws)"

lemma bytes_of_simps [simp]:
  "bytes_of [] = []"
  "bytes_of (w # ws) = ucast w # ucast (drop_bit 8 w) # bytes_of ws"
  by (simp_all add: bytes_of_def le16_def)

lemma bytes_of_append [simp]: "bytes_of (us @ vs) = bytes_of us @ bytes_of vs"
  by (simp add: bytes_of_def)

lemma length_bytes_of [simp]: "length (bytes_of ws) = 2 * length ws"
  by (induction ws) simp_all

lemma words_of_bytes_of [simp]: "words_of (bytes_of ws) = ws"
  by (induction ws) simp_all

lemma length_words_of [simp]: "length (words_of bs) = length bs div 2"
  by (induction bs rule: words_of.induct) simp_all

lemma nth_words_of: "i < length bs div 2 \<Longrightarrow> words_of bs ! i = of_le16 (bs ! (2 * i)) (bs ! (2 * i + 1))"
proof (induction bs arbitrary: i rule: words_of.induct)
  case (1 a b bs)
  then show ?case by (cases i) simp_all
qed simp_all

lemma word_at_words_of: "word_at buf i = nth_opt (words_of buf) i"
proof -
  have "2 * i + 1 < length buf \<longleftrightarrow> i < length buf div 2" by linarith
  then show ?thesis by (auto simp: word_at_def nth_opt_def nth_words_of)
qed

lemma words_of_append_even: "even (length as) \<Longrightarrow> words_of (as @ bs) = words_of as @ words_of bs"
  by (induction as rule: words_of.induct) simp_all

subsection \<open>Writing records\<close>

text \<open>\<open>WriteDataset(fstream, string)\<close>: what is appended to the file.\<close>

definition WriteDataset_str :: "bytes \<Rightarrow> bytes \<Rightarrow> bytes" where
  "WriteDataset_str output message =
     output @ le32 (of_nat (length message)) @ message"

text \<open>\<open>serialize_delimited\<close> and \<open>WriteDataset(fstream, FzEventSet)\<close>; \<open>ser\<close> is
  the coder, \<open>ByteSize\<close> the length of its output.\<close>

definition serialize_delimited :: "('m \<Rightarrow> bytes) \<Rightarrow> bytes \<Rightarrow> 'm \<Rightarrow> bytes" where
  "serialize_delimited ser stream message =
     stream @ le32 (of_nat (length (ser message))) @ ser message"

definition WriteDataset_msg :: "('m \<Rightarrow> bytes) \<Rightarrow> bytes \<Rightarrow> 'm \<Rightarrow> bytes" where
  "WriteDataset_msg ser output ev = serialize_delimited ser output ev"

lemma WriteDataset_same: "WriteDataset_msg ser out m = WriteDataset_str out (ser m)"
  by (simp add: WriteDataset_msg_def serialize_delimited_def WriteDataset_str_def)

subsection \<open>Reading records\<close>

text \<open>An input file stream: the bytes not read yet and whether a read hit the end.\<close>

record istream =
  is_rest :: bytes
  is_eof :: bool

definition is_good :: "istream \<Rightarrow> bool" where
  "is_good s = (\<not> is_eof s)"

text \<open>\<open>read(n)\<close> on the stream: up to \<open>n\<close> bytes, end of file is noticed when fewer
  are there; a stream that is not good delivers nothing.\<close>

definition is_read :: "nat \<Rightarrow> istream \<Rightarrow> bytes \<times> istream" where
  "is_read n s =
     (if is_eof s then ([], s)
      else (take n (is_rest s), \<lparr>is_rest = drop n (is_rest s), is_eof = length (is_rest s) < n\<rparr>))"

text \<open>\<open>ReadLittleEndian32(&messageSize)\<close> leaves \<open>messageSize = 0\<close> when there are not
  four bytes.\<close>

definition read_size :: "bytes \<Rightarrow> u32" where
  "read_size bs = (case bs of [a, b, c, d] \<Rightarrow> of_le32 a b c d | _ \<Rightarrow> 0)"

text \<open>
  \<open>parse_delimited\<close>: the returned flag, the stream and the message, \<open>old\<close> being the
  content of \<open>*message\<close> before. \<open>parse bs\<close> is what \<open>ParseFromCodedStream\<close> leaves in
  the message when limited to \<open>bs\<close>; its own result is ignored by the code.
\<close>

definition parse_delimited :: "(bytes \<Rightarrow> 'm) \<Rightarrow> 'm \<Rightarrow> istream \<Rightarrow> bool \<times> istream \<times> 'm" where
  "parse_delimited parse old stream =
     (let (hd4, s1) = is_read 4 stream;
          messageSize = read_size hd4
      in if messageSize \<le> 0 then (is_eof s1, s1, old)
         else let (body, s2) = is_read (unat messageSize) s1
              in (is_good s2, s2, parse body))"

lemma read_size_not4: "length bs \<noteq> 4 \<Longrightarrow> read_size bs = 0"
  by (auto simp: read_size_def split: list.splits)

lemma is_read_length:
  "length (is_rest (snd (is_read n s))) \<le> length (is_rest s)"
  by (simp add: is_read_def)

lemma parse_delimited_shorter:
  assumes "parse_delimited parse old s = (r, t, m)" "r = is_good t"
  shows "length (is_rest t) < length (is_rest s)"
proof -
  obtain h s1 where h: "is_read 4 s = (h, s1)" by (cases "is_read 4 s")
  have size0: "is_eof s1 = is_good t" if "read_size h = 0" "t = s1"
    using assms h that by (auto simp: parse_delimited_def Let_def)
  have "read_size h \<noteq> 0"
  proof
    assume z: "read_size h = 0"
    then have "t = s1" using assms h by (simp add: parse_delimited_def Let_def)
    with size0 z show False by (simp add: is_good_def)
  qed
  then have "length h = 4" using read_size_not4 by blast
  then have "length (is_rest s1) < length (is_rest s)"
    using h by (auto simp: is_read_def split: if_splits)
  moreover have "t = snd (is_read (unat (read_size h)) s1)"
    using assms h \<open>read_size h \<noteq> 0\<close> by (simp add: parse_delimited_def Let_def split: prod.splits)
  ultimately show ?thesis using is_read_length [of "unat (read_size h)" s1] by simp
qed

text \<open>The reading loop, \<open>while(parse_delimited(input, &EVSET) == input.good())\<close>: the
  messages its body sees.\<close>

function read_file :: "(bytes \<Rightarrow> 'm) \<Rightarrow> 'm \<Rightarrow> istream \<Rightarrow> 'm list" where
  "read_file parse old s =
     (case parse_delimited parse old s of
        (r, t, m) \<Rightarrow> if r = is_good t then m # read_file parse m t else [])"
  by pat_completeness auto
termination
  by (relation "measure (\<lambda>(parse, old, s). length (is_rest s))")
     (auto intro: parse_delimited_shorter [OF sym])

declare read_file.simps [simp del]

subsection \<open>Reading back what was written\<close>

lemma parse_delimited_frame:
  assumes "0 < length m" "length m < 2 ^ 32"
  shows "parse_delimited parse old \<lparr>is_rest = le32 (of_nat (length m)) @ m @ bs, is_eof = False\<rparr> =
    (True, \<lparr>is_rest = bs, is_eof = False\<rparr>, parse m)"
proof -
  have n: "unat (of_nat (length m) :: u32) = length m"
    using assms(2) by (simp add: unsigned_of_nat take_bit_nat_eq_self)
  then have "(of_nat (length m) :: u32) \<noteq> 0" using assms(1) by (metis unat_0 less_numeral_extra(3))
  then show ?thesis
    by (simp add: parse_delimited_def is_read_def read_size_def le32_def Let_def is_good_def n)
qed

lemma parse_delimited_end:
  "parse_delimited parse old \<lparr>is_rest = [], is_eof = False\<rparr> = (True, \<lparr>is_rest = [], is_eof = True\<rparr>, old)"
  by (simp add: parse_delimited_def is_read_def read_size_def Let_def)

definition records :: "bytes list \<Rightarrow> bytes" where
  "records ms = fold (\<lambda>m out. WriteDataset_str out m) ms []"

lemma fold_WriteDataset: "fold (\<lambda>m out. WriteDataset_str out m) ms out = out @ records ms"
proof (induction ms arbitrary: out)
  case (Cons m ms)
  show ?case
    by (simp add: records_def Cons.IH [of "WriteDataset_str out m"] Cons.IH [of "WriteDataset_str [] m"])
       (simp add: WriteDataset_str_def)
qed (simp add: records_def)

lemma records_Nil [simp]: "records [] = []"
  by (simp add: records_def)

lemma records_Cons: "records (m # ms) = le32 (of_nat (length m)) @ m @ records ms"
  using fold_WriteDataset [of ms "WriteDataset_str [] m"] by (simp add: records_def WriteDataset_str_def)

lemma records_snoc: "records (ms @ [m]) = WriteDataset_str (records ms) m"
  using fold_WriteDataset [of "[m]" "records ms"] by (simp add: records_def)

lemma read_records:
  assumes "\<forall>m\<in>set ms. 0 < length m \<and> length m < 2 ^ 32"
  shows "read_file parse old \<lparr>is_rest = records ms, is_eof = False\<rparr> = map parse ms"
  using assms
proof (induction ms arbitrary: old)
  case Nil
  show ?case by (subst read_file.simps) (simp add: parse_delimited_end is_good_def)
next
  case (Cons m ms)
  then show ?case
    by (subst read_file.simps) (simp add: records_Cons parse_delimited_frame is_good_def)
qed

text \<open>
  C17. Files round trip: the reading loop, run on a file made of the records of any list of
  messages that are not empty and shorter than 4 GB, sees exactly those messages in order
  and then stops.
\<close>

theorem read_file_records:
  assumes "\<forall>m\<in>set ms. 0 < length m \<and> length m < 2 ^ 32"
  shows "read_file parse old \<lparr>is_rest = fold (\<lambda>m out. WriteDataset_str out m) ms [], is_eof = False\<rparr> =
    map parse ms"
  using read_records [OF assms] by (simp add: records_def)

lemma read_file_records_witness:
  "read_file length 0 \<lparr>is_rest = fold (\<lambda>m out. WriteDataset_str out m) [[1, 2, 3], [7]] [], is_eof = False\<rparr> =
    map length [[1, 2, 3], [7 :: u8]]"
  by (rule read_file_records) simp

text \<open>
  A record of length zero hides the rest of the file from the reading loop: it ends
  there although the stream is good, and sees none of the records behind.
\<close>

theorem empty_record_ends_reading:
  "read_file parse old \<lparr>is_rest = WriteDataset_str [] [] @ bs, is_eof = False\<rparr> = []"
  by (subst read_file.simps)
     (simp add: parse_delimited_def is_read_def read_size_def Let_def WriteDataset_str_def le32_def
        of_le32_def is_good_def)

text \<open>
  A record cut short by the end of the file is not noticed: the loop hands out whatever
  the coder makes of the bytes that are there as one more message.
\<close>

theorem truncated_record_is_read:
  assumes "0 < n" "n < length m" "length m < 2 ^ 32"
  shows "read_file parse old \<lparr>is_rest = take (4 + n) (WriteDataset_str [] m), is_eof = False\<rparr> =
    [parse (take n m)]"
proof -
  have u: "unat (of_nat (length m) :: u32) = length m"
    using assms(3) by (simp add: unsigned_of_nat take_bit_nat_eq_self)
  then have z: "(of_nat (length m) :: u32) \<noteq> 0" using assms(1,2) by (metis unat_0 not_less_zero)
  have "take (4 + n) (WriteDataset_str [] m) = le32 (of_nat (length m)) @ take n m"
    by (simp add: WriteDataset_str_def)
  then have "parse_delimited parse old \<lparr>is_rest = take (4 + n) (WriteDataset_str [] m), is_eof = False\<rparr> =
      (False, \<lparr>is_rest = [], is_eof = True\<rparr>, parse (take n m))"
    using assms u z
    by (simp add: parse_delimited_def is_read_def read_size_def le32_def Let_def is_good_def)
  moreover have "read_file parse old' \<lparr>is_rest = [], is_eof = True\<rparr> = []" for old'
    by (subst read_file.simps)
       (simp add: parse_delimited_def is_read_def read_size_def Let_def is_good_def)
  ultimately show ?thesis by (subst read_file.simps) (simp add: is_good_def)
qed

lemma truncated_record_is_read_witness:
  "read_file length 0 \<lparr>is_rest = take (4 + 2) (WriteDataset_str [] [1, 2, 3 :: u8]), is_eof = False\<rparr> =
    [length (take 2 [1, 2, 3 :: u8])]"
  by (rule truncated_record_is_read) simp_all

end
