(* ===== verification/FzTools.thy ===== *)
theory FzTools
  imports FzFSM_Fields FzFSM_Words FzWire
begin

section \<open>The stand-alone tools\<close>

text \<open>
  \<open>utils/read-fazia-pb.cpp\<close> prints the events of a stored file and
  \<open>utils/publish-fazia-pb.cpp\<close> prints and publishes them. Standard output is the list of
  what is inserted into \<open>cout\<close>; a name looked up behind the end of its table is the error
  \<open>Table_overrun\<close>. The protobuf coder is the parameter \<open>parse\<close> (and \<open>ser\<close>): what
  \<open>ParseFromCodedStream\<close> leaves in the event set.
\<close>

subsection \<open>Standard output\<close>

datatype outp = Txt string | Tabs nat | Num int | Real f32 | Hex u64 | Endl

datatype tool_error = Table_overrun

type_synonym tool_stmt = "(tool_error, outp list) stmt"

definition cout :: "outp list \<Rightarrow> tool_stmt" where
  "cout os s = Inr (s @ os)"

definition cout_name :: "string list \<Rightarrow> nat \<Rightarrow> tool_stmt" where
  "cout_name names i s = (case nth_opt names i of None \<Rightarrow> Inl Table_overrun | Some x \<Rightarrow> cout [Txt x] s)"

definition flag :: "bool option \<Rightarrow> outp" where
  "flag b = Num (of_bool (get_or False b))"

definition num :: "u32 option \<Rightarrow> outp" where
  "num v = Num (uint (get_or 0 v))"

definition rt_FzFec_str :: "string list" where
  "rt_FzFec_str = [''FEC#0'', ''FEC#1'', ''FEC#2'', ''FEC#3'', ''FEC#4'', ''FEC#5'', ''FEC#6'',
     ''FEC#7'', '''', '''', '''', '''', '''', '''', '''', ''ADC'']"

definition rt_FzDataType_str :: "string list" where
  "rt_FzDataType_str = [''QH1'', ''I1'', ''QL1'', ''Q2'', ''I2'', ''Q3'', ''ADC'', ''UNK'']"

definition rt_FzTelescope_str :: "string list" where
  "rt_FzTelescope_str = [''A'', ''B'']"

definition rt_FzDetector_str :: "string list" where
  "rt_FzDetector_str = [''Si1'', ''Si2'', ''CsI'']"

definition FzEnergyType_str :: "string list" where
  "FzEnergyType_str = [''slow'', ''fast'']"

subsection \<open>Samples\<close>

text \<open>\<open>supp\<close>: the sample is an \<open>int32\<close>, the mask an unsigned number of 32 bits.\<close>

definition supp_of :: "FzDataType \<Rightarrow> u32 \<Rightarrow> int" where
  "supp_of t v = (if t \<noteq> ADC then (if sint v > 8191 then sint (v OR 0xFFFFC000) else sint v) else sint v)"

text \<open>The loop over the samples, from sample \<open>n\<close> on.\<close>

fun print_samples :: "FzDataType \<Rightarrow> nat \<Rightarrow> u32 list \<Rightarrow> tool_stmt" where
  "print_samples t n [] = skip"
| "print_samples t n (v # vs) = seqE [
     if n mod 16 = 0 \<and> n \<noteq> 0 then cout [Endl, Tabs 4, Txt ''              ''] else skip,
     cout [Num (supp_of t v), Txt '', ''],
     print_samples t (Suc n) vs]"

subsection \<open>read-fazia-pb\<close>

fun print_energies :: "nat \<Rightarrow> u32 list \<Rightarrow> tool_stmt" where
  "print_energies e [] = skip"
| "print_energies e (v # vs) = seqE [
     cout [Txt ''TYPE: ''], cout_name FzEnergyType_str e, cout [Txt '' - ''],
     cout [Txt ''VALUE: '', Num (uint v), Txt '', ''],
     cout [Endl, Tabs 5],
     print_energies (Suc e) vs]"

definition print_waveform :: "FzData \<Rightarrow> Waveform \<Rightarrow> tool_stmt" where
  "print_waveform rdata rwf = seqE [
     cout [Txt ''PRETRIG>> VALUE: '', num (wf_pretrig rwf), Endl, Tabs 5],
     if get_or QH1 (d_type rdata) = ADC
     then cout [Txt ''SINE: '', Num (sint (get_or 0 (d_sine rdata))), Txt '' - COSINE: '',
            Num (sint (get_or 0 (d_cosine rdata))), Endl, Tabs 5] else skip,
     cout [Txt ''WAVEFORM['', Num (int (length (wf_sample rwf))), Txt '']>>''],
     if get_or False (wf_len_error rwf) then cout [Txt '' - EFLAGS: [L]''] else skip,
     cout [Endl, Tabs 4, Txt ''              ''],
     print_samples (get_or QH1 (d_type rdata)) 0 (wf_sample rwf),
     cout [Endl]]"

definition print_data :: "FzData \<Rightarrow> tool_stmt" where
  "print_data rdata = seqE [
     cout [Tabs 4, Txt ''DATATYPE: ''],
     cout_name rt_FzDataType_str (FzDataType_value (get_or QH1 (d_type rdata))),
     cout [Endl, Tabs 5],
     if d_energy rdata = None \<and> d_waveform rdata = None then cout [Txt ''[NO DATA]'', Endl]
     else seqE [
       (case d_baseline rdata of None \<Rightarrow> skip
        | Some b \<Rightarrow> cout [Txt ''BASELINE>> VALUE: '', Real b, Endl, Tabs 5]),
       (case d_energy rdata of None \<Rightarrow> skip
        | Some ren \<Rightarrow> seqE [cout [Txt ''ENERGY>> ''], print_energies 0 (en_value ren)]),
       (case d_waveform rdata of None \<Rightarrow> skip | Some rwf \<Rightarrow> print_waveform rdata rwf),
       cout [Endl]]]"

definition print_err :: tool_stmt where
  "print_err = cout [Txt ''<ERR>'', Endl]"

definition print_hit :: "FzHit \<Rightarrow> tool_stmt" where
  "print_hit rdhit = seqE [
     cout [Tabs 3, Txt ''EC: '', num (h_ec rdhit)],
     cout [Txt '' - TEL: ''],
     (case h_telid rdhit of None \<Rightarrow> print_err | Some telid \<Rightarrow> seqE [
        cout_name rt_FzTelescope_str telid,
        cout [Txt '' - DET: ''],
        (case h_detid rdhit of None \<Rightarrow> print_err | Some detid \<Rightarrow> seqE [
           cout_name rt_FzDetector_str detid,
           cout [Txt '' - FEE: ''],
           (case h_feeid rdhit of None \<Rightarrow> print_err | Some feeid \<Rightarrow> seqE [
              cout_name rt_FzFec_str feeid,
              cout [Txt '' - GTTAG: '', num (h_gttag rdhit)],
              cout [Txt '' - DETTAG: '', num (h_dettag rdhit)],
              cout [Txt '' - TRIGPAT: '', num (h_trigpat rdhit), Endl],
              seqE (map print_data (h_data rdhit))])])])]"

text \<open>
  The loops over blocks and cards and the trigger information are the same text in both
  tools but for the base of the values; the trigger information stands inside the loop over
  the blocks.
\<close>

definition print_fee :: "(FzHit \<Rightarrow> tool_stmt) \<Rightarrow> FzFee \<Rightarrow> tool_stmt" where
  "print_fee hit rdfee = seqE [
     cout [Tabs 2], cout_name rt_FzFec_str (get_or FEC0 (f_feeid rdfee)),
     cout [Txt '' - LEN_ERR: '', flag (f_len_error rdfee), Txt '' - CRC_ERR: '',
       flag (f_crc_error rdfee), Endl],
     seqE (map hit (f_hit rdfee))]"

definition print_trinfo :: "bool \<Rightarrow> FzTrigInfo \<Rightarrow> tool_stmt" where
  "print_trinfo hex ti = cout [Txt ''TRIG ID: '', num (ti_id ti), Tabs 1, Txt ''ATTR: '',
     Txt (get_or [] (ti_attr ti)), Tabs 1, Txt ''VALUE: '',
     if hex then Hex (get_or 0 (ti_value ti)) else Num (uint (get_or 0 (ti_value ti))), Endl]"

definition print_block :: "bool \<Rightarrow> (FzHit \<Rightarrow> tool_stmt) \<Rightarrow> FzEvent \<Rightarrow> FzBlock \<Rightarrow> tool_stmt" where
  "print_block hex hit msg rdblk = seqE [
     if b_len_error rdblk \<noteq> None \<and> b_crc_error rdblk \<noteq> None
     then cout [Tabs 1, Txt ''BLKID: '', num (b_blkid rdblk), Txt '' - LEN_ERR: '',
            flag (b_len_error rdblk), Txt '' - CRC_ERR: '', flag (b_crc_error rdblk), Endl]
     else cout [Tabs 1, Txt ''BLKID: '', num (b_blkid rdblk), Endl],
     seqE (map (print_fee hit) (b_fee rdblk)),
     seqE (map (print_trinfo hex) (e_trinfo msg))]"

definition print_with :: "bool \<Rightarrow> (FzHit \<Rightarrow> tool_stmt) \<Rightarrow> FzEvent \<Rightarrow> tool_stmt" where
  "print_with hex hit msg = seqE [
     cout [Txt ''EC: '', num (e_ec msg), Endl],
     seqE (map (print_block hex hit msg) (e_block msg))]"

definition print_event :: "FzEvent \<Rightarrow> tool_stmt" where
  "print_event = print_with True print_hit"

text \<open>\<open>main\<close>: the file name, and the events of every set the reading loop sees.\<close>

definition read_fazia_pb :: "(bytes \<Rightarrow> FzEvent list) \<Rightarrow> string \<Rightarrow> bytes \<Rightarrow> tool_error + outp list" where
  "read_fazia_pb parse filename file =
     seqE [cout [Txt ''open file: '', Txt filename, Endl],
           seqE (map (\<lambda>EVSET. seqE (map print_event EVSET))
             (read_file parse [] \<lparr>is_rest = file, is_eof = False\<rparr>))] []"


subsection \<open>publish-fazia-pb\<close>

definition pub_waveform :: "FzData \<Rightarrow> Waveform \<Rightarrow> tool_stmt" where
  "pub_waveform rdata rwf = seqE [
     cout [Txt '' - PRETRIG: '', num (wf_pretrig rwf)],
     if get_or QH1 (d_type rdata) = ADC
     then cout [Txt '' - SINE: '', Num (sint (get_or 0 (d_sine rdata))), Txt '' - COSINE: '',
            Num (sint (get_or 0 (d_cosine rdata)))] else skip,
     cout [Txt '' - WAVEFORM: '', Txt '' - LEN_ERR: '', flag (wf_len_error rwf), Txt '' len = '',
       Num (int (length (wf_sample rwf))), Endl],
     cout [Endl, Tabs 4, Txt ''              ''],
     print_samples (get_or QH1 (d_type rdata)) 0 (wf_sample rwf)]"

definition pub_data :: "FzData \<Rightarrow> tool_stmt" where
  "pub_data rdata = seqE [
     cout [Tabs 4, Txt ''DATATYPE: ''],
     cout_name rt_FzDataType_str (FzDataType_value (get_or QH1 (d_type rdata))),
     if d_energy rdata = None \<and> d_waveform rdata = None then cout [Txt '' [NO DATA]'', Endl]
     else seqE [
       (case d_energy rdata of None \<Rightarrow> skip
        | Some ren \<Rightarrow> seqE [
            cout [Txt '' - ENERGY: ''],
            seqE (map (\<lambda>v. cout [Num (uint v), Txt '', '']) (en_value ren)),
            cout [Txt '' - LEN_ERR: '', flag (en_len_error ren)]]),
       (case d_waveform rdata of None \<Rightarrow> skip | Some rwf \<Rightarrow> pub_waveform rdata rwf),
       cout [Endl]]]"

definition pub_hit :: "FzHit \<Rightarrow> tool_stmt" where
  "pub_hit rdhit = seqE [
     cout [Tabs 3, Txt ''EC: '', num (h_ec rdhit)],
     cout [Txt '' - TEL: ''],
     (case h_telid rdhit of None \<Rightarrow> print_err | Some telid \<Rightarrow> seqE [
        cout_name rt_FzTelescope_str telid,
        cout [Txt '' - DET: ''],
        (case h_detid rdhit of None \<Rightarrow> print_err | Some detid \<Rightarrow> seqE [
           cout_name rt_FzDetector_str detid,
           cout [Txt '' - FEE: ''],
           (case h_feeid rdhit of None \<Rightarrow> print_err | Some feeid \<Rightarrow> seqE [
              cout_name rt_FzFec_str feeid,
              cout [Txt '' - GTTAG: '', num (h_gttag rdhit)],
              cout [Txt '' - DETTAG: '', num (h_dettag rdhit), Endl],
              seqE (map pub_data (h_data rdhit))])])])]"

text \<open>One turn of the reading loop: print, encode, publish. The state is the output and what was sent.\<close>

definition publish_set :: "(FzEvent list \<Rightarrow> bytes) \<Rightarrow> FzEvent list \<Rightarrow> (tool_error, outp list \<times> bytes list) stmt" where
  "publish_set ser EVSET os = bindE (seqE (map (print_with False pub_hit) EVSET) (fst os)) (\<lambda>printed.
     let str = ser EVSET in
     Inr (printed @ [Txt ''I: event size '', Num (int (length str)), Endl, Txt ''I: press enter'', Endl],
       snd os @ [str]))"

definition publish_fazia_pb ::
  "(bytes \<Rightarrow> FzEvent list) \<Rightarrow> (FzEvent list \<Rightarrow> bytes) \<Rightarrow> string \<Rightarrow> bytes \<Rightarrow> tool_error + outp list \<times> bytes list" where
  "publish_fazia_pb parse ser filename file =
     seqE (map (publish_set ser) (read_file parse [] \<lparr>is_rest = file, is_eof = False\<rparr>))
       ([Txt ''open file: '', Txt filename, Endl], [])"

subsection \<open>When printing fails\<close>

text \<open>
  \<open>ends B f\<close>: whatever was printed before, \<open>f\<close> stops with a table overrun if \<open>B\<close> and
  goes on if not.
\<close>

named_theorems ends \<open>which statements fail\<close>

definition ends :: "bool \<Rightarrow> tool_stmt \<Rightarrow> bool" where
  "ends B f \<longleftrightarrow> (\<forall>s. if B then f s = Inl Table_overrun else \<exists>t. f s = Inr t)"

lemma ends_cout [ends]: "ends False (cout os)" "ends False skip"
  by (simp_all add: ends_def cout_def skip_def)

lemma ends_name [ends]: "ends (length names \<le> i) (cout_name names i)"
  by (simp add: ends_def cout_name_def nth_opt_def cout_def)

lemma ends_Nil [ends]: "ends False (seqE [])"
  by (simp add: ends_def)

lemma ends_Cons [ends]: "ends A f \<Longrightarrow> ends B (seqE fs) \<Longrightarrow> ends (A \<or> B) (seqE (f # fs))"
proof -
  assume a: "ends A f" and b: "ends B (seqE fs)"
  have "if A \<or> B then seqE (f # fs) s = Inl Table_overrun else \<exists>t. seqE (f # fs) s = Inr t" for s
  proof (cases A)
    case True
    with a show ?thesis by (simp add: ends_def)
  next
    case False
    with a obtain t where "f s = Inr t" by (auto simp: ends_def)
    with b False show ?thesis by (simp add: ends_def)
  qed
  then show "ends (A \<or> B) (seqE (f # fs))" unfolding ends_def by blast
qed

lemma ends_map: "(\<And>x. x \<in> set xs \<Longrightarrow> ends (P x) (f x)) \<Longrightarrow> ends (\<exists>x\<in>set xs. P x) (seqE (map f xs))"
proof (induction xs)
  case (Cons x xs)
  then have "ends (P x \<or> (\<exists>x\<in>set xs. P x)) (seqE (f x # map f xs))" by (intro ends_Cons) simp_all
  then show ?case by (simp del: seqE.simps)
qed (simp add: ends)

lemma ends_if [ends]: "ends A f \<Longrightarrow> ends B g \<Longrightarrow> ends (if c then A else B) (if c then f else g)"
  by simp

lemma ends_option [ends]:
  "ends A f \<Longrightarrow> (\<And>y. ends (P y) (g y)) \<Longrightarrow> ends (case x of None \<Rightarrow> A | Some y \<Rightarrow> P y) (case x of None \<Rightarrow> f | Some y \<Rightarrow> g y)"
  by (simp split: option.split)

lemma ends_iff: "ends A f \<Longrightarrow> A = B \<Longrightarrow> ends B f"
  by simp

lemma ends_false: "ends A f \<Longrightarrow> \<not> A \<Longrightarrow> ends False f"
  by simp

lemma ends_samples [ends]: "ends False (print_samples t n vs)"
proof (induction vs arbitrary: n)
  case (Cons v vs)
  show ?case unfolding print_samples.simps
    by (rule ends_false, (rule ends Cons)+) simp
qed (simp add: ends)

lemma ends_energies [ends]: "ends (vs \<noteq> [] \<and> 2 < e + length vs) (print_energies e vs)"
proof (induction vs arbitrary: e)
  case (Cons v vs)
  show ?case unfolding print_energies.simps
    by (rule ends_iff, (rule ends Cons)+) (auto simp: FzEnergyType_str_def)
qed (simp add: ends)

lemma length_names:
  "length rt_FzFec_str = 16" "length rt_FzDataType_str = 8" "length rt_FzTelescope_str = 2"
  "length rt_FzDetector_str = 3" "length FzEnergyType_str = 2"
  by (simp_all add: rt_FzFec_str_def rt_FzDataType_str_def rt_FzTelescope_str_def rt_FzDetector_str_def FzEnergyType_str_def)

definition overruns_data :: "FzData \<Rightarrow> bool" where
  "overruns_data d \<longleftrightarrow> (\<exists>x. d_energy d = Some x \<and> 2 < length (en_value x))"

lemma FzDataType_value_less [simp]: "FzDataType_value t < 8" "\<not> 8 \<le> FzDataType_value t"
  by (simp_all add: FzDataType_value_def split: FzDataType.split)

lemma ends_data: "ends (overruns_data d) (print_data d)"
  unfolding print_data_def print_waveform_def
  by (rule ends_iff, (rule ends)+)
     (auto simp: overruns_data_def length_names not_le split: option.splits)

definition overruns_hit :: "FzHit \<Rightarrow> bool" where
  "overruns_hit h \<longleftrightarrow> (case h_telid h of None \<Rightarrow> False | Some t \<Rightarrow> 2 \<le> t \<or>
     (case h_detid h of None \<Rightarrow> False | Some d \<Rightarrow> 3 \<le> d \<or>
     (case h_feeid h of None \<Rightarrow> False | Some i \<Rightarrow> 16 \<le> i \<or> (\<exists>d\<in>set (h_data h). overruns_data d))))"

lemma ends_hit: "ends (overruns_hit h) (print_hit h)"
  unfolding print_hit_def print_err_def
  by (rule ends_iff, (rule ends ends_map ends_data)+)
     (auto simp: overruns_hit_def length_names split: option.splits)

lemma ends_event:
  "ends (\<exists>b\<in>set (e_block m). \<exists>f\<in>set (b_fee b). 16 \<le> get_or FEC0 (f_feeid f) \<or> (\<exists>h\<in>set (f_hit f). overruns_hit h))
     (print_event m)"
  unfolding print_event_def print_with_def print_block_def print_fee_def print_trinfo_def
  by (rule ends_iff, (rule ends ends_map ends_hit)+) (auto simp: length_names)


subsection \<open>The events of the parser, printed\<close>

lemma overruns_hit_read:
  assumes "hit_complete h"
  shows "overruns_hit (hit_read h) \<longleftrightarrow> h_detid h = Some UNKD \<or>
    pred_option (\<lambda>i. i < UNKD) (h_detid h) \<and> pred_option FzFec_IsValid (h_feeid h) \<and> (\<exists>d\<in>set (h_data h). overruns_data d)"
proof -
  from assms obtain t i d where h: "h_telid h = Some t" "t \<le> Tel_B" "h_feeid h = Some i" "i \<le> ADCF" "h_detid h = Some d"
    by (auto simp: hit_complete_def hit_set_def opt_ex_iff)
  then show ?thesis
    by (auto simp: overruns_hit_def hit_read_def known_def FzTelescope_IsValid_def FzDetector_IsValid_def
        Tel_B_def ADCF_def UNKD_def FzFec_IsValid_def)
qed

lemma fee_read_index:
  "fee_complete f \<Longrightarrow> get_or FEC0 (f_feeid (fee_read f)) < 16"
  by (auto simp: fee_complete_def fee_set_def opt_ex_iff fee_read_def known_def FEC0_def ADCF_def)

text \<open>
  C19. The reading tool stays inside its tables on the events the parser closes, whole or
  damaged, with two exceptions: a hit whose detector field is the enumerator for an unknown
  detector, which the table of detector names does not have, and a printed datum with more
  than two energies.
\<close>

theorem read_tool_overruns:
  assumes "\<forall>x\<in>set (butlast w). getword_id x \<noteq> 12" "fsm_process (fsm_import w s) = Some (Inr (PARSE_OK, t))"
  shows "print_event (event_read (ev t)) out0 = Inl Table_overrun \<longleftrightarrow>
    (\<exists>b\<in>set (e_block (ev t)). \<exists>f\<in>set (b_fee b). \<exists>h\<in>set (f_hit f). h_detid h = Some UNKD \<or>
      pred_option (\<lambda>i. i < UNKD) (h_detid h) \<and> pred_option FzFec_IsValid (h_feeid h) \<and>
      (\<exists>d\<in>set (h_data h). \<exists>x. d_energy d = Some x \<and> 2 < length (en_value x)))"
proof -
  have c: "block_complete b" if "b \<in> set (e_block (ev t))" for b
    using closed_event_complete [OF assms] that by blast
  have fee: "(16 \<le> get_or FEC0 (f_feeid (fee_read f)) \<or> (\<exists>h\<in>set (f_hit (fee_read f)). overruns_hit h)) \<longleftrightarrow>
      (\<exists>h\<in>set (f_hit f). overruns_hit (hit_read h))" if "fee_complete f" for f
    using fee_read_index [OF that] by (auto simp: fee_read_def)
  have "print_event (event_read (ev t)) out0 = Inl Table_overrun \<longleftrightarrow>
      (\<exists>b\<in>set (e_block (ev t)). \<exists>f\<in>set (b_fee b).
        16 \<le> get_or FEC0 (f_feeid (fee_read f)) \<or> (\<exists>h\<in>set (f_hit (fee_read f)). overruns_hit h))"
    using ends_event [of "event_read (ev t)", unfolded ends_def, rule_format, of out0]
    by (auto simp: event_read_def split: if_splits)
  also have "\<dots> \<longleftrightarrow> (\<exists>b\<in>set (e_block (ev t)). \<exists>f\<in>set (b_fee b). \<exists>h\<in>set (f_hit f). overruns_hit (hit_read h))"
    using c fee by (simp add: block_complete_def)
  finally show ?thesis
    using c overruns_hit_read by (simp add: block_complete_def fee_complete_def overruns_data_def)
qed

text \<open>An event with a datum header whose detector bits are 011.\<close>

definition unknown_detector_event :: "u16 list" where
  "unknown_detector_event = [0xE001, 0x9800, 0x0010, 0x0001, 0x9060, 0x7004, 1, 5, 0x7005, 3, 1, 2, 3,
     0xA00D, 0xB9E0, 0xE001, 0xC003, 0xA013, 0xDFB0, 0xC805]"

lemma unknown_detector_run:
  "case fsm_process (fsm_import unknown_detector_event (fsm_init FMT_TAG fsm_zero)) of
     Some (Inr (r, t)) \<Rightarrow> r = PARSE_OK \<and> \<not> event_is_empty t \<and>
       map (map (map h_detid \<circ> f_hit) \<circ> b_fee) (e_block (ev t)) = [[[Some UNKD]]] | _ \<Rightarrow> False"
  by code_simp

lemma read_tool_overruns_witness:
  "\<exists>t. fsm_process (fsm_import unknown_detector_event (fsm_init FMT_TAG fsm_zero)) = Some (Inr (PARSE_OK, t)) \<and>
     print_event (event_read (ev t)) [] = Inl Table_overrun"
proof -
  let ?s = "fsm_init FMT_TAG fsm_zero"
  from unknown_detector_run obtain t where t: "fsm_process (fsm_import unknown_detector_event ?s) = Some (Inr (PARSE_OK, t))"
    "map (map (map h_detid \<circ> f_hit) \<circ> b_fee) (e_block (ev t)) = [[[Some UNKD]]]"
    by (auto split: option.splits sum.splits)
  have "\<forall>x\<in>set (butlast unknown_detector_event). getword_id x \<noteq> 12" by code_simp
  from read_tool_overruns [OF this t(1), of "[]"] t(2) have "print_event (event_read (ev t)) [] = Inl Table_overrun"
    by auto
  with t(1) show ?thesis by blast
qed

subsection \<open>From the writer's file to the screen\<close>

text \<open>
  What is stored is what is shown: run on a file with the records of any events, with a
  coder whose encoding of a one-event set is not empty, below 4 GB and decoded to the event as
  readers see it, the tool prints exactly these events, each once and in order.
\<close>

theorem read_tool_prints_file:
  assumes "\<forall>e\<in>set es. 0 < length (ser [e]) \<and> length (ser [e]) < 2 ^ 32 \<and> parse (ser [e]) = [event_read e]"
  shows "read_fazia_pb parse name (fold (\<lambda>m out. WriteDataset_str out m) (map (\<lambda>e. ser [e]) es) []) =
    seqE (map (\<lambda>e. print_event (event_read e)) es) [Txt ''open file: '', Txt name, Endl]"
proof -
  have "read_file parse [] \<lparr>is_rest = records (map (\<lambda>e. ser [e]) es), is_eof = False\<rparr> = map (\<lambda>e. [event_read e]) es"
    using assms by (subst read_records) auto
  moreover have "seqE (map (\<lambda>e. seqE (map print_event [event_read e])) es) = seqE (map (\<lambda>e. print_event (event_read e)) es)"
  proof (rule arg_cong [where f = seqE], rule map_cong [OF refl])
    show "seqE (map print_event [event_read e]) = print_event (event_read e)" for e
      by (rule ext) (simp add: bindE_def split: sum.split)
  qed
  ultimately show ?thesis
    by (simp add: read_fazia_pb_def records_def cout_def o_def bindE_def split: sum.split)
qed

lemma read_tool_prints_file_witness:
  "read_fazia_pb (\<lambda>bs. if bs = [7] then [event_read new_FzEvent] else []) ''f''
     (fold (\<lambda>m out. WriteDataset_str out m) [[7], [7]] []) =
   Inr [Txt ''open file: '', Txt ''f'', Endl, Txt ''EC: '', Num 0, Endl, Txt ''EC: '', Num 0, Endl]"
  using read_tool_prints_file [of "[new_FzEvent, new_FzEvent]" "\<lambda>_. [7]" "\<lambda>bs. if bs = [7] then [event_read new_FzEvent] else []" "''f''"]
  by (simp add: print_event_def print_with_def event_read_def new_FzEvent_def cout_def num_def)

text \<open>
  A sample of 14 bits is shown as the two's complement number it stands for.
\<close>

theorem sample_sign:
  assumes "v < 0x4000" "t \<noteq> ADC"
  shows "supp_of t v = (if v < 0x2000 then uint v else uint v - 0x4000)"
proof -
  from assms(1) have u: "uint v < 0x4000" by (simp add: word_less_def)
  have s: "sint w = (if uint w < 2 ^ 31 then uint w else uint w - 2 ^ 32)" for w :: u32
  proof -
    have "unat w < 2 ^ 32" using unsigned_less [of w] by simp
    moreover have "unat w < 2 ^ 31 \<longleftrightarrow> uint w < 2 ^ 31" 
    proof -
      have "int n < 2 ^ 31 \<longleftrightarrow> n < 2 ^ 31" for n by simp
      from this [of "unat w"] show ?thesis by simp
    qed
    ultimately show ?thesis using sint_32_any [of "unat w"] by simp
  qed
  have v: "take_bit 14 v = v" using u by (simp add: take_bit_eq_mod word_uint_eq_iff uint_mod)
  have m: "(0xFFFFC000 :: u32) = push_bit 14 (mask 18)" by (simp add: mask_eq_exp_minus_1)
  have "take_bit 14 v AND push_bit 14 (mask 18) = 0"
    by (rule bit_word_eqI) (auto simp: bit_simps)
  with v m have "v AND 0xFFFFC000 = 0" by simp
  with word_plus_and_or [of v "0xFFFFC000"] have o: "v OR 0xFFFFC000 = v + 0xFFFFC000" by simp
  have p: "uint (v + 0xFFFFC000) = uint v + 0xFFFFC000"
    using u by (simp add: uint_word_ariths)
  show ?thesis
    using assms u by (simp add: supp_of_def s o p word_less_def)
qed

end
