(* ===== verification/FzRC.thy ===== *)
theory FzRC
  imports FzPrelude
begin

section \<open>Run control: the state machine shared by node and controller\<close>

text \<open>
  \<open>rc/RCFSM.h\<close> and \<open>rc/RCFSM.cpp\<close> with the run-control types of
  \<open>utils/FzTypedef.h\<close>: the transition table, \<open>process\<close> and \<open>try_process\<close>, the
  allowed steps as a relation (\<open>rc_step\<close>), and what a history of commands implies about
  the state. The locale \<open>rc_component\<close> is the contract of \<open>set_rcstate\<close> that the
  node manager relies on; reader, parser and writer interpret it.
\<close>

subsection \<open>Commands, states, labels\<close>

datatype RCcommand = Configure | Start | Stop | Reset

datatype RCstate = IDLE | READY | RUNNING | PAUSED

datatype RCtransition = RCERROR | RCOK

primrec cmd_int :: "RCcommand \<Rightarrow> nat" where
  "cmd_int Configure = 0"
| "cmd_int Start = 1"
| "cmd_int Stop = 2"
| "cmd_int Reset = 3"

primrec state_int :: "RCstate \<Rightarrow> nat" where
  "state_int IDLE = 0"
| "state_int READY = 1"
| "state_int RUNNING = 2"
| "state_int PAUSED = 3"

definition state_labels :: "string list" where
  "state_labels = [''IDLE'', ''READY'', ''RUNNING'', ''PAUSED'']"

definition state_labels_l :: "string list" where
  "state_labels_l = [''idle'', ''ready'', ''running'', ''paused'']"

definition cmd_labels :: "string list" where
  "cmd_labels = [''configure'', ''start'', ''stop'', ''reset'']"

definition state_label :: "RCstate \<Rightarrow> string" where
  "state_label s = state_labels ! state_int s"

definition state_label_l :: "RCstate \<Rightarrow> string" where
  "state_label_l s = state_labels_l ! state_int s"

lemma state_label_simps [simp]:
  "state_label IDLE = ''IDLE''" "state_label READY = ''READY''"
  "state_label RUNNING = ''RUNNING''" "state_label PAUSED = ''PAUSED''"
  "state_label_l IDLE = ''idle''" "state_label_l READY = ''ready''"
  "state_label_l RUNNING = ''running''" "state_label_l PAUSED = ''paused''"
  by (simp_all add: state_label_def state_labels_def state_label_l_def state_labels_l_def)

subsection \<open>The machine\<close>

definition RCCOMMAND_NUM :: nat where
  "RCCOMMAND_NUM = 4"

definition RCSTATES_NUM :: nat where
  "RCSTATES_NUM = 4"

definition rc_ttable :: "nat list list" where
  "rc_ttable = [
     [1, 0, 0, 7],
     [0, 3, 0, 8],
     [0, 0, 5, 0],
     [2, 4, 6, 9]]"

record RCFSM =
  rc_curstate :: RCstate
  rc_lasterr :: RCtransition

definition new_RCFSM :: RCFSM where
  "new_RCFSM = \<lparr>rc_curstate = IDLE, rc_lasterr = RCOK\<rparr>"

definition rc_trans_id :: "RCcommand \<Rightarrow> RCstate \<Rightarrow> nat" where
  "rc_trans_id cmd st = rc_ttable ! cmd_int cmd ! state_int st"

definition rc_try_process :: "RCcommand \<Rightarrow> RCFSM \<Rightarrow> RCtransition" where
  "rc_try_process cmd m =
     (if cmd_int cmd > RCCOMMAND_NUM - 1 then RCERROR
      else if rc_trans_id cmd (rc_curstate m) = 0 then RCERROR else RCOK)"

text \<open>The \<open>switch\<close> of \<open>process\<close>: the new error code and the new state.\<close>

definition rc_switch :: "nat \<Rightarrow> RCstate \<Rightarrow> RCtransition \<times> RCstate" where
  "rc_switch trans_id st =
     (if trans_id = 0 then (RCERROR, st)
      else if trans_id = 1 then (RCOK, READY)
      else if trans_id = 2 then (RCOK, IDLE)
      else if trans_id = 3 then (RCOK, RUNNING)
      else if trans_id = 4 then (RCOK, IDLE)
      else if trans_id = 5 then (RCOK, PAUSED)
      else if trans_id = 6 then (RCOK, IDLE)
      else if trans_id = 7 then (RCOK, READY)
      else if trans_id = 8 then (RCOK, RUNNING)
      else if trans_id = 9 then (RCOK, IDLE)
      else (RCOK, st))"

definition rc_process :: "RCcommand \<Rightarrow> RCFSM \<Rightarrow> RCtransition \<times> RCFSM" where
  "rc_process cmd m =
     (if cmd_int cmd > RCCOMMAND_NUM - 1 then (RCERROR, m\<lparr>rc_lasterr := RCERROR\<rparr>)
      else let (trans_err, st) = rc_switch (rc_trans_id cmd (rc_curstate m)) (rc_curstate m)
           in (trans_err, m\<lparr>rc_curstate := st, rc_lasterr := trans_err\<rparr>))"

definition rc_state :: "RCFSM \<Rightarrow> RCstate" where
  "rc_state m = rc_curstate m"

definition rc_error :: "RCFSM \<Rightarrow> RCtransition" where
  "rc_error m = rc_lasterr m"

lemma rc_trans_id_simps [simp]:
  "rc_trans_id Configure IDLE = 1" "rc_trans_id Configure READY = 0"
  "rc_trans_id Configure RUNNING = 0" "rc_trans_id Configure PAUSED = 7"
  "rc_trans_id Start IDLE = 0" "rc_trans_id Start READY = 3"
  "rc_trans_id Start RUNNING = 0" "rc_trans_id Start PAUSED = 8"
  "rc_trans_id Stop IDLE = 0" "rc_trans_id Stop READY = 0"
  "rc_trans_id Stop RUNNING = 5" "rc_trans_id Stop PAUSED = 0"
  "rc_trans_id Reset IDLE = 2" "rc_trans_id Reset READY = 4"
  "rc_trans_id Reset RUNNING = 6" "rc_trans_id Reset PAUSED = 9"
  by (simp_all add: rc_trans_id_def rc_ttable_def)

subsection \<open>The allowed steps\<close>

inductive rc_step :: "RCstate \<Rightarrow> RCcommand \<Rightarrow> RCstate \<Rightarrow> bool" where
  configure_idle: "rc_step IDLE Configure READY"
| configure_paused: "rc_step PAUSED Configure READY"
| start_ready: "rc_step READY Start RUNNING"
| start_paused: "rc_step PAUSED Start RUNNING"
| stop_running: "rc_step RUNNING Stop PAUSED"
| reset_any: "rc_step s Reset IDLE"

code_pred rc_step .

inductive_simps rc_step_iff: "rc_step s c t"

text \<open>One command on a state, refused commands leave it unchanged.\<close>

definition rc_next :: "RCcommand \<Rightarrow> RCstate \<Rightarrow> RCstate" where
  "rc_next c s = rc_curstate (snd (rc_process c \<lparr>rc_curstate = s, rc_lasterr = RCOK\<rparr>))"

lemma rc_process_cases:
  "rc_process c m =
     (let e = (if rc_trans_id c (rc_curstate m) = 0 then RCERROR else RCOK)
      in (e, m\<lparr>rc_curstate := rc_next c (rc_curstate m), rc_lasterr := e\<rparr>))"
  by (cases c; cases "rc_curstate m")
     (simp_all add: rc_process_def rc_next_def rc_switch_def RCCOMMAND_NUM_def)

lemma rc_next_simps [simp]:
  "rc_next Configure IDLE = READY" "rc_next Configure READY = READY"
  "rc_next Configure RUNNING = RUNNING" "rc_next Configure PAUSED = READY"
  "rc_next Start IDLE = IDLE" "rc_next Start READY = RUNNING"
  "rc_next Start RUNNING = RUNNING" "rc_next Start PAUSED = RUNNING"
  "rc_next Stop IDLE = IDLE" "rc_next Stop READY = READY"
  "rc_next Stop RUNNING = PAUSED" "rc_next Stop PAUSED = PAUSED"
  "rc_next Reset s = IDLE"
  by (cases s; simp add: rc_next_def rc_process_def rc_switch_def RCCOMMAND_NUM_def)+

lemma rc_next_fixed: "rc_trans_id c s = 0 \<Longrightarrow> rc_next c s = s"
  by (cases c; cases s) simp_all

lemma rc_process_state [simp]: "rc_curstate (snd (rc_process c m)) = rc_next c (rc_curstate m)"
  by (simp add: rc_process_cases Let_def)

lemma rc_process_result [simp]:
  "fst (rc_process c m) = RCOK \<longleftrightarrow> rc_trans_id c (rc_curstate m) \<noteq> 0"
  by (simp add: rc_process_cases Let_def)

lemma rc_process_lasterr [simp]: "rc_lasterr (snd (rc_process c m)) = fst (rc_process c m)"
  by (simp add: rc_process_cases Let_def)

lemma rc_trans_id_step: "rc_trans_id c s \<noteq> 0 \<longleftrightarrow> rc_step s c (rc_next c s)"
  by (cases c; cases s) (simp_all add: rc_step_iff)

text \<open>
  C15. The transition table against the documented transitions: \<open>process\<close> accepts a
  command exactly when it is one of the nine listed steps, then moves to the state of that
  step; a refused command changes nothing but the recorded error. \<open>error()\<close> returns
  what \<open>process\<close> returned and \<open>try_process\<close> predicts it without moving.
\<close>

theorem rc_process_correct:
  "(\<forall>t. rc_step (rc_curstate m) c t = (fst (rc_process c m) = RCOK \<and> rc_curstate (snd (rc_process c m)) = t)) \<and>
   rc_try_process c m = fst (rc_process c m) \<and>
   rc_error (snd (rc_process c m)) = fst (rc_process c m) \<and>
   (fst (rc_process c m) = RCOK \<or> snd (rc_process c m) = m\<lparr>rc_lasterr := RCERROR\<rparr>)"
  by (cases c; cases "rc_curstate m")
     (auto simp: rc_step_iff rc_process_def rc_switch_def RCCOMMAND_NUM_def rc_try_process_def
        rc_error_def)

subsection \<open>Histories\<close>

definition rc_run :: "RCcommand list \<Rightarrow> RCFSM \<Rightarrow> RCFSM" where
  "rc_run cs m = fold (\<lambda>c m. snd (rc_process c m)) cs m"

lemma rc_run_append: "rc_run (cs @ ds) m = rc_run ds (rc_run cs m)"
  by (simp add: rc_run_def)

lemma rc_run_snoc: "rc_run (cs @ [c]) m = snd (rc_process c (rc_run cs m))"
  by (simp add: rc_run_def)

text \<open>The commands after the last reset.\<close>

definition since_reset :: "RCcommand list \<Rightarrow> RCcommand list" where
  "since_reset cs = rev (takeWhile (\<lambda>c. c \<noteq> Reset) (rev cs))"

lemma since_reset_simps [simp]:
  "since_reset [] = []"
  "since_reset (cs @ [c]) = (if c = Reset then [] else since_reset cs @ [c])"
  by (simp_all add: since_reset_def)

definition configured :: "RCcommand list \<Rightarrow> bool" where
  "configured cs = (Configure \<in> set cs)"

definition started :: "RCcommand list \<Rightarrow> bool" where
  "started cs = (Start \<in> set (dropWhile (\<lambda>c. c \<noteq> Configure) cs))"

lemma dropWhile_snoc:
  "dropWhile P (xs @ [x]) = (if dropWhile P xs = [] then (if P x then [] else [x]) else dropWhile P xs @ [x])"
  by (induction xs) auto

lemma rc_history:
  "let s = rc_curstate (rc_run cs new_RCFSM); h = since_reset cs in
     (s \<noteq> IDLE \<longleftrightarrow> configured h) \<and> (s \<in> {RUNNING, PAUSED} \<longrightarrow> started h)"
proof (induction cs rule: rev_induct)
  case Nil
  show ?case by (simp add: rc_run_def new_RCFSM_def configured_def)
next
  case (snoc c cs)
  define s where "s = rc_curstate (rc_run cs new_RCFSM)"
  define h where "h = since_reset cs"
  have d: "Configure \<in> set h \<Longrightarrow> dropWhile (\<lambda>c. c \<noteq> Configure) h \<noteq> []"
    by (auto simp: dropWhile_eq_Nil_conv)
  from snoc.IH [folded s_def h_def] show ?case
    unfolding rc_run_snoc since_reset_simps rc_process_state s_def [symmetric] h_def [symmetric]
    using d
    by (cases c; cases s)
       (auto simp: Let_def configured_def started_def dropWhile_snoc split: if_splits)
qed

text \<open>
  C16. Data taking needs a configured machine: whatever commands were sent since it was
  made, the machine is idle exactly when no configure came after the last reset, and it is
  running or paused only if a start followed the configure.
\<close>

theorem rc_running_configured:
  "(rc_state (rc_run cs new_RCFSM) = IDLE \<longleftrightarrow> \<not> configured (since_reset cs)) \<and>
   (rc_state (rc_run cs new_RCFSM) = RUNNING \<or> rc_state (rc_run cs new_RCFSM) = PAUSED
      \<longrightarrow> started (since_reset cs))"
  using rc_history [of cs] by (simp add: Let_def rc_state_def) blast

lemma rc_running_configured_witness:
  "rc_state (rc_run [Configure, Start, Reset, Configure, Start, Stop] new_RCFSM) = PAUSED \<and>
   started (since_reset [Configure, Start, Reset, Configure, Start, Stop])"
proof -
  have s: "rc_state (rc_run [Configure, Start, Reset, Configure, Start, Stop] new_RCFSM) = PAUSED"
    by (simp add: rc_run_def new_RCFSM_def rc_state_def)
  from rc_running_configured [of "[Configure, Start, Reset, Configure, Start, Stop]"] s
  show ?thesis by blast
qed

subsection \<open>What the node manager needs of its components\<close>

text \<open>
  A component keeps the run-control state it was last told and nothing else of it is read
  back. \<open>get\<close> is the field \<open>rcstate\<close>, \<open>step\<close> one round of its thread: it must not
  change the state on its own.
\<close>

locale rc_component =
  fixes set_rcstate :: "RCstate \<Rightarrow> 'c \<Rightarrow> 'c"
    and get :: "'c \<Rightarrow> RCstate"
    and step :: "'c \<Rightarrow> 'c \<Rightarrow> bool"
  assumes get_set: "get (set_rcstate s c) = s"
    and get_step: "step c d \<Longrightarrow> get d = get c"
begin

lemma get_run: "step\<^sup>*\<^sup>* c d \<Longrightarrow> get d = get c"
  by (induction rule: rtranclp_induct) (simp_all add: get_step)

lemma get_run_after: "step\<^sup>*\<^sup>* (set_rcstate s c) d \<Longrightarrow> get d = s"
  by (simp add: get_run get_set)

end

end
