(* ===== verification/FzText.thy ===== *)
theory FzText
  imports FzPrelude
begin

section \<open>Numbers as text\<close>

text \<open>
  The text conversions of the C++ and C libraries that the components use: decimal and
  hexadecimal output of stream inserters (with \<open>setw\<close> and \<open>setfill('0')\<close>),
  \<open>strstr\<close>, and the digit scan of \<open>sscanf\<close>; with the round trip from a number to its
  digits and back.
\<close>

subsection \<open>Digits\<close>

definition digit :: "nat \<Rightarrow> char" where
  "digit n = char_of (48 + n)"

definition is_digit :: "char \<Rightarrow> bool" where
  "is_digit c = (48 \<le> (of_char c :: nat) \<and> (of_char c :: nat) \<le> 57)"

definition digit_val :: "char \<Rightarrow> nat" where
  "digit_val c = of_char c - 48"

lemma of_char_digit: "n < 10 \<Longrightarrow> of_char (digit n) = 48 + n"
  by (simp add: digit_def)

lemma is_digit_digit [simp]: "n < 10 \<Longrightarrow> is_digit (digit n)"
  by (simp add: is_digit_def of_char_digit)

lemma digit_val_digit [simp]: "n < 10 \<Longrightarrow> digit_val (digit n) = n"
  by (simp add: digit_val_def of_char_digit)

lemma digit_0: "digit 0 = CHR ''0''"
  by code_simp

lemma is_digit_0 [simp]: "is_digit CHR ''0''" and digit_val_0 [simp]: "digit_val CHR ''0'' = 0"
  using is_digit_digit [of 0] digit_val_digit [of 0] by (simp_all add: digit_0)

subsection \<open>Decimal output and input\<close>

fun dec :: "nat \<Rightarrow> string" where
  "dec n = (if n < 10 then [digit n] else dec (n div 10) @ [digit (n mod 10)])"

declare dec.simps [simp del]

definition num_of :: "string \<Rightarrow> nat" where
  "num_of ds = foldl (\<lambda>a c. 10 * a + digit_val c) 0 ds"

lemma num_of_snoc: "num_of (ds @ [c]) = 10 * num_of ds + digit_val c"
  by (simp add: num_of_def)

lemma num_of_Nil [simp]: "num_of [] = 0"
  by (simp add: num_of_def)

lemma num_of_dec [simp]: "num_of (dec n) = n"
proof (induction n rule: dec.induct)
  case (1 n)
  then show ?case
    by (cases "n < 10") (simp_all add: dec.simps [of n] num_of_snoc num_of_snoc [of "[]", simplified])
qed

lemma is_digit_dec: "list_all is_digit (dec n)"
proof (induction n rule: dec.induct)
  case (1 n)
  then show ?case by (cases "n < 10") (simp_all add: dec.simps [of n])
qed

lemma dec_not_Nil [simp]: "dec n \<noteq> []"
  by (simp add: dec.simps [of n])

lemma dec_length: "0 < k \<Longrightarrow> n < 10 ^ k \<Longrightarrow> length (dec n) \<le> k"
proof (induction k arbitrary: n)
  case (Suc k)
  show ?case
  proof (cases "n < 10")
    case True
    then show ?thesis by (simp add: dec.simps [of n])
  next
    case False
    then have "0 < k" using Suc.prems(2) by (cases k) auto
    moreover have "n div 10 < 10 ^ k" using Suc.prems(2) by (simp add: less_mult_imp_div_less mult.commute)
    ultimately have "length (dec (n div 10)) \<le> k" by (rule Suc.IH)
    with False show ?thesis by (simp add: dec.simps [of n])
  qed
qed simp

lemma dec_inj: "dec m = dec n \<longleftrightarrow> m = n"
  by (metis num_of_dec)

text \<open>\<open>setw(k)\<close> with \<open>setfill('0')\<close>: padding on the left, never cutting.\<close>

definition setw0 :: "nat \<Rightarrow> string \<Rightarrow> string" where
  "setw0 k s = replicate (k - length s) (CHR ''0'') @ s"

lemma num_of_zeros: "num_of (replicate k (CHR ''0'') @ ds) = num_of ds"
proof (induction ds rule: rev_induct)
  case Nil
  have "num_of (replicate k (CHR ''0'')) = 0"
  proof (induction k)
    case (Suc k)
    then show ?case
      by (simp only: replicate_Suc replicate_append_same [symmetric] num_of_snoc digit_val_0)
  qed simp
  then show ?case by simp
next
  case (snoc c ds)
  then show ?case using num_of_snoc [of "replicate k (CHR ''0'') @ ds" c] by (simp add: num_of_snoc)
qed

lemma num_of_setw0 [simp]: "num_of (setw0 k s) = num_of s"
  by (simp add: setw0_def num_of_zeros)

lemma is_digit_setw0: "list_all is_digit s \<Longrightarrow> list_all is_digit (setw0 k s)"
  by (auto simp: setw0_def list_all_iff)

lemma setw0_not_Nil [simp]: "s \<noteq> [] \<Longrightarrow> setw0 k s \<noteq> []"
  by (simp add: setw0_def)

subsection \<open>Hexadecimal output of a 16-bit word\<close>

definition hexdigit :: "nat \<Rightarrow> char" where
  "hexdigit n = char_of (if n < 10 then 48 + n else 87 + n)"

definition hex4 :: "u16 \<Rightarrow> string" where
  "hex4 w = (let n = unat w in
     [hexdigit (n div 4096), hexdigit (n div 256 mod 16), hexdigit (n div 16 mod 16), hexdigit (n mod 16)])"

subsection \<open>Substrings and the scan of a directory entry\<close>

text \<open>\<open>strstr(s, t) != NULL\<close>.\<close>

fun strstr :: "string \<Rightarrow> string \<Rightarrow> bool" where
  "strstr [] t = (t = [])"
| "strstr (c # s) t = (take (length t) (c # s) = t \<or> strstr s t)"

lemma strstr_prefix: "strstr (t @ s) t"
proof (cases "t @ s")
  case (Cons a u)
  have "take (length t) (a # u) = t" by (simp flip: Cons)
  with Cons show ?thesis by simp
qed simp

text \<open>
  \<open>sscanf(s, "%*[^0123456789]%d", &num)\<close>: at least one character that is not a digit is
  skipped, then a decimal number is read; \<open>None\<close> when a conversion fails and \<open>num\<close> keeps
  its value. The skipped part ends at a digit, so neither blanks nor a sign precede the
  number.
\<close>

definition scan_after_text :: "string \<Rightarrow> nat option" where
  "scan_after_text s =
     (let t = takeWhile (\<lambda>c. \<not> is_digit c) s;
          ds = takeWhile is_digit (dropWhile (\<lambda>c. \<not> is_digit c) s)
      in if t = [] \<or> ds = [] then None else Some (num_of ds))"

lemma scan_after_text_name:
  assumes "tag \<noteq> []" "list_all (\<lambda>c. \<not> is_digit c) tag" "ds \<noteq> []" "list_all is_digit ds"
  shows "scan_after_text (tag @ ds) = Some (num_of ds)"
proof -
  have d: "takeWhile (\<lambda>c. \<not> is_digit c) ds = []" "dropWhile (\<lambda>c. \<not> is_digit c) ds = ds"
    using assms(3,4) by (cases ds; simp)+
  have "takeWhile (\<lambda>c. \<not> is_digit c) (tag @ ds) = tag"
    using assms(2) by (subst takeWhile_append2) (auto simp: list_all_iff d)
  moreover have "dropWhile (\<lambda>c. \<not> is_digit c) (tag @ ds) = ds"
    using assms(2) by (subst dropWhile_append2) (auto simp: list_all_iff d)
  moreover have "takeWhile is_digit ds = ds"
    using assms(4) by (simp add: takeWhile_eq_all_conv list_all_iff)
  ultimately show ?thesis using assms(1,3) by (simp only: scan_after_text_def Let_def) simp
qed

end
