(* ===== verification/FzReport.thy ===== *)
theory FzReport
  imports FzFSM_State
begin

section \<open>The performance reports\<close>

text \<open>
  The messages of \<open>proto/FzNodeReport.proto\<close>. An unset scalar field reads as 0 or the
  empty string through its accessor, so scalars are plain values here; the sub-messages of
  \<open>Node\<close> whose presence the code tests are options.
\<close>

record ReaderReport =
  rr_in_bytes :: u64
  rr_in_bytes_bw :: u32
  rr_out_bytes :: u64
  rr_out_bytes_bw :: u32
  rr_in_events :: u64
  rr_in_events_bw :: u32
  rr_out_events :: u64
  rr_out_events_bw :: u32
  rr_consumer_ip :: string

definition new_ReaderReport :: ReaderReport where
  "new_ReaderReport = \<lparr>rr_in_bytes = 0, rr_in_bytes_bw = 0, rr_out_bytes = 0, rr_out_bytes_bw = 0,
     rr_in_events = 0, rr_in_events_bw = 0, rr_out_events = 0, rr_out_events_bw = 0,
     rr_consumer_ip = []\<rparr>"

record ParserReport =
  pr_in_bytes :: u64
  pr_in_bytes_bw :: u32
  pr_out_bytes :: u64
  pr_out_bytes_bw :: u32
  pr_in_events :: u64
  pr_in_events_bw :: u32
  pr_out_events :: u64
  pr_out_events_bw :: u32

definition new_ParserReport :: ParserReport where
  "new_ParserReport = \<lparr>pr_in_bytes = 0, pr_in_bytes_bw = 0, pr_out_bytes = 0, pr_out_bytes_bw = 0,
     pr_in_events = 0, pr_in_events_bw = 0, pr_out_events = 0, pr_out_events_bw = 0\<rparr>"

record WriterReport =
  wr_in_bytes :: u64
  wr_in_bytes_bw :: u32
  wr_out_bytes :: u64
  wr_out_bytes_bw :: u32
  wr_in_events :: u64
  wr_in_events_bw :: u32
  wr_out_events :: u64
  wr_out_events_bw :: u32

definition new_WriterReport :: WriterReport where
  "new_WriterReport = \<lparr>wr_in_bytes = 0, wr_in_bytes_bw = 0, wr_out_bytes = 0, wr_out_bytes_bw = 0,
     wr_in_events = 0, wr_in_events_bw = 0, wr_out_events = 0, wr_out_events_bw = 0\<rparr>"

text \<open>The report of a state machine as a node sends it, with rates.\<close>

record NodeFsm =
  nf_in_bytes :: u64
  nf_in_bytes_bw :: u32
  nf_out_bytes :: u64
  nf_out_bytes_bw :: u32
  nf_in_events :: u64
  nf_in_events_bw :: u32
  nf_out_events :: u64
  nf_out_events_bw :: u32
  nf_state_invalid :: u64
  nf_events_empty :: u64
  nf_events_good :: u64
  nf_events_bad :: u64

record Node =
  n_hostname :: string
  n_profile :: string
  n_status :: string
  n_parser_num :: u32
  n_reader :: "ReaderReport option"
  n_parser :: "ParserReport list"
  n_fsm :: "NodeFsm list"
  n_writer :: "WriterReport option"

definition new_Node :: Node where
  "new_Node = \<lparr>n_hostname = [], n_profile = [], n_status = [], n_parser_num = 0, n_reader = None,
     n_parser = [], n_fsm = [], n_writer = None\<rparr>"

end
