(* ===== verification/FzReader.thy ===== *)
theory FzReader
  imports FzRC FzWire FzText FzReport
begin

section \<open>The reader: datagrams to events\<close>

text \<open>
  \<open>reader/FzReader.cpp\<close> and the UDP receive path of the vendored \<open>utils/fossa.c\<close> that
  calls it (\<open>ns_handle_udp\<close>). The handler reinterprets a datagram as 16-bit words, skips
  its header, appends the rest to the static \<open>chunk\<close> and sends the chunk on each time a
  word closes an event. The sockets and the record files are lists of what was sent and
  written; an access outside a buffer or vector is an error value.
\<close>

subsection \<open>State\<close>

datatype reader_error = BufferOutside | ChunkIndex

record reader =
  rd_chunk :: "u16 list"
  rd_fileno :: u32
  rd_rec :: bool
  rd_report :: ReaderReport
  rd_sent :: "bytes list"
  rd_files :: "(string \<times> string) list"
  rd_rcstate :: RCstate

type_synonym reader_stmt = "(reader_error, reader) stmt"

definition REGHDR_FMT :: u16 where
  "REGHDR_FMT = 0xF800"

definition REGHDR_TAG :: u16 where
  "REGHDR_TAG = 0xC800"

definition MAX_EVENT_SIZE :: nat where
  "MAX_EVENT_SIZE = 10000000"

text \<open>The constructor leaves \<open>cb_data.rec\<close> as it finds it; \<open>rec0\<close> is that value.\<close>

definition new_reader :: "bool \<Rightarrow> reader" where
  "new_reader rec0 = \<lparr>rd_chunk = [], rd_fileno = 0, rd_rec = rec0, rd_report = new_ReaderReport,
     rd_sent = [], rd_files = [], rd_rcstate = IDLE\<rparr>"

definition rd_record :: "bool \<Rightarrow> reader \<Rightarrow> reader" where
  "rd_record val r = r\<lparr>rd_rec := val\<rparr>"

definition rd_set_rcstate :: "RCstate \<Rightarrow> reader \<Rightarrow> reader" where
  "rd_set_rcstate s r = r\<lparr>rd_rcstate := s\<rparr>"

definition rd_get_report :: "reader \<Rightarrow> ReaderReport" where
  "rd_get_report r = rd_report r"

subsection \<open>The handler\<close>

definition is_eoe :: "u16 \<Rightarrow> bool" where
  "is_eoe value = (value AND REGHDR_FMT = REGHDR_TAG)"

definition record_name :: "u16 \<Rightarrow> u32 \<Rightarrow> string" where
  "record_name ec n = ''record/event-'' @ hex4 ec @ ''-'' @ dec (unat n)"

definition record_event :: reader_stmt where
  "record_event r =
     (case nth_opt (rd_chunk r) 1 of
        None \<Rightarrow> Inl ChunkIndex
      | Some ec \<Rightarrow> Inr (r\<lparr>rd_files := rd_files r @
            [(record_name ec (rd_fileno r), concat (map (\<lambda>w. hex4 w @ '' '') (rd_chunk r)))],
          rd_fileno := rd_fileno r + 1\<rparr>))"

definition send_event :: reader_stmt where
  "send_event r =
     (let blob = bytes_of (rd_chunk r); rep = rd_report r in
      Inr (r\<lparr>rd_report := rep\<lparr>rr_in_events := rr_in_events rep + 1,
                                rr_out_events := rr_out_events rep + 1,
                                rr_out_bytes := rr_out_bytes rep + of_nat (length blob)\<rparr>,
             rd_sent := rd_sent r @ [blob],
             rd_chunk := []\<rparr>))"

definition reader_word :: "bytes \<Rightarrow> nat \<Rightarrow> reader_stmt" where
  "reader_word buf i r =
     (case word_at buf i of
        None \<Rightarrow> Inl BufferOutside
      | Some value \<Rightarrow>
          let r1 = r\<lparr>rd_chunk := rd_chunk r @ [value]\<rparr>
          in if is_eoe value
             then seqE [\<lambda>r. if rd_rec r then record_event r else Inr r, send_event] r1
             else Inr r1)"

text \<open>The header is two words, three when one of the first three words is \<open>0x8080\<close>;
  the tests stop at the first that holds.\<close>

definition data_offset :: "bytes \<Rightarrow> reader_error + nat" where
  "data_offset buf =
     (case word_at buf 0 of None \<Rightarrow> Inl BufferOutside | Some w0 \<Rightarrow>
        if w0 = 0x8080 then Inr 3
        else (case word_at buf 1 of None \<Rightarrow> Inl BufferOutside | Some w1 \<Rightarrow>
          if w1 = 0x8080 then Inr 3
          else (case word_at buf 2 of None \<Rightarrow> Inl BufferOutside | Some w2 \<Rightarrow>
            Inr (if w2 = 0x8080 then 3 else 2))))"

definition evlen :: "nat \<Rightarrow> nat" where
  "evlen io_len = (if io_len div 2 * 2 = io_len then io_len div 2 else io_len div 2 + 1)"

definition count_in_bytes :: "nat \<Rightarrow> reader \<Rightarrow> reader" where
  "count_in_bytes n r =
     r\<lparr>rd_report := (rd_report r)\<lparr>rr_in_bytes := rr_in_bytes (rd_report r) + of_nat n\<rparr>\<rparr>"

definition discard_oversize :: "reader \<Rightarrow> reader" where
  "discard_oversize r = (if length (rd_chunk r) \<ge> MAX_EVENT_SIZE then r\<lparr>rd_chunk := []\<rparr> else r)"

definition udp_handler_recv :: "bytes \<Rightarrow> nat \<Rightarrow> reader_stmt" where
  "udp_handler_recv buf io_len r =
     bindE (data_offset buf) (\<lambda>offset.
       seqE (map (reader_word buf) [offset..<evlen io_len] @
             [modify (count_in_bytes io_len), modify discard_oversize]) r)"

subsection \<open>Delivery\<close>

datatype ns_event = NS_RECV | NS_OTHER

definition udp_handler :: "ns_event \<Rightarrow> bytes \<Rightarrow> nat \<Rightarrow> reader_stmt" where
  "udp_handler e buf io_len r = (case e of NS_RECV \<Rightarrow> udp_handler_recv buf io_len r | NS_OTHER \<Rightarrow> Inr r)"

definition NS_UDP_RECEIVE_BUFFER_SIZE :: nat where
  "NS_UDP_RECEIVE_BUFFER_SIZE = 65000"

text \<open>
  \<open>recvfrom\<close> writes the datagram, cut to the buffer, over the start of a stack buffer whose
  other bytes are what \<open>stale\<close> left there; nothing happens for an empty datagram.
\<close>

definition ns_handle_udp :: "bytes \<Rightarrow> bytes \<Rightarrow> reader_stmt" where
  "ns_handle_udp stale pkt r =
     (let n = length (take NS_UDP_RECEIVE_BUFFER_SIZE pkt) in
      if n = 0 then Inr r
      else udp_handler NS_RECV (take NS_UDP_RECEIVE_BUFFER_SIZE pkt @ drop n stale) n r)"

text \<open>One round of \<open>process\<close>: the sockets are polled only while running.\<close>

definition reader_round :: "(bytes \<times> bytes) option \<Rightarrow> reader_stmt" where
  "reader_round inp r =
     (if rd_rcstate r = RUNNING
      then (case inp of None \<Rightarrow> Inr r | Some (stale, pkt) \<Rightarrow> ns_handle_udp stale pkt r)
      else Inr r)"

subsection \<open>The stream of events as a specification\<close>

text \<open>A stream of words cut after every word that closes an event: the events and the
  words still open.\<close>

definition cut_word :: "u16 \<Rightarrow> u16 list list \<times> u16 list \<Rightarrow> u16 list list \<times> u16 list" where
  "cut_word w = (\<lambda>(es, c). if is_eoe w then (es @ [c @ [w]], []) else (es, c @ [w]))"

definition cut :: "u16 list \<Rightarrow> u16 list list \<times> u16 list" where
  "cut ws = fold cut_word ws ([], [])"

definition whole_event :: "u16 list \<Rightarrow> bool" where
  "whole_event e = (e \<noteq> [] \<and> is_eoe (last e) \<and> (\<forall>w\<in>set (butlast e). \<not> is_eoe w))"

lemma cut_word_simps [simp]:
  "is_eoe w \<Longrightarrow> cut_word w (es, c) = (es @ [c @ [w]], [])"
  "\<not> is_eoe w \<Longrightarrow> cut_word w (es, c) = (es, c @ [w])"
  by (simp_all add: cut_word_def)

lemma fold_cut_word: "fold cut_word ws (es, c) = (es @ fst (fold cut_word ws ([], c)), snd (fold cut_word ws ([], c)))"
proof (induction ws arbitrary: es c)
  case (Cons w ws)
  show ?case
    using Cons.IH [of "es @ [c @ [w]]" "[]"] Cons.IH [of "[c @ [w]]" "[]"] Cons.IH [of es "c @ [w]"]
    by (cases "is_eoe w") simp_all
qed simp

lemma cut_split:
  "(\<forall>w\<in>set c. \<not> is_eoe w) \<Longrightarrow> fold cut_word ws ([], c) = (es, d) \<Longrightarrow>
    concat es @ d = c @ ws \<and> (\<forall>e\<in>set es. whole_event e) \<and> (\<forall>w\<in>set d. \<not> is_eoe w)"
proof (induction ws arbitrary: c es d)
  case (Cons w ws)
  show ?case
  proof (cases "is_eoe w")
    case True
    obtain fs d' where f: "fold cut_word ws ([], []) = (fs, d')" by fastforce
    from Cons.prems True f have "es = (c @ [w]) # fs" "d = d'"
      using fold_cut_word [of ws "[c @ [w]]" "[]"] by simp_all
    with Cons.IH [OF _ f] Cons.prems(1) True show ?thesis
      by (auto simp: whole_event_def)
  next
    case False
    with Cons.prems Cons.IH [of "c @ [w]" es d] show ?thesis by auto
  qed
qed auto

subsection \<open>The handler cuts the stream\<close>

text \<open>The words a datagram contributes: what follows its header.\<close>

definition payload :: "bytes \<times> nat \<Rightarrow> u16 list" where
  "payload p = (case p of (buf, n) \<Rightarrow>
     case data_offset buf of Inl e \<Rightarrow> [] | Inr off \<Rightarrow> drop off (take (n div 2) (words_of buf)))"

lemma reader_word_cut:
  assumes "word_at buf i = Some w" "\<not> rd_rec r"
  shows "\<exists>r'. reader_word buf i r = Inr r' \<and> \<not> rd_rec r' \<and>
    (let (es, c) = cut_word w ([], rd_chunk r)
     in rd_sent r' = rd_sent r @ map bytes_of es \<and> rd_chunk r' = c)"
  using assms by (cases "is_eoe w") (simp_all add: reader_word_def send_event_def Let_def)

lemma reader_words_cut:
  assumes "i \<le> k" "k \<le> length buf div 2" "\<not> rd_rec r"
  shows "\<exists>r'. seqE (map (reader_word buf) [i..<k]) r = Inr r' \<and> \<not> rd_rec r' \<and>
    (let (es, c) = fold cut_word (drop i (take k (words_of buf))) ([], rd_chunk r)
     in rd_sent r' = rd_sent r @ map bytes_of es \<and> rd_chunk r' = c)"
  using assms
proof (induction "k - i" arbitrary: i r)
  case 0
  then show ?case by simp
next
  case (Suc n)
  then have i: "i < k" by simp
  let ?w = "words_of buf ! i"
  have w: "word_at buf i = Some ?w" using i Suc.prems(2) by (simp add: word_at_words_of nth_opt_def)
  have d: "drop i (take k (words_of buf)) = ?w # drop (Suc i) (take k (words_of buf))"
    using i Suc.prems(2) by (simp flip: Cons_nth_drop_Suc)
  obtain r1 where r1: "reader_word buf i r = Inr r1" "\<not> rd_rec r1"
      "rd_sent r1 = rd_sent r @ map bytes_of (fst (cut_word ?w ([], rd_chunk r)))"
      "rd_chunk r1 = snd (cut_word ?w ([], rd_chunk r))"
    using reader_word_cut [OF w Suc.prems(3)] by (auto simp: case_prod_unfold Let_def)
  have "n = k - Suc i" "Suc i \<le> k" using Suc.hyps(2) i by simp_all
  from Suc.hyps(1) [OF this Suc.prems(2) r1(2)] obtain r' where r':
      "seqE (map (reader_word buf) [Suc i..<k]) r1 = Inr r'" "\<not> rd_rec r'"
      "rd_sent r' = rd_sent r1 @ map bytes_of (fst (fold cut_word (drop (Suc i) (take k (words_of buf))) ([], rd_chunk r1)))"
      "rd_chunk r' = snd (fold cut_word (drop (Suc i) (take k (words_of buf))) ([], rd_chunk r1))"
    by (auto simp: case_prod_unfold Let_def)
  obtain es c where ec: "cut_word ?w ([], rd_chunk r) = (es, c)" by fastforce
  have "seqE (map (reader_word buf) [i..<k]) r = Inr r'"
    using i r1(1) r'(1) by (simp add: upt_conv_Cons)
  then show ?case
    using r1(3,4) r'(2-4) ec fold_cut_word [of "drop (Suc i) (take k (words_of buf))" es c]
    by (simp add: d case_prod_unfold Let_def)
qed

lemma udp_handler_recv_cut:
  assumes "even n" "6 \<le> n" "n \<le> length buf" "\<not> rd_rec r"
    and "length (snd (fold cut_word (payload (buf, n)) ([], rd_chunk r))) < MAX_EVENT_SIZE"
  shows "\<exists>r'. udp_handler_recv buf n r = Inr r' \<and> \<not> rd_rec r' \<and>
    rd_sent r' = rd_sent r @ map bytes_of (fst (fold cut_word (payload (buf, n)) ([], rd_chunk r))) \<and>
    rd_chunk r' = snd (fold cut_word (payload (buf, n)) ([], rd_chunk r))"
proof -
  have l: "evlen n = n div 2" using assms(1) by (simp add: evlen_def)
  have "2 < length buf div 2" using assms(2,3) by linarith
  then have w: "word_at buf 0 \<noteq> None" "word_at buf 1 \<noteq> None" "word_at buf 2 \<noteq> None"
    by (simp_all add: word_at_words_of nth_opt_None)
  then have "\<exists>off\<le>3. data_offset buf = Inr off"
    by (auto simp: data_offset_def split: option.split)
  then obtain off where off: "data_offset buf = Inr off" "off \<le> 3" by blast
  have le: "off \<le> n div 2" "n div 2 \<le> length buf div 2"
    using off(2) assms(2,3) by (auto intro: div_le_mono)
  obtain r1 where "seqE (map (reader_word buf) [off..<n div 2]) r = Inr r1" "\<not> rd_rec r1"
      "rd_sent r1 = rd_sent r @ map bytes_of (fst (fold cut_word (payload (buf, n)) ([], rd_chunk r)))"
      "rd_chunk r1 = snd (fold cut_word (payload (buf, n)) ([], rd_chunk r))"
    using reader_words_cut [OF le assms(4)] by (auto simp: payload_def off(1) case_prod_unfold Let_def)
  then show ?thesis using assms(5)
    by (simp add: udp_handler_recv_def off(1) l seqE_append modify_def count_in_bytes_def discard_oversize_def)
qed

text \<open>The handler over a list of datagrams, each as its buffer and its length.\<close>

definition reader_run :: "(bytes \<times> nat) list \<Rightarrow> reader_stmt" where
  "reader_run ps = seqE (map (\<lambda>(buf, n). udp_handler NS_RECV buf n) ps)"

lemma payload_run:
  assumes "\<forall>(buf, n)\<in>set ps. even n \<and> 6 \<le> n \<and> n \<le> length buf" "\<not> rd_rec r"
    and "length (rd_chunk r) + length (concat (map payload ps)) < MAX_EVENT_SIZE"
    and "\<forall>w\<in>set (rd_chunk r). \<not> is_eoe w"
  shows "\<exists>r'. reader_run ps r = Inr r' \<and>
    rd_sent r' = rd_sent r @ map bytes_of (fst (fold cut_word (concat (map payload ps)) ([], rd_chunk r))) \<and>
    rd_chunk r' = snd (fold cut_word (concat (map payload ps)) ([], rd_chunk r))"
  using assms
proof (induction ps arbitrary: r)
  case Nil
  then show ?case by (simp add: reader_run_def)
next
  case (Cons p ps)
  obtain buf n where p: "p = (buf, n)" by (cases p)
  obtain es c where ec: "fold cut_word (payload p) ([], rd_chunk r) = (es, c)" by fastforce
  from cut_split [OF Cons.prems(4) ec]
  have c: "concat es @ c = rd_chunk r @ payload p" "\<forall>w\<in>set c. \<not> is_eoe w" by auto
  then have lc: "length (concat es) + length c = length (rd_chunk r) + length (payload p)"
    by (metis length_append)
  then have "length c < MAX_EVENT_SIZE" using Cons.prems(3) by simp
  then obtain r1 where r1: "udp_handler_recv buf n r = Inr r1" "\<not> rd_rec r1"
      "rd_sent r1 = rd_sent r @ map bytes_of es" "rd_chunk r1 = c"
    using udp_handler_recv_cut [of n buf r] Cons.prems(1,2) ec p by auto
  have "length (rd_chunk r1) + length (concat (map payload ps)) < MAX_EVENT_SIZE"
    using Cons.prems(3) lc r1(4) by simp
  moreover have "\<forall>(buf, n)\<in>set ps. even n \<and> 6 \<le> n \<and> n \<le> length buf" using Cons.prems(1) by simp
  ultimately obtain r' where r': "reader_run ps r1 = Inr r'"
      "rd_sent r' = rd_sent r1 @ map bytes_of (fst (fold cut_word (concat (map payload ps)) ([], rd_chunk r1)))"
      "rd_chunk r' = snd (fold cut_word (concat (map payload ps)) ([], rd_chunk r1))"
    using Cons.IH [of r1] r1(2,4) c(2) by blast
  then show ?case
    using r1 ec fold_cut_word [of "concat (map payload ps)" es c]
    by (simp add: reader_run_def udp_handler_def p)
qed

text \<open>
  C5. How the stream was cut into datagrams does not matter: for any datagrams of even
  length with their header, below the size limit in total, the reader sends exactly the
  events of the concatenated payloads, in order, and keeps the words of the open one.
\<close>

theorem reader_stream:
  assumes "\<forall>(buf, n)\<in>set ps. even n \<and> 6 \<le> n \<and> n \<le> length buf"
    and "length (concat (map payload ps)) < MAX_EVENT_SIZE"
  shows "\<exists>r. reader_run ps (new_reader False) = Inr r \<and>
    rd_sent r = map bytes_of (fst (cut (concat (map payload ps)))) \<and>
    rd_chunk r = snd (cut (concat (map payload ps)))"
  using payload_run [of ps "new_reader False"] assms by (simp add: new_reader_def cut_def)

lemma reader_stream_witness:
  defines "p1 \<equiv> (bytes_of [0, 1, 0xE001, 0x5001, 0xC80A, 0xE002], 12)"
    and "p2 \<equiv> (bytes_of [0, 2, 0x8080, 0x5002, 0xC80B], 10)"
  shows "\<exists>r. reader_run [p1, p2] (new_reader False) = Inr r \<and>
    rd_sent r = map bytes_of (fst (cut (concat (map payload [p1, p2])))) \<and>
    rd_chunk r = snd (cut (concat (map payload [p1, p2])))"
proof -
  have l: "length (payload p) \<le> length (words_of (fst p))" for p
    by (auto simp: payload_def split: prod.split sum.split)
  have "length (concat (map payload [p1, p2])) \<le> 11"
    using l [of p1] l [of p2] by (simp add: p1_def p2_def)
  then have m: "length (concat (map payload [p1, p2])) < MAX_EVENT_SIZE"
    by (simp add: MAX_EVENT_SIZE_def)
  show ?thesis by (rule reader_stream [OF _ m]) (simp add: p1_def p2_def)
qed

subsection \<open>What every run keeps\<close>

datatype reader_act = Rd_round "(bytes \<times> bytes) option" | Rd_state RCstate | Rd_record bool

definition reader_do :: "reader_act \<Rightarrow> reader_stmt" where
  "reader_do a r =
     (case a of Rd_round inp \<Rightarrow> reader_round inp r
      | Rd_state s \<Rightarrow> Inr (rd_set_rcstate s r)
      | Rd_record b \<Rightarrow> Inr (rd_record b r))"

text \<open>Each message sent is an event; the counters count the messages and their bytes.\<close>

definition reader_ok :: "reader \<Rightarrow> bool" where
  "reader_ok r \<longleftrightarrow>
     (\<forall>m\<in>set (rd_sent r). \<exists>e. m = bytes_of e \<and> whole_event e) \<and>
     (\<forall>w\<in>set (rd_chunk r). \<not> is_eoe w) \<and>
     rr_in_events (rd_report r) = of_nat (length (rd_sent r)) \<and>
     rr_out_events (rd_report r) = of_nat (length (rd_sent r)) \<and>
     rr_out_bytes (rd_report r) = of_nat (length (concat (rd_sent r)))"

lemma wpE_seqE_map:
  assumes "\<And>x s. x \<in> set xs \<Longrightarrow> P s \<Longrightarrow> wpE E P (f x s)" "P s"
  shows "wpE E P (seqE (map f xs) s)"
  using assms
proof (induction xs arbitrary: s)
  case (Cons x xs)
  have "wpE E P (f x s)" using Cons.prems by simp
  moreover have "\<And>t. P t \<Longrightarrow> wpE E P (seqE (map f xs) t)" using Cons by simp
  ultimately show ?case by (simp add: wp wpE_mono)
qed (simp add: wp)

lemma udp_handler_recv_keeps:
  assumes "\<And>i s. P s \<Longrightarrow> wpE (\<lambda>_. True) P (reader_word buf i s)"
    and "\<And>s. P s \<Longrightarrow> P (count_in_bytes n s)" "\<And>s. P s \<Longrightarrow> P (discard_oversize s)" "P r"
  shows "wpE (\<lambda>_. True) P (udp_handler_recv buf n r)"
proof -
  have s: "wpE (\<lambda>_. True) P (seqE (map (reader_word buf) is) r)" for "is"
    by (rule wpE_seqE_map) (simp_all add: assms)
  show ?thesis
    using assms(2,3) by (cases "data_offset buf")
      (auto simp: udp_handler_recv_def seqE_append wp intro: wpE_mono [OF s])
qed

lemma reader_ok_frame [simp]:
  "reader_ok (r\<lparr>rd_rec := b\<rparr>) = reader_ok r"
  "reader_ok (r\<lparr>rd_rcstate := s\<rparr>) = reader_ok r"
  "reader_ok (r\<lparr>rd_files := fs, rd_fileno := n\<rparr>) = reader_ok r"
  by (simp_all add: reader_ok_def)

lemma reader_ok_send:
  assumes "reader_ok r" "is_eoe w"
  shows "wpE (\<lambda>_. True) reader_ok (send_event (r\<lparr>rd_chunk := rd_chunk r @ [w]\<rparr>))"
proof -
  have "\<exists>e. bytes_of (rd_chunk r @ [w]) = bytes_of e \<and> whole_event e"
    using assms by (intro exI [of _ "rd_chunk r @ [w]"]) (simp add: reader_ok_def whole_event_def)
  with assms show ?thesis
    by (simp add: wp reader_ok_def send_event_def Let_def del: bytes_of_append)
qed

lemma record_event_files:
  "wpE (\<lambda>_. True) (\<lambda>r'. \<exists>fs n. r' = r\<lparr>rd_files := fs, rd_fileno := n\<rparr>) (record_event r)"
  by (auto simp: record_event_def wp split: option.split)

lemma reader_word_ok:
  assumes "reader_ok r"
  shows "wpE (\<lambda>_. True) reader_ok (reader_word buf i r)"
proof (cases "word_at buf i")
  case (Some w)
  let ?r = "r\<lparr>rd_chunk := rd_chunk r @ [w]\<rparr>"
  show ?thesis
  proof (cases "is_eoe w")
    case True
    have r: "wpE (\<lambda>_. True) (\<lambda>r'. wpE (\<lambda>_. True) reader_ok (send_event r')) (record_event ?r)"
    proof (rule wpE_mono [OF record_event_files])
      fix r' assume "\<exists>fs n. r' = ?r\<lparr>rd_files := fs, rd_fileno := n\<rparr>"
      then obtain fs n where r': "r' = ?r\<lparr>rd_files := fs, rd_fileno := n\<rparr>" by blast
      let ?q = "r\<lparr>rd_files := fs, rd_fileno := n\<rparr>"
      have "r' = ?q\<lparr>rd_chunk := rd_chunk ?q @ [w]\<rparr>" unfolding r' by (cases r) simp
      then show "wpE (\<lambda>_. True) reader_ok (send_event r')"
        using reader_ok_send [of "r\<lparr>rd_files := fs, rd_fileno := n\<rparr>" w] assms True by simp
    qed
    then show ?thesis
      using reader_ok_send [OF assms True] by (simp add: reader_word_def Some True Let_def wp)
  next
    case False
    with assms show ?thesis by (simp add: reader_word_def Some Let_def wp reader_ok_def)
  qed
qed (simp add: reader_word_def wp)

lemma reader_round_keeps:
  assumes "\<And>buf n. wpE (\<lambda>_. True) P (udp_handler_recv buf n r)" "P r"
  shows "wpE (\<lambda>_. True) P (reader_round inp r)"
  using assms
  by (auto simp: reader_round_def ns_handle_udp_def udp_handler_def Let_def wp split: option.split)

lemma reader_do_ok:
  assumes "reader_ok r"
  shows "wpE (\<lambda>_. True) reader_ok (reader_do a r)"
proof -
  have "wpE (\<lambda>_. True) reader_ok (udp_handler_recv buf n r)" for buf n
    by (rule udp_handler_recv_keeps [OF reader_word_ok])
       (simp_all add: assms, simp_all add: reader_ok_def discard_oversize_def count_in_bytes_def)
  from reader_round_keeps [OF this assms] show ?thesis
    using assms by (cases a) (simp_all add: reader_do_def wp rd_set_rcstate_def rd_record_def)
qed

lemma reader_run_ok:
  assumes "seqE (map reader_do as) (new_reader rec0) = Inr r"
  shows "reader_ok r"
proof -
  have "reader_ok (new_reader rec0)" by (simp add: reader_ok_def new_reader_def new_ReaderReport_def)
  then have "wpE (\<lambda>_. True) reader_ok (seqE (map reader_do as) (new_reader rec0))"
    by (intro wpE_seqE_map reader_do_ok)
  from wpE_Inr_D [OF this assms] show ?thesis .
qed

text \<open>
  C13. Whatever datagrams arrive, with run-control and recording commands in between, every
  message the reader sends is the words of one event: it ends with its only closing word.
  Its report counts as many events in as out, and the bytes of what it sent.
\<close>

theorem reader_sends_whole_events:
  assumes "seqE (map reader_do as) (new_reader rec0) = Inr r"
  shows "(\<forall>m\<in>set (rd_sent r). \<exists>e. m = bytes_of e \<and> whole_event e) \<and>
    rr_in_events (rd_get_report r) = of_nat (length (rd_sent r)) \<and>
    rr_out_events (rd_get_report r) = of_nat (length (rd_sent r)) \<and>
    rr_out_bytes (rd_get_report r) = of_nat (length (concat (rd_sent r)))"
  using reader_run_ok [OF assms] by (simp add: reader_ok_def rd_get_report_def)

lemma reader_sends_whole_events_witness:
  "\<exists>r. seqE (map reader_do [Rd_state RUNNING, Rd_round (Some ([], bytes_of [0, 1, 0xE001, 0x5001, 0xC80A]))])
      (new_reader False) = Inr r \<and> rd_sent r = [bytes_of [0xE001, 0x5001, 0xC80A]] \<and>
    rr_out_events (rd_get_report r) = of_nat (length (rd_sent r)) \<and>
    (\<forall>m\<in>set (rd_sent r). \<exists>e. m = bytes_of e \<and> whole_event e)"
proof -
  have run: "\<exists>r. seqE (map reader_do [Rd_state RUNNING, Rd_round (Some ([], bytes_of [0, 1, 0xE001, 0x5001, 0xC80A]))])
      (new_reader False) = Inr r \<and> rd_sent r = [bytes_of [0xE001, 0x5001, 0xC80A]]"
    by (simp add: reader_do_def rd_set_rcstate_def new_reader_def reader_round_def ns_handle_udp_def
        NS_UDP_RECEIVE_BUFFER_SIZE_def udp_handler_def udp_handler_recv_def data_offset_def
        word_at_words_of nth_opt_def evlen_def upt_conv_Cons reader_word_def is_eoe_def REGHDR_FMT_def
        REGHDR_TAG_def Let_def send_event_def modify_def count_in_bytes_def discard_oversize_def
        new_ReaderReport_def MAX_EVENT_SIZE_def del: bytes_of_simps)
  then show ?thesis using reader_sends_whole_events by blast
qed

subsection \<open>The contract of the run control\<close>

definition reader_step :: "reader \<Rightarrow> reader \<Rightarrow> bool" where
  "reader_step r r' \<longleftrightarrow> (\<exists>inp. reader_round inp r = Inr r')"

lemma reader_step_rcstate:
  assumes "reader_step r r'"
  shows "rd_rcstate r' = rd_rcstate r"
proof -
  let ?P = "\<lambda>s. rd_rcstate s = rd_rcstate r"
  have "wpE (\<lambda>_. True) ?P (reader_word buf i s)" if "?P s" for buf i s
    using that
    by (auto simp: reader_word_def record_event_def send_event_def wp Let_def split: option.split)
  then have "wpE (\<lambda>_. True) ?P (udp_handler_recv buf n r)" for buf n
    by (rule udp_handler_recv_keeps) (simp_all add: discard_oversize_def count_in_bytes_def)
  from reader_round_keeps [of ?P, OF this] assms show ?thesis
    unfolding reader_step_def using wpE_Inr_D by fastforce
qed

interpretation rd: rc_component rd_set_rcstate rd_rcstate reader_step
  by unfold_locales (simp_all add: rd_set_rcstate_def reader_step_rcstate)

end
