(* ===== verification/FzParser.thy ===== *)
theory FzParser
  imports FzReader FzFSM_Clean FzFSM_Words
begin

section \<open>The parser thread\<close>

text \<open>
  \<open>parser/FzParser.cpp\<close>: one round of \<open>process\<close>. It receives a message of the reader,
  runs the state machine over its words and sends the event on as a one-event set. The
  protobuf coder is the parameter \<open>ser\<close> (success flag and bytes); \<open>None\<close> stands for a
  round that never ends because the machine does not.
\<close>

subsection \<open>State\<close>

text \<open>What \<open>recv\<close> can do: deliver a message, time out after a second, or throw.\<close>

datatype recv_result = Got bytes | Timeout | Failed

datatype parser_log = Plog_recv_error | Plog_serialization "u32 option"

text \<open>\<open>ps_rc\<close> is the local \<open>rc\<close> of \<open>process\<close>, which lives as long as the loop.\<close>

record parser =
  ps_rcstate :: RCstate
  ps_rc :: bool
  ps_evformat :: int
  ps_sm :: fsm
  ps_report :: ParserReport
  ps_sent :: "bytes list"
  ps_log :: "parser_log list"

definition new_parser :: "int \<Rightarrow> fsm \<Rightarrow> parser" where
  "new_parser evf sm = \<lparr>ps_rcstate = IDLE, ps_rc = False, ps_evformat = evf, ps_sm = fsm_init evf sm,
     ps_report = new_ParserReport, ps_sent = [], ps_log = []\<rparr>"

definition ps_set_rcstate :: "RCstate \<Rightarrow> parser \<Rightarrow> parser" where
  "ps_set_rcstate s p = p\<lparr>ps_rcstate := s\<rparr>"

definition ps_get_report :: "parser \<Rightarrow> ParserReport" where
  "ps_get_report p = ps_report p"

definition ps_get_fsm_report :: "parser \<Rightarrow> FsmReport" where
  "ps_get_fsm_report p = fsm_report (ps_sm p)"

subsection \<open>One round\<close>

definition parser_recv :: "recv_result \<Rightarrow> parser \<Rightarrow> bytes \<times> parser" where
  "parser_recv inp p =
     (case inp of
        Got m \<Rightarrow> (m, p\<lparr>ps_rc := True\<rparr>)
      | Timeout \<Rightarrow> ([], p\<lparr>ps_rc := False\<rparr>)
      | Failed \<Rightarrow> ([], p\<lparr>ps_log := ps_log p @ [Plog_recv_error]\<rparr>))"

definition count_in :: "bytes \<Rightarrow> parser \<Rightarrow> parser" where
  "count_in message p =
     p\<lparr>ps_report := (ps_report p)\<lparr>
         pr_in_bytes := pr_in_bytes (ps_report p) + of_nat (length message),
         pr_in_events := pr_in_events (ps_report p) + 1\<rparr>\<rparr>"

text \<open>\<open>bufusint\<close> and \<open>bufsize\<close>: the words handed to the machine.\<close>

definition event_words :: "bytes \<Rightarrow> u16 list" where
  "event_words message = take (unat (of_nat (length message div 2) :: u32)) (words_of message)"

definition run_fsm :: "bytes \<Rightarrow> parser \<Rightarrow> (fsm_error + (nat \<times> fsm)) option" where
  "run_fsm message p = fsm_process (fsm_import (event_words message) (fsm_init (ps_evformat p) (ps_sm p)))"

definition parser_send :: "(FzEvent list \<Rightarrow> bool \<times> bytes) \<Rightarrow> FzEvent \<Rightarrow> parser \<Rightarrow> parser" where
  "parser_send ser e p =
     (let (ok, str) = ser [e] in
      p\<lparr>ps_log := ps_log p @ (if ok then [] else [Plog_serialization (e_ec e)]),
        ps_sent := ps_sent p @ [str],
        ps_report := (ps_report p)\<lparr>
          pr_out_bytes := pr_out_bytes (ps_report p) + of_nat (length str),
          pr_out_events := pr_out_events (ps_report p) + 1\<rparr>\<rparr>)"

definition parser_emit :: "(FzEvent list \<Rightarrow> bool \<times> bytes) \<Rightarrow> nat \<Rightarrow> parser \<Rightarrow> parser" where
  "parser_emit ser retval p =
     (if retval = PARSE_OK \<and> event_is_empty (ps_sm p) = False
      then parser_send ser (ev (ps_sm p)) p
      else if retval = PARSE_FAIL
      then p\<lparr>ps_log := ps_log p @ [Plog_serialization (e_ec (ev (ps_sm p)))]\<rparr>
      else p)"

definition parser_clear :: "parser \<Rightarrow> parser" where
  "parser_clear p = p\<lparr>ps_sm := (ps_sm p)\<lparr>ev := new_FzEvent\<rparr>\<rparr>"

definition parser_message :: "(FzEvent list \<Rightarrow> bool \<times> bytes) \<Rightarrow> bytes \<Rightarrow> parser \<Rightarrow> (fsm_error + parser) option" where
  "parser_message ser message p =
     map_option (\<lambda>r. bindE r (\<lambda>(retval, sm).
         Inr (parser_clear (parser_emit ser retval ((count_in message p)\<lparr>ps_sm := sm\<rparr>)))))
       (run_fsm message p)"

definition parser_round ::
  "(FzEvent list \<Rightarrow> bool \<times> bytes) \<Rightarrow> recv_result \<Rightarrow> parser \<Rightarrow> (fsm_error + parser) option" where
  "parser_round ser inp p =
     (if ps_rcstate p = RUNNING
      then (let (message, p1) = parser_recv inp p in
            if ps_rc p1 then parser_message ser message p1 else Some (Inr p1))
      else Some (Inr p))"

subsection \<open>Lemmas\<close>

lemma event_words_bytes_of: "length e < 2 ^ 32 \<Longrightarrow> event_words (bytes_of e) = e"
  by (simp add: event_words_def unsigned_of_nat take_bit_nat_eq_self)

lemma is_eoe_iff: "is_eoe w \<longleftrightarrow> getword_id w = 12"
  by (simp add: is_eoe_def REGHDR_FMT_def REGHDR_TAG_def regword_iff)

lemma parser_emit_frame [simp]:
  "ps_sm (parser_emit ser v p) = ps_sm p"
  "ps_rcstate (parser_emit ser v p) = ps_rcstate p"
  "ps_rc (parser_emit ser v p) = ps_rc p"
  by (simp_all add: parser_emit_def parser_send_def case_prod_unfold Let_def)

lemma parser_message_Inr:
  assumes "parser_message ser m p = Some (Inr q)"
  obtains retval sm where "run_fsm m p = Some (Inr (retval, sm))"
    "q = parser_clear (parser_emit ser retval ((count_in m p)\<lparr>ps_sm := sm\<rparr>))"
  using assms by (auto simp: parser_message_def bindE_Inr_iff)

subsection \<open>What a round does\<close>

definition good_flags :: "FzBlock \<Rightarrow> bool" where
  "good_flags b \<longleftrightarrow> b_len_error b = Some False \<and> b_crc_error b = Some False \<and>
     (\<forall>f\<in>set (b_fee b). f_len_error f = Some False \<and> f_crc_error f = Some False)"

text \<open>
  A running parser that receives a message sends at most one, the event set with the
  event the machine built, exactly when the machine closed an event that is not empty. Its
  report then counts one event in and, if it sent, one out, with their bytes.
\<close>

theorem parser_round_result:
  assumes "ps_rcstate p = RUNNING" "parser_round ser (Got m) p = Some (Inr q)"
  shows "\<exists>retval sm. run_fsm m p = Some (Inr (retval, sm)) \<and>
    ps_get_fsm_report q = fsm_report sm \<and>
    pr_in_events (ps_get_report q) = pr_in_events (ps_get_report p) + 1 \<and>
    pr_in_bytes (ps_get_report q) = pr_in_bytes (ps_get_report p) + of_nat (length m) \<and>
    (if retval = PARSE_OK \<and> \<not> event_is_empty sm
     then ps_sent q = ps_sent p @ [snd (ser [ev sm])] \<and>
          pr_out_events (ps_get_report q) = pr_out_events (ps_get_report p) + 1 \<and>
          pr_out_bytes (ps_get_report q) = pr_out_bytes (ps_get_report p) + of_nat (length (snd (ser [ev sm])))
     else ps_sent q = ps_sent p \<and>
          pr_out_events (ps_get_report q) = pr_out_events (ps_get_report p) \<and>
          pr_out_bytes (ps_get_report q) = pr_out_bytes (ps_get_report p))"
proof -
  from assms have "parser_message ser m (p\<lparr>ps_rc := True\<rparr>) = Some (Inr q)"
    by (simp add: parser_round_def parser_recv_def)
  then obtain retval sm where r: "run_fsm m (p\<lparr>ps_rc := True\<rparr>) = Some (Inr (retval, sm))"
    and q: "q = parser_clear (parser_emit ser retval ((count_in m (p\<lparr>ps_rc := True\<rparr>))\<lparr>ps_sm := sm\<rparr>))"
    by (rule parser_message_Inr)
  from r have "run_fsm m p = Some (Inr (retval, sm))" by (simp add: run_fsm_def)
  then show ?thesis
    by (intro exI [of _ retval] exI [of _ sm])
       (simp add: q parser_clear_def parser_emit_def parser_send_def count_in_def ps_get_report_def
          ps_get_fsm_report_def case_prod_unfold Let_def)
qed

lemma parser_message_runs:
  assumes "ps_rcstate p = RUNNING" "parser_round ser (Got m) p = Some (Inr q)"
  obtains retval sm where "run_fsm m p = Some (Inr (retval, sm))"
    "ps_get_fsm_report q = fsm_report sm"
    "ps_sent q = ps_sent p \<or> ps_sent q = ps_sent p @ [snd (ser [ev sm])]"
proof -
  from assms have "parser_message ser m (p\<lparr>ps_rc := True\<rparr>) = Some (Inr q)"
    by (simp add: parser_round_def parser_recv_def)
  then obtain retval sm where r: "run_fsm m (p\<lparr>ps_rc := True\<rparr>) = Some (Inr (retval, sm))"
    and q: "q = parser_clear (parser_emit ser retval ((count_in m (p\<lparr>ps_rc := True\<rparr>))\<lparr>ps_sm := sm\<rparr>))"
    by (rule parser_message_Inr)
  show ?thesis
    by (rule that [of retval sm])
       (use r in \<open>simp_all add: run_fsm_def q parser_clear_def parser_emit_def parser_send_def count_in_def
          ps_get_fsm_report_def case_prod_unfold Let_def\<close>)
qed

text \<open>
  C8. Reader and parser together: when a parser receives a message the reader sent and its
  machine counts a good event, what the parser sends on, if anything, is an event whose
  blocks and cards all passed their length and check sum tests.
\<close>

theorem pipeline_good_event:
  assumes "seqE (map reader_do as) (new_reader rec0) = Inr r" "m \<in> set (rd_sent r)" "length m < 2 ^ 33"
    and "ps_rcstate p = RUNNING" "parser_round ser (Got m) p = Some (Inr q)"
    and "fr_events_good (ps_get_fsm_report q) \<noteq> fr_events_good (ps_get_fsm_report p)"
  shows "\<exists>retval sm. run_fsm m p = Some (Inr (retval, sm)) \<and> (\<forall>b\<in>set (e_block (ev sm)). good_flags b) \<and>
    (ps_sent q = ps_sent p \<or> ps_sent q = ps_sent p @ [snd (ser [ev sm])])"
proof -
  from reader_run_ok [OF assms(1)] assms(2) obtain e where e: "m = bytes_of e" "whole_event e"
    by (auto simp: reader_ok_def)
  obtain retval sm where s: "run_fsm m p = Some (Inr (retval, sm))" "ps_get_fsm_report q = fsm_report sm"
    "ps_sent q = ps_sent p \<or> ps_sent q = ps_sent p @ [snd (ser [ev sm])]"
    using parser_message_runs [OF assms(4,5)] by blast
  have w: "event_words m = e" using assms(3) e(1) by (simp add: event_words_bytes_of)
  have "good_flags b" if "b \<in> set (e_block (ev sm))" for b
    unfolding good_flags_def
  proof (rule good_event_clean)
    show "\<forall>x\<in>set (butlast e). getword_id x \<noteq> 12" using e(2) by (simp add: whole_event_def is_eoe_iff)
    show "fsm_process (fsm_import e (fsm_init (ps_evformat p) (ps_sm p))) = Some (Inr (retval, sm))"
      using s(1) by (simp add: run_fsm_def w)
    show "fr_events_good (fsm_report sm) \<noteq> fr_events_good (fsm_report (fsm_init (ps_evformat p) (ps_sm p)))"
      using assms(6) s(2) by (simp add: ps_get_fsm_report_def fsm_init_def)
  qed (rule that)
  then show ?thesis using s(1,3) by blast
qed

lemma one_block_payload:
  "length (bytes_of ([0, 1] @ one_block_event)) = 44"
  "payload (bytes_of ([0, 1] @ one_block_event), 44) = one_block_event"
proof -
  let ?b = "bytes_of ([0, 1] @ one_block_event)"
  show "length ?b = 44" by (simp add: one_block_event_def)
  have "data_offset ?b = Inr 2"
    by (simp add: data_offset_def word_at_words_of nth_opt_def one_block_event_def del: bytes_of_simps)
  then have "payload (?b, 44) = drop 2 (take (44 div 2) (words_of ?b))"
    by (simp only: payload_def prod.case sum.case)
  then show "payload (?b, 44) = one_block_event" unfolding words_of_bytes_of by (simp add: one_block_event_def)
qed

lemma one_block_cut: "fold cut_word one_block_event ([], []) = ([one_block_event], [])"
  by code_simp

lemma one_block_event_read:
  "\<exists>r. seqE (map reader_do [Rd_state RUNNING, Rd_round (Some ([], bytes_of ([0, 1] @ one_block_event)))])
      (new_reader False) = Inr r \<and> rd_sent r = [bytes_of one_block_event]"
proof -
  let ?b = "bytes_of ([0, 1] @ one_block_event)" and ?r = "new_reader False"
  obtain r where "udp_handler_recv ?b 44 (rd_set_rcstate RUNNING ?r) = Inr r" "rd_sent r = [bytes_of one_block_event]"
    using udp_handler_recv_cut [of 44 ?b "rd_set_rcstate RUNNING ?r"] one_block_payload one_block_cut
    by (auto simp: rd_set_rcstate_def new_reader_def MAX_EVENT_SIZE_def)
  moreover have "ns_handle_udp [] ?b s = udp_handler_recv ?b 44 s" for s
    using one_block_payload(1) by (simp add: ns_handle_udp_def NS_UDP_RECEIVE_BUFFER_SIZE_def udp_handler_def Let_def
        del: bytes_of_simps bytes_of_append)
  ultimately show ?thesis
    by (simp add: reader_do_def reader_round_def rd_set_rcstate_def del: bytes_of_simps bytes_of_append)
qed

lemma pipeline_good_event_witness:
  "\<exists>r q retval sm. seqE (map reader_do [Rd_state RUNNING, Rd_round (Some ([], bytes_of ([0, 1] @ one_block_event)))])
      (new_reader False) = Inr r \<and> bytes_of one_block_event \<in> set (rd_sent r) \<and>
     parser_round (\<lambda>es. (True, [7])) (Got (bytes_of one_block_event))
       (ps_set_rcstate RUNNING (new_parser FMT_TAG fsm_zero)) = Some (Inr q) \<and>
     run_fsm (bytes_of one_block_event) (ps_set_rcstate RUNNING (new_parser FMT_TAG fsm_zero)) = Some (Inr (retval, sm)) \<and>
     (\<forall>b\<in>set (e_block (ev sm)). good_flags b)"
proof -
  let ?as = "[Rd_state RUNNING, Rd_round (Some ([], bytes_of ([0, 1] @ one_block_event)))]"
  let ?p = "ps_set_rcstate RUNNING (new_parser FMT_TAG fsm_zero)"
  let ?ser = "\<lambda>es :: FzEvent list. (True, [7 :: u8])"
  obtain r where r: "seqE (map reader_do ?as) (new_reader False) = Inr r"
    "bytes_of one_block_event \<in> set (rd_sent r)" using one_block_event_read by fastforce
  have w: "event_words (bytes_of one_block_event) = one_block_event"
    by (rule event_words_bytes_of) (simp add: one_block_event_def)
  from one_block_event_run obtain t where t:
    "fsm_process (fsm_import one_block_event (fsm_init FMT_TAG fsm_zero)) = Some (Inr (PARSE_OK, t))"
    "fr_events_good (fsm_report t) = 1" by (auto split: option.splits sum.splits)
  have i: "fsm_init FMT_TAG (fsm_init FMT_TAG fsm_zero) = fsm_init FMT_TAG fsm_zero" by (simp add: fsm_init_def)
  obtain q where q: "parser_round ?ser (Got (bytes_of one_block_event)) ?p = Some (Inr q)"
    "fsm_report (ps_sm q) = fsm_report t"
    using t(1) by (auto simp: parser_round_def parser_recv_def parser_message_def run_fsm_def w i
        ps_set_rcstate_def new_parser_def parser_clear_def Let_def)
  have p0: "fr_events_good (ps_get_fsm_report ?p) = 0" "ps_rcstate ?p = RUNNING" "ps_sent ?p = []"
    by (simp_all add: ps_get_fsm_report_def ps_set_rcstate_def new_parser_def fsm_init_def fsm_zero_def
        new_FsmReport_def)
  have l: "length (bytes_of one_block_event) < 2 ^ 33" by (simp add: one_block_event_def)
  have "fr_events_good (ps_get_fsm_report q) \<noteq> fr_events_good (ps_get_fsm_report ?p)"
    using q(2) t(2) p0(1) by (simp add: ps_get_fsm_report_def)
  from pipeline_good_event [OF r l p0(2) q(1) this] r q(1) show ?thesis by blast
qed

subsection \<open>Termination and faults\<close>

text \<open>
  In the tag format every round of the parser thread ends, whatever it receives.
\<close>

theorem parser_tag_round_ends:
  assumes "ps_evformat p = FMT_TAG"
  shows "parser_round ser inp p \<noteq> None"
proof -
  have "ps_evformat (snd (parser_recv inp p)) = FMT_TAG"
    using assms by (simp add: parser_recv_def split: recv_result.split)
  then have "parser_message ser m (snd (parser_recv inp p)) \<noteq> None" for m
    by (simp add: parser_message_def run_fsm_def process_tag_total)
  then show ?thesis by (simp add: parser_round_def case_prod_unfold Let_def)
qed

lemma parser_tag_round_ends_witness:
  "parser_round (\<lambda>es. (True, [])) (Got (bytes_of one_block_event))
     (ps_set_rcstate RUNNING (new_parser FMT_TAG fsm_zero)) \<noteq> None"
  by (rule parser_tag_round_ends) (simp add: ps_set_rcstate_def new_parser_def)

text \<open>
  A failing receive is taken for an event: the flag of the previous receive is still
  set, so the round counts an event of no bytes in, logs a serialization error, and sends
  nothing.
\<close>

theorem failed_receive_counts_event:
  assumes "ps_rcstate p = RUNNING" "ps_rc p"
  shows "\<exists>q. parser_round ser Failed p = Some (Inr q) \<and>
    pr_in_events (ps_get_report q) = pr_in_events (ps_get_report p) + 1 \<and>
    pr_in_bytes (ps_get_report q) = pr_in_bytes (ps_get_report p) \<and>
    ps_sent q = ps_sent p \<and>
    ps_log q = ps_log p @ [Plog_recv_error, Plog_serialization None]"
  using assms
  by (simp add: parser_round_def parser_recv_def parser_message_def run_fsm_def fsm_process_def
      event_words_def Let_def fsm_import_def fsm_init_def process_loop.simps [of "(_, _)"]
      parser_clear_def parser_emit_def PARSE_OK_def PARSE_FAIL_def count_in_def ps_get_report_def
      new_FzEvent_def)

lemma failed_receive_counts_event_witness:
  "\<exists>q. parser_round (\<lambda>es. (True, [])) Failed (\<lparr>ps_rcstate = RUNNING, ps_rc = True, ps_evformat = FMT_TAG,
        ps_sm = fsm_zero, ps_report = new_ParserReport, ps_sent = [], ps_log = []\<rparr>) = Some (Inr q) \<and>
     pr_in_events (ps_get_report q) = 1"
proof -
  let ?p = "\<lparr>ps_rcstate = RUNNING, ps_rc = True, ps_evformat = FMT_TAG, ps_sm = fsm_zero,
      ps_report = new_ParserReport, ps_sent = [], ps_log = []\<rparr>"
  obtain q where "parser_round (\<lambda>es. (True, [])) Failed ?p = Some (Inr q)"
    "pr_in_events (ps_get_report q) = pr_in_events (ps_get_report ?p) + 1"
    using failed_receive_counts_event [of ?p "\<lambda>es. (True, [])"] by auto
  then show ?thesis by (simp add: ps_get_report_def new_ParserReport_def)
qed

subsection \<open>The contract of the run control\<close>

definition parser_step :: "parser \<Rightarrow> parser \<Rightarrow> bool" where
  "parser_step p q \<longleftrightarrow> (\<exists>ser inp. parser_round ser inp p = Some (Inr q))"

lemma parser_step_rcstate: "parser_step p q \<Longrightarrow> ps_rcstate q = ps_rcstate p"
  by (auto simp: parser_step_def parser_round_def parser_recv_def parser_clear_def count_in_def Let_def
      elim!: parser_message_Inr split: if_splits recv_result.splits)

interpretation ps: rc_component ps_set_rcstate ps_rcstate parser_step
  by unfold_locales (simp_all add: ps_set_rcstate_def parser_step_rcstate)

end
