(* ===== verification/FzWriter.thy ===== *)
theory FzWriter
  imports FzRC FzWire FzText FzReport
begin

section \<open>The writer: files and run directories\<close>

text \<open>
  \<open>writer/FzWriter.cpp\<close>: allocation of run directories and event files, the thread that
  stores and republishes messages, and the run control of the writer. The file system is
  the content of the base directory (names, and whether each is a directory) and the bytes
  of each file; the clock and the success of \<open>mkdir\<close> are arguments.
\<close>

subsection \<open>State\<close>

datatype writer_error = NullDir | ScanRange | IntOverflow

definition DIR_OK :: nat where "DIR_OK = 0"
definition DIR_EXISTS :: nat where "DIR_EXISTS = 1"
definition DIR_FAIL :: nat where "DIR_FAIL = 2"

text \<open>
  \<open>ww_base\<close> is \<open>None\<close> when the base directory cannot be opened. \<open>ww_output\<close> is the name of
  the file the stream is open on. \<open>ww_last_bytes\<close> and \<open>ww_last_events\<close> are the locals of
  \<open>process\<close> that outlive its rounds. The constructor leaves \<open>fileid\<close>, \<open>esize\<close> and
  \<open>dsize\<close> uninitialised.
\<close>

record writer =
  ww_basedir :: string
  ww_runtag :: string
  ww_dirid :: u32
  ww_fileid :: u32
  ww_dirstr :: string
  ww_store :: bool
  ww_start_newdir :: bool
  ww_event_file_size :: u64
  ww_event_dir_size :: u64
  ww_esize :: u64
  ww_dsize :: u64
  ww_output :: "string option"
  ww_base :: "(string \<times> bool) list option"
  ww_files :: "string \<Rightarrow> bytes option"
  ww_report :: WriterReport
  ww_last_bytes :: u64
  ww_last_events :: u64
  ww_published :: "bytes list"
  ww_rcstate :: RCstate

text \<open>The outside world at the moment of a call: the clock and whether \<open>mkdir\<close> can make
  a new directory.\<close>

record world =
  w_time :: nat
  w_mkdir :: bool

subsection \<open>Run directories\<close>

text \<open>One directory entry in the loop of \<open>get_max_runid\<close>, on \<open>(num, max)\<close>.\<close>

definition runid_entry :: "string \<Rightarrow> string \<times> bool \<Rightarrow> (writer_error, int \<times> int) stmt" where
  "runid_entry runtag e = (\<lambda>(num, mx).
     let num' = (if snd e \<and> strstr (fst e) runtag
                 then (case scan_after_text (fst e) of Some n \<Rightarrow> int n | None \<Rightarrow> num)
                 else num)
     in if num' \<ge> 2 ^ 31 then Inl ScanRange
        else if snd e \<and> strstr (fst e) runtag \<and> num' > mx then Inr (num', num')
        else Inr (num', mx))"

definition get_max_runid :: "writer \<Rightarrow> writer_error + int" where
  "get_max_runid w =
     (case ww_base w of
        None \<Rightarrow> Inl NullDir
      | Some entries \<Rightarrow>
          bindE (seqE (map (runid_entry (ww_runtag w)) entries) (sint (ww_dirid w), sint (ww_dirid w)))
            (\<lambda>(num, mx). Inr mx))"

definition run_name :: "string \<Rightarrow> u32 \<Rightarrow> string" where
  "run_name runtag dirid = runtag @ setw0 6 (dec (unat dirid))"

definition base_has :: "string \<Rightarrow> writer \<Rightarrow> bool" where
  "base_has name w = (case ww_base w of None \<Rightarrow> False | Some es \<Rightarrow> name \<in> fst ` set es)"

text \<open>The part of \<open>setup_newdir\<close> after the first-run search. \<open>status\<close> is still
  \<open>DIR_OK\<close> when the code tests it against 0.\<close>

definition alloc_dir :: "world \<Rightarrow> writer \<Rightarrow> nat \<times> writer" where
  "alloc_dir env w =
     (let name = run_name (ww_runtag w) (ww_dirid w);
          status = DIR_OK;
          exists = base_has name w;
          status' = (if exists then DIR_EXISTS else if status \<noteq> 0 then DIR_FAIL else status)
      in (status', w\<lparr>ww_dirstr := ww_basedir w @ ''/'' @ name,
                     ww_base := (if exists \<or> \<not> w_mkdir env then ww_base w
                                 else map_option (\<lambda>es. es @ [(name, True)]) (ww_base w)),
                     ww_dirid := ww_dirid w + 1\<rparr>))"

text \<open>\<open>firstrun\<close> is the static flag; it is true for the call of the constructor only.\<close>

definition setup_newdir :: "bool \<Rightarrow> world \<Rightarrow> writer \<Rightarrow> writer_error + (nat \<times> writer)" where
  "setup_newdir firstrun env w =
     (if firstrun
      then bindE (get_max_runid w) (\<lambda>mx.
             if mx = 2 ^ 31 - 1 then Inl IntOverflow
             else Inr (alloc_dir env (w\<lparr>ww_dirid := word_of_int (mx + 1)\<rparr>)))
      else Inr (alloc_dir env w))"

subsection \<open>Event files\<close>

definition event_file_name :: "world \<Rightarrow> writer \<Rightarrow> string" where
  "event_file_name env w =
     ww_dirstr w @ ''/'' @ ''FzEventSet-'' @ dec (w_time env) @ ''-'' @ dec (unat (ww_fileid w)) @ ''.pb''"

text \<open>The directory of the files exists when its name is in the base directory.\<close>

definition dir_there :: "writer \<Rightarrow> bool" where
  "dir_there w = (case ww_base w of None \<Rightarrow> False
     | Some es \<Rightarrow> \<exists>(name, d)\<in>set es. d \<and> ww_dirstr w = ww_basedir w @ ''/'' @ name)"

definition setup_newfile :: "world \<Rightarrow> writer \<Rightarrow> writer" where
  "setup_newfile env w =
     (let f = event_file_name env w in
      if dir_there w
      then w\<lparr>ww_output := Some f, ww_files := (ww_files w)(f \<mapsto> []), ww_fileid := ww_fileid w + 1\<rparr>
      else w\<lparr>ww_output := None, ww_fileid := ww_fileid w + 1\<rparr>)"

definition new_run :: "world \<Rightarrow> writer \<Rightarrow> writer" where
  "new_run env w = (setup_newfile env (snd (alloc_dir env w)))\<lparr>ww_esize := 0, ww_dsize := 0\<rparr>"

subsection \<open>The thread\<close>

definition write_message :: "bytes \<Rightarrow> writer \<Rightarrow> writer" where
  "write_message m w =
     (case ww_output w of
        None \<Rightarrow> w
      | Some f \<Rightarrow> w\<lparr>ww_files := (ww_files w)(f \<mapsto>
            WriteDataset_str (case ww_files w f of None \<Rightarrow> [] | Some bs \<Rightarrow> bs) m)\<rparr>)"

definition rotate_files :: "world \<Rightarrow> writer \<Rightarrow> writer" where
  "rotate_files env w =
     (if ww_dsize w > ww_event_dir_size w then new_run env w
      else if ww_esize w > ww_event_file_size w then (setup_newfile env w)\<lparr>ww_esize := 0\<rparr>
      else w)"

definition store_message :: "world \<Rightarrow> bytes \<Rightarrow> writer \<Rightarrow> writer" where
  "store_message env m w =
     (let w1 = write_message m w;
          w2 = w1\<lparr>ww_last_bytes := wr_out_bytes (ww_report w) + of_nat (length m),
                  ww_last_events := wr_out_events (ww_report w) + 1,
                  ww_esize := ww_esize w + of_nat (length m),
                  ww_dsize := ww_dsize w + of_nat (length m)\<rparr>
      in rotate_files env w2)"

definition writer_message :: "world \<Rightarrow> bytes \<Rightarrow> writer \<Rightarrow> writer" where
  "writer_message env m w =
     (let w1 = w\<lparr>ww_report := (ww_report w)\<lparr>
                   wr_in_bytes := wr_in_bytes (ww_report w) + of_nat (length m),
                   wr_in_events := wr_in_events (ww_report w) + 1\<rparr>\<rparr>;
          w2 = (if ww_store w1 then store_message env m w1 else w1)
      in w2\<lparr>ww_report := (ww_report w2)\<lparr>wr_out_bytes := ww_last_bytes w2,
                                           wr_out_events := ww_last_events w2\<rparr>,
            ww_published := ww_published w2 @ [m]\<rparr>)"

text \<open>One round of \<open>process\<close>; no message on a time-out of one second.\<close>

definition writer_round :: "world \<Rightarrow> bytes option \<Rightarrow> writer \<Rightarrow> writer" where
  "writer_round env inp w =
     (if ww_rcstate w = RUNNING
      then (case inp of None \<Rightarrow> w | Some m \<Rightarrow> writer_message env m w)
      else w)"

subsection \<open>Construction and control\<close>

definition new_writer ::
  "string \<Rightarrow> string \<Rightarrow> u32 \<Rightarrow> world \<Rightarrow> (string \<times> bool) list option \<Rightarrow> (string \<Rightarrow> bytes option) \<Rightarrow>
   u32 \<Rightarrow> u64 \<Rightarrow> u64 \<Rightarrow> writer_error + writer" where
  "new_writer bdir run runid env base files fileid0 esize0 dsize0 =
     bindE (setup_newdir True env
       \<lparr>ww_basedir = bdir, ww_runtag = run, ww_dirid = runid, ww_fileid = fileid0, ww_dirstr = [],
        ww_store = True, ww_start_newdir = True, ww_event_file_size = 0, ww_event_dir_size = 0,
        ww_esize = esize0, ww_dsize = dsize0, ww_output = None, ww_base = base, ww_files = files,
        ww_report = new_WriterReport, ww_last_bytes = 0, ww_last_events = 0, ww_published = [],
        ww_rcstate = IDLE\<rparr>)
     (\<lambda>(status, w). Inr (setup_newfile env w))"

definition set_eventfilesize :: "u64 \<Rightarrow> writer \<Rightarrow> writer" where
  "set_eventfilesize sz w = w\<lparr>ww_event_file_size := sz\<rparr>"

definition set_eventdirsize :: "u64 \<Rightarrow> writer \<Rightarrow> writer" where
  "set_eventdirsize sz w = w\<lparr>ww_event_dir_size := sz\<rparr>"

definition set_store :: "bool \<Rightarrow> writer \<Rightarrow> writer" where
  "set_store value w = w\<lparr>ww_store := value\<rparr>"

definition get_store :: "writer \<Rightarrow> bool" where
  "get_store w = ww_store w"

definition wr_get_report :: "writer \<Rightarrow> WriterReport" where
  "wr_get_report w = ww_report w"

definition wr_set_rcstate :: "world \<Rightarrow> RCstate \<Rightarrow> writer \<Rightarrow> writer" where
  "wr_set_rcstate env s w =
     (let w1 = (if (ww_rcstate w = PAUSED \<or> ww_rcstate w = READY) \<and> s = RUNNING
                then (if \<not> ww_start_newdir w \<and> ww_store w then new_run env w else w)
                     \<lparr>ww_start_newdir := False\<rparr>
                else w)
      in w1\<lparr>ww_rcstate := s\<rparr>)"

subsection \<open>Run numbers\<close>

lemma runid_entry_result:
  assumes "runid_entry rtag e (num, mx) = Inr (num', mx')"
  shows "mx \<le> mx' \<and> (snd e \<and> strstr (fst e) rtag \<and> scan_after_text (fst e) = Some n \<longrightarrow> int n \<le> mx')"
  using assms by (auto simp: runid_entry_def Let_def split: if_splits)

lemma runid_entries_max:
  assumes "seqE (map (runid_entry rtag) es) (num, mx) = Inr (num', mx')"
  shows "mx \<le> mx' \<and> (\<forall>(name, d)\<in>set es. d \<and> strstr name rtag \<longrightarrow>
    (\<forall>n. scan_after_text name = Some n \<longrightarrow> int n \<le> mx'))"
  using assms
proof (induction es arbitrary: num mx)
  case (Cons e es)
  then obtain p where p: "runid_entry rtag e (num, mx) = Inr p" "seqE (map (runid_entry rtag) es) p = Inr (num', mx')"
    by (auto simp: bindE_Inr_iff)
  obtain num1 mx1 where p1: "p = (num1, mx1)" by fastforce
  from runid_entry_result [OF p(1) [unfolded p1]] have e: "mx \<le> mx1"
    "\<And>n. snd e \<Longrightarrow> strstr (fst e) rtag \<Longrightarrow> scan_after_text (fst e) = Some n \<Longrightarrow> int n \<le> mx1" by auto
  have r: "mx1 \<le> mx' \<and> (\<forall>(name, d)\<in>set es. d \<and> strstr name rtag \<longrightarrow>
      (\<forall>n. scan_after_text name = Some n \<longrightarrow> int n \<le> mx'))"
    using Cons.IH [of num1 mx1] p(2) p1 by simp
  show ?case using e r by (cases e) force
qed simp

lemma runid_entries_bound:
  "seqE (map (runid_entry rtag) es) (num, mx) = Inr (num', mx') \<Longrightarrow> mx < 2 ^ 31 \<Longrightarrow> mx' < 2 ^ 31"
proof (induction es arbitrary: num mx)
  case (Cons e es)
  then obtain num1 mx1 where p: "runid_entry rtag e (num, mx) = Inr (num1, mx1)"
    "seqE (map (runid_entry rtag) es) (num1, mx1) = Inr (num', mx')"
    by (auto simp: bindE_Inr_iff)
  have "mx1 < 2 ^ 31" using p(1) Cons.prems(2) by (auto simp: runid_entry_def Let_def split: if_splits)
  with Cons.IH p(2) show ?case by blast
qed simp

lemma uint_32_of_int: "0 \<le> i \<Longrightarrow> i < 2 ^ 32 \<Longrightarrow> uint (word_of_int i :: u32) = i"
  by (simp add: unsigned_of_int take_bit_int_eq_self)

lemma scan_run_name:
  assumes "rtag \<noteq> []" "list_all (\<lambda>c. \<not> is_digit c) rtag"
  shows "scan_after_text (run_name rtag k) = Some (unat k)"
  using scan_after_text_name [OF assms, of "setw0 6 (dec (unat k))"]
  by (simp add: run_name_def is_digit_setw0 is_digit_dec)

lemma strstr_run_name: "strstr (run_name rtag k) rtag"
  by (simp add: run_name_def strstr_prefix)

lemma new_writer_run:
  assumes "new_writer bdir rt runid env (Some es) files f0 e0 d0 = Inr w"
  shows "\<exists>num mx. seqE (map (runid_entry rt) es) (sint runid, sint runid) = Inr (num, mx) \<and>
    mx \<noteq> 2 ^ 31 - 1 \<and> ww_dirstr w = bdir @ ''/'' @ run_name rt (word_of_int (mx + 1))"
  using assms
  by (cases "seqE (map (runid_entry rt) es) (sint runid, sint runid)")
     (auto simp: new_writer_def setup_newdir_def get_max_runid_def Let_def setup_newfile_def
        alloc_dir_def split: if_splits)

text \<open>
  A started writer never continues an old run: with a tag that has no digits, the run
  directory the constructor chooses is not among the entries of the base directory that
  are directories, so no earlier run of the tag, whatever its number, is written into.
\<close>

theorem first_run_is_new:
  assumes "new_writer bdir rtag runid env (Some es) files f0 e0 d0 = Inr w"
    and "rtag \<noteq> []" "list_all (\<lambda>c. \<not> is_digit c) rtag" "0 \<le> sint runid"
  shows "\<exists>k. ww_dirstr w = bdir @ ''/'' @ run_name rtag k \<and> (run_name rtag k, True) \<notin> set es \<and>
    (\<forall>j. (run_name rtag j, True) \<in> set es \<longrightarrow> j < k)"
proof -
  obtain num mx where m: "seqE (map (runid_entry rtag) es) (sint runid, sint runid) = Inr (num, mx)"
    and k: "mx \<noteq> 2 ^ 31 - 1"
    and w: "ww_dirstr w = bdir @ ''/'' @ run_name rtag (word_of_int (mx + 1))"
    using new_writer_run [OF assms(1)] by blast
  let ?k = "word_of_int (mx + 1) :: u32"
  have "sint runid < 2 ^ 31" using sint_lt [of runid] by simp
  with runid_entries_bound [OF m] k have b: "mx + 1 < 2 ^ 31" by simp
  from runid_entries_max [OF m] have mx: "sint runid \<le> mx"
    "\<And>j. (run_name rtag j, True) \<in> set es \<Longrightarrow> int (unat j) \<le> mx"
    using strstr_run_name scan_run_name [OF assms(2,3)] by fastforce+
  have u: "int (unat ?k) = mx + 1"
    unfolding uint_nat [symmetric] by (rule uint_32_of_int) (use b mx(1) assms(4) in auto)
  have lt: "j < ?k" if "(run_name rtag j, True) \<in> set es" for j
    using mx(2) [OF that] u unfolding word_less_nat_alt by linarith
  with w show ?thesis by blast
qed

lemma first_run_is_new_witness:
  "\<exists>w. new_writer ''/data'' ''run'' 0 \<lparr>w_time = 7, w_mkdir = True\<rparr>
      (Some [(''run000041'', True), (''run000007'', True), (''notes'', False)]) (\<lambda>_. None) 0 0 0 = Inr w \<and>
     (\<exists>k. ww_dirstr w = ''/data/'' @ run_name ''run'' k \<and>
        (run_name ''run'' k, True) \<notin> set [(''run000041'', True), (''run000007'', True), (''notes'', False)])"
proof -
  let ?n = "\<lambda>e :: world. new_writer ''/data'' ''run'' 0 e
      (Some [(''run000041'', True), (''run000007'', True), (''notes'', False)]) (\<lambda>_. None) 0 0 0"
  have "case ?n \<lparr>w_time = 7, w_mkdir = True\<rparr> of Inl _ \<Rightarrow> False | Inr w \<Rightarrow> True" by code_simp
  then obtain w where w: "?n \<lparr>w_time = 7, w_mkdir = True\<rparr> = Inr w" by (auto split: sum.splits)
  have "list_all (\<lambda>c. \<not> is_digit c) ''run''" by code_simp
  with first_run_is_new [OF w] w show ?thesis by auto
qed

lemma scan_digits_first:
  assumes "t \<noteq> []" "list_all (\<lambda>c. \<not> is_digit c) t" "ds \<noteq> []" "list_all is_digit ds"
    and "\<not> is_digit c"
  shows "scan_after_text (t @ ds @ c # u) = Some (num_of ds)"
proof -
  have d: "takeWhile (\<lambda>c. \<not> is_digit c) (ds @ c # u) = []" "dropWhile (\<lambda>c. \<not> is_digit c) (ds @ c # u) = ds @ c # u"
    using assms(3,4) by (cases ds; simp)+
  have "takeWhile (\<lambda>c. \<not> is_digit c) (t @ ds @ c # u) = t"
    using assms(2) by (subst takeWhile_append2) (auto simp: list_all_iff d)
  moreover have "dropWhile (\<lambda>c. \<not> is_digit c) (t @ ds @ c # u) = ds @ c # u"
    using assms(2) by (subst dropWhile_append2) (auto simp: list_all_iff d)
  moreover have "takeWhile is_digit (ds @ c # u) = ds"
    using assms(4,5) by (subst takeWhile_append2) (auto simp: list_all_iff)
  ultimately show ?thesis using assms(1,3) by (simp only: scan_after_text_def Let_def) simp
qed

lemma runid_entries_same:
  assumes "\<And>name. (name, True) \<in> set es \<Longrightarrow> strstr name rt \<and> scan_after_text name = Some n"
    and "int n < 2 ^ 31" "num < 2 ^ 31" "mx \<le> int n"
  shows "\<exists>num'. seqE (map (runid_entry rt) es) (num, mx) =
    Inr (num', if \<exists>name. (name, True) \<in> set es then int n else mx)"
  using assms
proof (induction es arbitrary: num mx)
  case (Cons e es)
  obtain name d where e: "e = (name, d)" by (cases e)
  show ?case
  proof (cases d)
    case True
    then have s: "strstr name rt" "scan_after_text name = Some n" using Cons.prems(1) e by auto
    then have "runid_entry rt e (num, mx) = Inr (if int n > mx then (int n, int n) else (int n, mx))"
      using Cons.prems(2) True e by (simp add: runid_entry_def Let_def)
    also have "\<dots> = Inr (int n, int n)" using Cons.prems(4) by simp
    finally show ?thesis
      using Cons.IH [of "int n" "int n"] Cons.prems(1,2) True e by auto
  next
    case False
    then have "runid_entry rt e (num, mx) = Inr (num, mx)"
      using Cons.prems(3) e by (simp add: runid_entry_def)
    then show ?thesis using Cons.IH [of num mx] Cons.prems False e by auto
  qed
qed simp

text \<open>
  A tag with digits defeats the search for the last run: the scan of every directory of
  such a tag stops at the digits of the tag, so the first run of each start gets the number
  after them (or after the configured one), whatever runs are there; once it is there it
  is used again.
\<close>

theorem digits_in_tag_stick:
  assumes "t \<noteq> []" "list_all (\<lambda>c. \<not> is_digit c) t" "ds \<noteq> []" "list_all is_digit ds" "\<not> is_digit c"
    and "rt = t @ ds @ c # u" "num_of ds < 2 ^ 31 - 1"
    and "\<forall>(name, d)\<in>set es. d \<longrightarrow> (\<exists>k. name = run_name rt k)" "\<exists>name. (name, True) \<in> set es"
    and "sint runid \<le> int (num_of ds)"
    and "new_writer bdir rt runid env (Some es) files f0 e0 d0 = Inr w"
  shows "ww_dirstr w = bdir @ ''/'' @ run_name rt (of_nat (num_of ds + 1))"
proof -
  have "scan_after_text (run_name rt k) = Some (num_of ds)" for k
    using scan_digits_first [OF assms(1-5), of "u @ setw0 6 (dec (unat k))"]
    by (simp add: run_name_def assms(6))
  then have "\<And>name. (name, True) \<in> set es \<Longrightarrow> strstr name rt \<and> scan_after_text name = Some (num_of ds)"
    using assms(8) strstr_run_name by fastforce
  moreover have "sint runid < 2 ^ 31" using sint_lt [of runid] by simp
  moreover have "int (num_of ds) < 2 ^ 31" using assms(7) by simp
  ultimately obtain num' where "seqE (map (runid_entry rt) es) (sint runid, sint runid) = Inr (num', int (num_of ds))"
    using runid_entries_same [of es rt "num_of ds" "sint runid" "sint runid"] assms(9,10) by auto
  then have "ww_dirstr w = bdir @ ''/'' @ run_name rt (word_of_int (int (num_of ds) + 1))"
    using new_writer_run [OF assms(11)] by auto
  then show ?thesis by (simp add: add.commute)
qed

lemma digits_in_tag_stick_witness:
  "\<exists>w. new_writer ''/data'' ''lns2015_'' 0 \<lparr>w_time = 7, w_mkdir = True\<rparr>
      (Some [(run_name ''lns2015_'' 2016, True)]) (\<lambda>_. None) 0 0 0 = Inr w \<and>
    ww_dirstr w = ''/data/'' @ run_name ''lns2015_'' (of_nat (num_of ''2015'' + 1)) \<and>
    run_name ''lns2015_'' (of_nat (num_of ''2015'' + 1)) = run_name ''lns2015_'' 2016"
proof -
  let ?n = "\<lambda>e :: world. new_writer ''/data'' ''lns2015_'' 0 e
      (Some [(run_name ''lns2015_'' 2016, True)]) (\<lambda>_. None) 0 0 0"
  have n: "num_of ''2015'' = 2015" by code_simp
  have "case ?n \<lparr>w_time = 7, w_mkdir = True\<rparr> of Inl _ \<Rightarrow> False | Inr w \<Rightarrow> True" by code_simp
  then obtain w where w: "?n \<lparr>w_time = 7, w_mkdir = True\<rparr> = Inr w" by (auto split: sum.splits)
  have "list_all (\<lambda>c. \<not> is_digit c) ''lns''" "list_all is_digit ''2015''" "\<not> is_digit (CHR ''_'')"
    by code_simp+
  then have "ww_dirstr w = ''/data'' @ ''/'' @ run_name ''lns2015_'' (of_nat (num_of ''2015'' + 1))"
    by (intro digits_in_tag_stick [where t = "''lns''" and ds = "''2015''" and c = "CHR ''_''" and u = "[]"
          and runid = 0 and env = "\<lparr>w_time = 7, w_mkdir = True\<rparr>" and files = "\<lambda>_. None" and ?f0.0 = 0
          and ?e0.0 = 0 and ?d0.0 = 0 and es = "[(run_name ''lns2015_'' 2016, True)]"])
       (use w n in auto)
  with w n show ?thesis by auto
qed

subsection \<open>Directories while running\<close>

text \<open>
  \<open>setup_newdir\<close> cannot report a failure: its result is \<open>DIR_EXISTS\<close> when the name is
  taken and \<open>DIR_OK\<close> otherwise, also when \<open>mkdir\<close> failed and there is no directory.
\<close>

theorem setup_newdir_never_fails:
  assumes "setup_newdir False env w = Inr (status, w')"
  shows "status = (if base_has (run_name (ww_runtag w) (ww_dirid w)) w then DIR_EXISTS else DIR_OK) \<and>
    status \<noteq> DIR_FAIL \<and>
    (\<not> w_mkdir env \<longrightarrow> ww_base w' = ww_base w)"
  using assms
  by (auto simp: setup_newdir_def alloc_dir_def Let_def DIR_OK_def DIR_EXISTS_def DIR_FAIL_def)

definition writer_zero :: writer where
  "writer_zero = \<lparr>ww_basedir = ''/d'', ww_runtag = ''run'', ww_dirid = 5, ww_fileid = 0, ww_dirstr = [],
     ww_store = True, ww_start_newdir = False, ww_event_file_size = 10, ww_event_dir_size = 20,
     ww_esize = 0, ww_dsize = 0, ww_output = None, ww_base = Some [], ww_files = \<lambda>_. None,
     ww_report = new_WriterReport, ww_last_bytes = 0, ww_last_events = 0, ww_published = [],
     ww_rcstate = READY\<rparr>"

lemma setup_newdir_never_fails_witness:
  "\<exists>w'. setup_newdir False \<lparr>w_time = 1, w_mkdir = False\<rparr> writer_zero = Inr (DIR_OK, w') \<and>
     DIR_OK \<noteq> DIR_FAIL \<and> ww_base w' = Some []"
proof -
  let ?e = "\<lparr>w_time = 1, w_mkdir = False\<rparr>"
  obtain w' where w: "setup_newdir False ?e writer_zero = Inr (DIR_OK, w')"
    by (simp add: setup_newdir_def alloc_dir_def writer_zero_def base_has_def DIR_OK_def)
  from setup_newdir_never_fails [OF w] w show ?thesis by (auto simp: writer_zero_def)
qed

text \<open>
  Every start of data taking after the first opens a new run when the writer stores:
  going to running from ready or paused moves to the directory of the next number, opens a
  file in it and counts its sizes from zero; the first start keeps the directory of the
  constructor.
\<close>

theorem start_opens_run:
  assumes "ww_rcstate w = READY \<or> ww_rcstate w = PAUSED" "ww_store w"
    and "w' = wr_set_rcstate env RUNNING w"
  shows "ww_rcstate w' = RUNNING \<and> \<not> ww_start_newdir w' \<and>
    (if ww_start_newdir w then ww_dirstr w' = ww_dirstr w \<and> ww_output w' = ww_output w \<and> ww_dirid w' = ww_dirid w
     else ww_dirstr w' = ww_basedir w @ ''/'' @ run_name (ww_runtag w) (ww_dirid w) \<and>
       ww_dirid w' = ww_dirid w + 1 \<and> ww_fileid w' = ww_fileid w + 1 \<and> ww_esize w' = 0 \<and> ww_dsize w' = 0)"
  using assms
  by (auto simp: wr_set_rcstate_def new_run_def setup_newfile_def alloc_dir_def Let_def)

lemma start_opens_run_witness:
  "ww_dirstr (wr_set_rcstate \<lparr>w_time = 1, w_mkdir = True\<rparr> RUNNING writer_zero) = ''/d/run000005''"
proof -
  have "run_name ''run'' 5 = ''run000005''" by code_simp
  with start_opens_run [of writer_zero _ "\<lparr>w_time = 1, w_mkdir = True\<rparr>", OF _ _ refl] show ?thesis
    by (simp add: writer_zero_def)
qed

subsection \<open>What is in the files\<close>

text \<open>
  \<open>stored hist w\<close>: the files written since some point, as names with the messages in
  them, the last one being open. Names carry numbers below \<open>fileid\<close>. The counts of bytes
  that decide the rotation play no part; the constructor does not even set them.
\<close>

definition numbered :: "nat \<Rightarrow> string \<Rightarrow> bool" where
  "numbered i f \<longleftrightarrow> (\<exists>x. f = x @ ''-'' @ dec i @ ''.pb'')"

definition on_disk :: "(string \<times> bytes list) list \<Rightarrow> writer \<Rightarrow> bool" where
  "on_disk hist w \<longleftrightarrow>
     (\<forall>(f, ms)\<in>set hist. ww_files w f = Some (records ms) \<and> (\<exists>i<unat (ww_fileid w). numbered i f)) \<and>
     distinct (map fst hist)"

definition stored :: "(string \<times> bytes list) list \<Rightarrow> writer \<Rightarrow> bool" where
  "stored hist w \<longleftrightarrow> on_disk hist w \<and> hist \<noteq> [] \<and> ww_output w = Some (fst (last hist))"

text \<open>The directory of the run is there, and no plain file has the name of a run.\<close>

definition dirs_ok :: "writer \<Rightarrow> bool" where
  "dirs_ok w \<longleftrightarrow> dir_there w \<and>
     (\<exists>es. ww_base w = Some es \<and> (\<forall>k. (run_name (ww_runtag w) k, False) \<notin> set es))"

lemma numbered_unique:
  assumes "numbered i f" "numbered j f"
  shows "i = j"
proof -
  obtain x y where f: "f = x @ ''-'' @ dec i @ ''.pb''" "f = y @ ''-'' @ dec j @ ''.pb''"
    using assms unfolding numbered_def by blast
  then have "x @ ''-'' @ dec i = y @ ''-'' @ dec j" by simp
  from arg_cong [OF this, of rev]
  have e: "rev (dec i) @ CHR ''-'' # rev x = rev (dec j) @ CHR ''-'' # rev y" by simp
  have d: "\<not> is_digit (CHR ''-'')" by code_simp
  have "takeWhile is_digit (rev (dec n) @ CHR ''-'' # z) = rev (dec n)" for n z
    using is_digit_dec [of n] d by (subst takeWhile_append2) (auto simp: list_all_iff)
  with e have "rev (dec i) = rev (dec j)" by metis
  then show ?thesis by (simp add: dec_inj)
qed

lemma numbered_event_file: "numbered (unat (ww_fileid w)) (event_file_name env w)"
  by (auto simp: numbered_def event_file_name_def
      intro!: exI [of _ "ww_dirstr w @ ''/'' @ ''FzEventSet-'' @ dec (w_time env)"])

lemma setup_newfile_on_disk:
  assumes "on_disk hist w" "dir_there w" "unat (ww_fileid w) + 1 < 2 ^ 32"
  shows "on_disk (hist @ [(event_file_name env w, [])]) (setup_newfile env w)"
proof -
  let ?f = "event_file_name env w"
  have u: "unat (ww_fileid w + 1) = unat (ww_fileid w) + 1"
    using assms(3) by (simp add: unat_word_ariths)
  have h: "(f, ms) \<in> set hist \<Longrightarrow> ww_files w f = Some (records ms) \<and> (\<exists>i<unat (ww_fileid w). numbered i f)" for f ms
    using assms(1) by (auto simp: on_disk_def)
  have n: "?f \<noteq> f" if "(f, ms) \<in> set hist" for f ms
    using h [OF that] numbered_unique [OF numbered_event_file [of w env]] by auto
  have s: "ww_files (setup_newfile env w) = (ww_files w)(?f \<mapsto> [])"
      "ww_fileid (setup_newfile env w) = ww_fileid w + 1"
    using assms(2) by (simp_all add: setup_newfile_def Let_def)
  have "ww_files (setup_newfile env w) f = Some (records ms) \<and>
      (\<exists>i<unat (ww_fileid (setup_newfile env w)). numbered i f)"
    if "(f, ms) \<in> set (hist @ [(?f, [])])" for f ms
  proof (cases "(f, ms) \<in> set hist")
    case True
    with h [OF True] n [OF True] show ?thesis unfolding s u by (auto simp: less_Suc_eq)
  next
    case False
    then have "f = ?f" "ms = []" using that by auto
    then show ?thesis unfolding s u using numbered_event_file [of w env] by auto
  qed
  moreover have "distinct (map fst (hist @ [(?f, [])]))"
    using assms(1) n by (force simp: on_disk_def)
  ultimately show ?thesis unfolding on_disk_def by blast
qed

lemma on_disk_frame:
  assumes "ww_files w' = ww_files w" "ww_fileid w' = ww_fileid w"
  shows "on_disk hist w' = on_disk hist w"
  using assms by (simp add: on_disk_def)

lemma write_message_on_disk:
  assumes "on_disk (hist @ [(f, ms)]) w" "ww_output w = Some f"
  shows "on_disk (hist @ [(f, ms @ [m])]) (write_message m w)"
  using assms by (fastforce simp: on_disk_def write_message_def records_snoc image_iff)

lemma alloc_dir_there:
  assumes "ww_base w = Some es" "\<And>k. (run_name (ww_runtag w) k, False) \<notin> set es" "w_mkdir env"
  shows "dirs_ok (snd (alloc_dir env w))"
proof -
  let ?n = "run_name (ww_runtag w) (ww_dirid w)"
  note es = assms(1,2)
  show ?thesis
  proof (cases "?n \<in> fst ` set es")
    case True
    then obtain b where b: "(?n, b) \<in> set es" by auto
    then have "(?n, True) \<in> set es" using es(2) [of "ww_dirid w"] by (cases b) auto
    then show ?thesis using es assms(3)
      by (force simp: dirs_ok_def alloc_dir_def dir_there_def Let_def base_has_def)
  next
    case False
    then show ?thesis using es assms(3)
      by (auto simp: dirs_ok_def alloc_dir_def dir_there_def Let_def base_has_def)
  qed
qed

lemma alloc_dir_dirs_ok:
  assumes "dirs_ok w" "w_mkdir env"
  shows "dirs_ok (snd (alloc_dir env w))"
  using assms alloc_dir_there [of w _ env] by (auto simp: dirs_ok_def)

lemma dirs_ok_frame:
  assumes "ww_base w' = ww_base w" "ww_dirstr w' = ww_dirstr w" "ww_basedir w' = ww_basedir w"
    "ww_runtag w' = ww_runtag w"
  shows "dirs_ok w' = dirs_ok w"
  using assms by (cases "ww_base w") (simp_all add: dirs_ok_def dir_there_def)

lemma on_disk_other [simp]:
  "on_disk h (w\<lparr>ww_esize := a\<rparr>) = on_disk h w" "on_disk h (w\<lparr>ww_dsize := a\<rparr>) = on_disk h w"
  "on_disk h (w\<lparr>ww_report := rep\<rparr>) = on_disk h w" "on_disk h (w\<lparr>ww_published := ps\<rparr>) = on_disk h w"
  by (simp_all add: on_disk_def)

lemma dirs_ok_other [simp]:
  "dirs_ok (w\<lparr>ww_esize := a\<rparr>) = dirs_ok w" "dirs_ok (w\<lparr>ww_dsize := a\<rparr>) = dirs_ok w"
  "dirs_ok (w\<lparr>ww_report := rep\<rparr>) = dirs_ok w" "dirs_ok (w\<lparr>ww_published := ps\<rparr>) = dirs_ok w"
  by (rule dirs_ok_frame; simp)+

lemma setup_newfile_frame [simp]:
  "ww_base (setup_newfile env w) = ww_base w" "ww_dirstr (setup_newfile env w) = ww_dirstr w"
  "ww_basedir (setup_newfile env w) = ww_basedir w" "ww_runtag (setup_newfile env w) = ww_runtag w"
  "ww_store (setup_newfile env w) = ww_store w" "ww_rcstate (setup_newfile env w) = ww_rcstate w"
  "ww_event_file_size (setup_newfile env w) = ww_event_file_size w"
  "ww_event_dir_size (setup_newfile env w) = ww_event_dir_size w"
  "ww_esize (setup_newfile env w) = ww_esize w" "ww_dsize (setup_newfile env w) = ww_dsize w"
  "ww_fileid (setup_newfile env w) = ww_fileid w + 1"
  "dir_there w \<Longrightarrow> ww_output (setup_newfile env w) = Some (event_file_name env w)"
  by (simp_all add: setup_newfile_def Let_def)

lemma setup_newfile_dirs_ok [simp]: "dirs_ok (setup_newfile env w) = dirs_ok w"
  by (rule dirs_ok_frame) simp_all

lemma alloc_dir_frame [simp]:
  "ww_files (snd (alloc_dir env w)) = ww_files w" "ww_fileid (snd (alloc_dir env w)) = ww_fileid w"
  "ww_store (snd (alloc_dir env w)) = ww_store w" "ww_rcstate (snd (alloc_dir env w)) = ww_rcstate w"
  "ww_event_file_size (snd (alloc_dir env w)) = ww_event_file_size w"
  "ww_event_dir_size (snd (alloc_dir env w)) = ww_event_dir_size w"
  by (simp_all add: alloc_dir_def Let_def)

text \<open>What rounds leave alone, and the numbers they use up.\<close>

definition same_setup :: "writer \<Rightarrow> writer \<Rightarrow> bool" where
  "same_setup w w' \<longleftrightarrow> ww_store w' = ww_store w \<and> ww_rcstate w' = ww_rcstate w \<and>
     unat (ww_fileid w') \<le> unat (ww_fileid w) + 1"

lemma fileid_step: "unat ((n :: u32) + 1) \<le> unat n + 1"
  by (simp add: unat_word_ariths)

lemma new_run_stored:
  assumes "on_disk hist w" "dirs_ok w" "w_mkdir env" "unat (ww_fileid w) + 1 < 2 ^ 32"
  shows "(\<exists>g. stored (hist @ [(g, [])]) (new_run env w)) \<and> dirs_ok (new_run env w) \<and> same_setup w (new_run env w)"
proof -
  let ?a = "snd (alloc_dir env w)"
  have a: "dirs_ok ?a" using alloc_dir_dirs_ok [OF assms(2,3)] .
  then have d: "dir_there ?a" by (simp add: dirs_ok_def)
  have "on_disk hist ?a" using assms(1) by (simp add: on_disk_frame [of ?a w])
  then have "on_disk (hist @ [(event_file_name env ?a, [])]) (setup_newfile env ?a)"
    by (rule setup_newfile_on_disk) (use d assms(4) in simp_all)
  then have "stored (hist @ [(event_file_name env ?a, [])]) (new_run env w)"
    using d by (simp add: new_run_def stored_def)
  moreover have "dirs_ok (new_run env w)" using a by (simp add: new_run_def)
  ultimately show ?thesis using fileid_step [of "ww_fileid w"] by (auto simp: new_run_def same_setup_def)
qed

lemma rotate_stored:
  assumes "on_disk hist w" "hist \<noteq> []" "ww_output w = Some (fst (last hist))" "dirs_ok w"
    and "w_mkdir env" "unat (ww_fileid w) + 1 < 2 ^ 32"
  shows "(stored hist (rotate_files env w) \<or> (\<exists>g. stored (hist @ [(g, [])]) (rotate_files env w))) \<and>
    dirs_ok (rotate_files env w) \<and> same_setup w (rotate_files env w)"
proof -
  consider (newrun) "ww_dsize w > ww_event_dir_size w"
    | (newfile) "\<not> ww_dsize w > ww_event_dir_size w" "ww_esize w > ww_event_file_size w"
    | (neither) "\<not> ww_dsize w > ww_event_dir_size w" "\<not> ww_esize w > ww_event_file_size w" by blast
  then show ?thesis
  proof cases
    case newrun
    then have "rotate_files env w = new_run env w" by (simp add: rotate_files_def)
    with new_run_stored [OF assms(1,4-6)] show ?thesis by auto
  next
    case newfile
    then have r: "rotate_files env w = (setup_newfile env w)\<lparr>ww_esize := 0\<rparr>" by (simp add: rotate_files_def)
    have d: "dir_there w" using assms(4) by (simp add: dirs_ok_def)
    have "on_disk (hist @ [(event_file_name env w, [])]) (setup_newfile env w)"
      using setup_newfile_on_disk [OF assms(1) d assms(6)] .
    then have "stored (hist @ [(event_file_name env w, [])]) (rotate_files env w)"
      using d newfile by (simp add: r stored_def not_less)
    moreover have "dirs_ok (rotate_files env w)" using assms(4) by (simp add: r)
    ultimately show ?thesis using fileid_step [of "ww_fileid w"] by (auto simp: r same_setup_def)
  next
    case neither
    then have "rotate_files env w = w" by (simp add: rotate_files_def)
    then show ?thesis using assms by (simp add: stored_def same_setup_def)
  qed
qed

lemma round_stored:
  assumes "stored (hist @ [(f, ms)]) w" "dirs_ok w" "ww_rcstate w = RUNNING" "ww_store w"
    and "w_mkdir env" "unat (ww_fileid w) + 1 < 2 ^ 32"
  shows "\<exists>hist'. stored hist' (writer_round env (Some m) w) \<and>
    concat (map snd hist') = concat (map snd (hist @ [(f, ms)])) @ [m] \<and>
    dirs_ok (writer_round env (Some m) w) \<and> same_setup w (writer_round env (Some m) w)"
proof -
  let ?h = "hist @ [(f, ms @ [m])]"
  let ?w1 = "w\<lparr>ww_report := (ww_report w)\<lparr>wr_in_bytes := wr_in_bytes (ww_report w) + of_nat (length m),
                   wr_in_events := wr_in_events (ww_report w) + 1\<rparr>\<rparr>"
  let ?w2 = "(write_message m ?w1)\<lparr>ww_last_bytes := wr_out_bytes (ww_report ?w1) + of_nat (length m),
                  ww_last_events := wr_out_events (ww_report ?w1) + 1,
                  ww_esize := ww_esize ?w1 + of_nat (length m),
                  ww_dsize := ww_dsize ?w1 + of_nat (length m)\<rparr>"
  have o: "ww_output w = Some f" "on_disk (hist @ [(f, ms)]) w"
    using assms(1) by (simp_all add: stored_def)
  have wm: "ww_files (write_message m ?w1) = ww_files (write_message m w)"
    by (simp add: write_message_def split: option.split)
  have fr: "ww_fileid ?w2 = ww_fileid w" "ww_base ?w2 = ww_base w" "ww_dirstr ?w2 = ww_dirstr w"
      "ww_basedir ?w2 = ww_basedir w" "ww_runtag ?w2 = ww_runtag w" "ww_output ?w2 = Some f"
      "ww_store ?w2 = ww_store w" "ww_rcstate ?w2 = ww_rcstate w"
    by (simp_all add: write_message_def o(1))
  have "ww_fileid (write_message m w) = ww_fileid w" by (simp add: write_message_def o(1))
  then have d: "on_disk ?h ?w2"
    using write_message_on_disk [OF o(2) o(1), of m] wm fr(1)
    by (subst on_disk_frame [of ?w2 "write_message m w"]) simp_all
  have op: "ww_output ?w2 = Some (fst (last ?h))" unfolding fr(6) by simp
  have "dirs_ok ?w2 = dirs_ok w" by (rule dirs_ok_frame) (rule fr)+
  then have dk: "dirs_ok ?w2" using assms(2) by simp
  from rotate_stored [OF d _ op dk assms(5)] assms(6) fr
  have r: "stored ?h (rotate_files env ?w2) \<or> (\<exists>g. stored (?h @ [(g, [])]) (rotate_files env ?w2))"
    "dirs_ok (rotate_files env ?w2)" "same_setup w (rotate_files env ?w2)"
    by (simp_all add: same_setup_def)
  have e: "writer_round env (Some m) w = (rotate_files env ?w2)\<lparr>ww_report := rep, ww_published := ps\<rparr>"
    if "rep = (ww_report (rotate_files env ?w2))\<lparr>wr_out_bytes := ww_last_bytes (rotate_files env ?w2),
         wr_out_events := ww_last_events (rotate_files env ?w2)\<rparr>" "ps = ww_published (rotate_files env ?w2) @ [m]" for rep ps
    using assms(3,4) that by (simp add: writer_round_def writer_message_def store_message_def Let_def)
  have s: "stored h (x\<lparr>ww_report := rep, ww_published := ps\<rparr>) = stored h x"
    "dirs_ok (x\<lparr>ww_report := rep, ww_published := ps\<rparr>) = dirs_ok x"
    "same_setup w (x\<lparr>ww_report := rep, ww_published := ps\<rparr>) = same_setup w x" for h x rep ps
    by (simp_all add: stored_def same_setup_def)
  from r show ?thesis unfolding e [OF refl refl] s by auto
qed

text \<open>A change of state may open a new run.\<close>

lemma stored_other [simp]:
  "stored h (w\<lparr>ww_rcstate := s\<rparr>) = stored h w" "stored h (w\<lparr>ww_start_newdir := b\<rparr>) = stored h w"
  by (simp_all add: stored_def on_disk_def)

lemma set_rcstate_stored:
  assumes "stored hist w" "dirs_ok w" "w_mkdir env" "unat (ww_fileid w) + 1 < 2 ^ 32"
  shows "\<exists>hist'. stored hist' (wr_set_rcstate env s w) \<and> concat (map snd hist') = concat (map snd hist) \<and>
    dirs_ok (wr_set_rcstate env s w) \<and> ww_store (wr_set_rcstate env s w) = ww_store w"
proof -
  have d: "dirs_ok (x\<lparr>ww_rcstate := s\<rparr>) = dirs_ok x" "dirs_ok (x\<lparr>ww_start_newdir := b\<rparr>) = dirs_ok x" for x b
    by (rule dirs_ok_frame; simp)+
  have "on_disk hist w" using assms(1) by (simp add: stored_def)
  from new_run_stored [OF this assms(2-4)] obtain g where "stored (hist @ [(g, [])]) (new_run env w)"
    "dirs_ok (new_run env w)" "same_setup w (new_run env w)" by blast
  then show ?thesis using assms(1,2)
    by (auto simp: wr_set_rcstate_def Let_def d same_setup_def intro: exI [of _ "hist @ [(g, [])]"])
qed

text \<open>The constructor opens the first file.\<close>

lemma new_writer_stored:
  assumes "new_writer bdir run runid env (Some es) files fileid0 e0 d0 = Inr w" "w_mkdir env"
    and "\<And>k. (run_name run k, False) \<notin> set es" "unat fileid0 + 1 < 2 ^ 32"
  shows "\<exists>f. stored [(f, [])] w \<and> dirs_ok w \<and> ww_store w \<and> ww_rcstate w = IDLE"
proof -
  let ?w0 = "\<lparr>ww_basedir = bdir, ww_runtag = run, ww_dirid = runid, ww_fileid = fileid0, ww_dirstr = [],
        ww_store = True, ww_start_newdir = True, ww_event_file_size = 0, ww_event_dir_size = 0,
        ww_esize = e0, ww_dsize = d0, ww_output = None, ww_base = Some es, ww_files = files,
        ww_report = new_WriterReport, ww_last_bytes = 0, ww_last_events = 0, ww_published = [],
        ww_rcstate = IDLE\<rparr>"
  obtain mx st b where b: "w = setup_newfile env b" "alloc_dir env (?w0\<lparr>ww_dirid := word_of_int (mx + 1)\<rparr>) = (st, b)"
    using assms(1) by (auto simp: new_writer_def setup_newdir_def bindE_Inr_iff split: if_splits)
  obtain w1 where "w1 = ?w0\<lparr>ww_dirid := word_of_int (mx + 1)\<rparr>" by blast
  then have w1: "w = setup_newfile env (snd (alloc_dir env w1))" "ww_base w1 = Some es"
    "ww_runtag w1 = run" "ww_fileid w1 = fileid0" "ww_store w1" "ww_rcstate w1 = IDLE"
    using b by simp_all
  let ?a = "snd (alloc_dir env w1)"
  have a: "dirs_ok ?a" using w1 assms(2,3) by (intro alloc_dir_there) simp_all
  then have d: "dir_there ?a" by (simp add: dirs_ok_def)
  have "on_disk [] ?a" by (simp add: on_disk_def)
  from setup_newfile_on_disk [OF this d, of env] assms(4) w1 d
  have "stored [(event_file_name env ?a, [])] w" by (simp add: stored_def)
  moreover have "dirs_ok w" using a w1(1) by simp
  ultimately show ?thesis using w1 by auto
qed

definition store_all :: "(world \<times> bytes) list \<Rightarrow> writer \<Rightarrow> writer" where
  "store_all rounds w = fold (\<lambda>(env, m). writer_round env (Some m)) rounds w"

lemma store_all_stored:
  assumes "stored hist w" "dirs_ok w" "ww_rcstate w = RUNNING" "ww_store w"
    and "\<forall>(env, m)\<in>set rounds. w_mkdir env"
    and "unat (ww_fileid w) + length rounds < 2 ^ 32"
  shows "\<exists>hist'. stored hist' (store_all rounds w) \<and>
    concat (map snd hist') = concat (map snd hist) @ map snd rounds"
  using assms
proof (induction rounds arbitrary: w hist)
  case Nil
  then show ?case by (auto simp: store_all_def)
next
  case (Cons x rounds)
  obtain env m where x: "x = (env, m)" by (cases x)
  let ?w = "writer_round env (Some m) w"
  obtain hh f ms where h: "hist = hh @ [(f, ms)]"
    using Cons.prems(1) by (cases hist rule: rev_cases) (auto simp: stored_def)
  obtain hist1 where s: "stored hist1 ?w" "concat (map snd hist1) = concat (map snd hist) @ [m]"
      "dirs_ok ?w" "same_setup w ?w"
    using round_stored [OF Cons.prems(1) [unfolded h] Cons.prems(2-4), of env m] Cons.prems(5,6) h x by auto
  obtain hist' where "stored hist' (store_all rounds ?w)"
      "concat (map snd hist') = concat (map snd hist1) @ map snd rounds"
    using Cons.IH [OF s(1,3)] Cons.prems s(4) by (force simp: same_setup_def)
  then show ?case using s(2) by (auto simp: store_all_def x)
qed

text \<open>
  C11. No stored message is lost or doubled: while a running writer stores, the messages it
  receives end up, in order and once each, in files of different names, and reading those
  files back one after the other with the reading loop gives the messages again. The limits
  only decide where one file ends and the next begins.
\<close>

theorem writer_stores_all:
  assumes "stored [(f, [])] w" "dirs_ok w" "ww_rcstate w = RUNNING" "ww_store w"
    and "\<forall>(env, m)\<in>set rounds. w_mkdir env \<and> 0 < length m \<and> length m < 2 ^ 32"
    and "unat (ww_fileid w) + length rounds < 2 ^ 32"
  shows "\<exists>hist. distinct (map fst hist) \<and>
    concat (map snd hist) = map snd rounds \<and>
    (\<forall>(g, ms)\<in>set hist. \<exists>bs. ww_files (store_all rounds w) g = Some bs \<and>
       (\<forall>old. read_file parse old \<lparr>is_rest = bs, is_eof = False\<rparr> = map parse ms))"
proof -
  have "\<forall>(env, m)\<in>set rounds. w_mkdir env" using assms(5) by fastforce
  from store_all_stored [OF assms(1-4) this assms(6)] obtain hist where h:
    "stored hist (store_all rounds w)" "concat (map snd hist) = map snd rounds" by auto
  have c: "(g, ms) \<in> set hist \<Longrightarrow> ww_files (store_all rounds w) g = Some (records ms)" for g ms
    using h(1) by (auto simp: stored_def on_disk_def)
  have l: "0 < length m \<and> length m < 2 ^ 32" if "(g, ms) \<in> set hist" "m \<in> set ms" for g ms m
  proof -
    have "m \<in> set (concat (map snd hist))" using that by force
    then show ?thesis using assms(5) h(2) by auto
  qed
  have "read_file parse old \<lparr>is_rest = records ms, is_eof = False\<rparr> = map parse ms"
    if "(g, ms) \<in> set hist" for g ms old
    by (rule read_records) (use l [OF that] in blast)
  with c h show ?thesis by (intro exI [of _ hist]) (auto simp: stored_def on_disk_def)
qed

definition running_writer :: writer where
  "running_writer = wr_set_rcstate \<lparr>w_time = 1, w_mkdir = True\<rparr> RUNNING writer_zero"

lemma writer_stores_all_witness:
  "\<exists>hist. distinct (map fst hist) \<and>
    concat (map snd hist) = map snd [(\<lparr>w_time = 2, w_mkdir = True\<rparr>, replicate 12 7), (\<lparr>w_time = 3, w_mkdir = True\<rparr>, [1, 2 :: u8])] \<and>
    (\<forall>(g, ms)\<in>set hist. \<exists>bs. ww_files (store_all [(\<lparr>w_time = 2, w_mkdir = True\<rparr>, replicate 12 7), (\<lparr>w_time = 3, w_mkdir = True\<rparr>, [1, 2])] running_writer) g = Some bs \<and>
       (\<forall>old. read_file length old \<lparr>is_rest = bs, is_eof = False\<rparr> = map length ms))"
proof (rule writer_stores_all)
  let ?w = running_writer
  let ?f = "the (ww_output ?w)"
  have s: "ww_output ?w = Some ''/d/run000005/FzEventSet-1-0.pb''" "ww_esize ?w = 0" "ww_dsize ?w = 0"
    "ww_fileid ?w = 1" "ww_files ?w ''/d/run000005/FzEventSet-1-0.pb'' = Some []"
    "ww_base ?w = Some [(''run000005'', True)]" "ww_dirstr ?w = ''/d/run000005''" "ww_basedir ?w = ''/d''"
    "ww_runtag ?w = ''run''" "ww_event_file_size ?w = 10" "ww_event_dir_size ?w = 20"
    by code_simp+
  have n: "numbered 0 ''/d/run000005/FzEventSet-1-0.pb''"
    unfolding numbered_def by (rule exI [of _ "''/d/run000005/FzEventSet-1''"]) (simp add: dec.simps digit_0)
  show "stored [(''/d/run000005/FzEventSet-1-0.pb'', [])] ?w"
    using n by (auto simp: stored_def on_disk_def s)
  show "dirs_ok ?w" by (simp add: dirs_ok_def dir_there_def s)
  show "ww_rcstate ?w = RUNNING" "ww_store ?w" by code_simp+
qed (simp_all add: running_writer_def wr_set_rcstate_def new_run_def setup_newfile_def Let_def alloc_dir_def writer_zero_def)

subsection \<open>The contract of the run control\<close>

definition writer_step :: "writer \<Rightarrow> writer \<Rightarrow> bool" where
  "writer_step w w' \<longleftrightarrow> (\<exists>env inp. w' = writer_round env inp w)"

lemma writer_step_rcstate: "writer_step w w' \<Longrightarrow> ww_rcstate w' = ww_rcstate w"
  by (auto simp: writer_step_def writer_round_def writer_message_def store_message_def rotate_files_def
      new_run_def write_message_def Let_def split: option.split)

interpretation wr: rc_component "wr_set_rcstate env" ww_rcstate writer_step for env
  by unfold_locales (simp_all add: wr_set_rcstate_def Let_def writer_step_rcstate)

end
