(* ===== verification/FzNodeManager.thy ===== *)
theory FzNodeManager
  imports FzParser FzWriter
begin

section \<open>The node manager\<close>

text \<open>
  \<open>nodemanager/FzNodeManager.cpp\<close>: run control of one node in local and remote mode, the
  requests of \<open>proto/FzRCS.proto\<close>, and the performance report. The node owns one reader
  and the parsers (profiles compute and all) and one writer (profiles storage and all);
  the pointers the profile does not use are null. Serialisation is left to the transport:
  requests arrive parsed (\<open>None\<close> when parsing fails) and replies are the messages.
\<close>

subsection \<open>Requests and responses\<close>

datatype Channel = Ch_RC | Ch_SETUP
datatype Operation = READ | WRITE
datatype Module = RD | PSR | WR | NM | CNT
datatype ErrorCode = OK | ERR | DENY

record Request =
  rq_channel :: "Channel option"
  rq_operation :: "Operation option"
  rq_module :: "Module option"
  rq_hostname :: "string option"
  rq_variable :: "string option"
  rq_value :: "string option"

record RcsNode =
  rn_hostname :: string
  rn_profile :: string
  rn_status :: string

record Response =
  rs_value :: "string option"
  rs_errorcode :: ErrorCode
  rs_reason :: string
  rs_node :: "RcsNode list"

definition channel :: "Request \<Rightarrow> Channel" where
  "channel q = get_or Ch_RC (rq_channel q)"

definition operation :: "Request \<Rightarrow> Operation" where
  "operation q = get_or READ (rq_operation q)"

definition req_module :: "Request \<Rightarrow> Module" where
  "req_module q = get_or RD (rq_module q)"

definition req_hostname :: "Request \<Rightarrow> string" where
  "req_hostname q = get_or [] (rq_hostname q)"

definition variable :: "Request \<Rightarrow> string" where
  "variable q = get_or [] (rq_variable q)"

definition req_value :: "Request \<Rightarrow> string" where
  "req_value q = get_or [] (rq_value q)"

definition new_Response :: Response where
  "new_Response = \<lparr>rs_value = None, rs_errorcode = ERR, rs_reason = ''request format error'', rs_node = []\<rparr>"

definition res_error :: "string \<Rightarrow> Response \<Rightarrow> Response" where
  "res_error why r = r\<lparr>rs_errorcode := ERR, rs_reason := why\<rparr>"

definition res_ok :: "Response \<Rightarrow> Response" where
  "res_ok r = r\<lparr>rs_errorcode := OK, rs_reason := ''OK''\<rparr>"

subsection \<open>State\<close>

definition RC_MODE_LOCAL :: string where "RC_MODE_LOCAL = ''local''"
definition RC_MODE_REMOTE :: string where "RC_MODE_REMOTE = ''remote''"

datatype nm_error = NullReader | NullWriter

record nodemgr =
  nm_hostname :: string
  nm_profile :: string
  nm_rcmode :: string
  nm_rc :: RCFSM
  nm_state :: RCstate
  nm_rd :: "reader option"
  nm_psr :: "parser list"
  nm_wr :: "writer option"
  nm_nodereport :: Node
  nm_report_init :: bool
  nm_pushed :: "Node list"
  nm_log :: "string list"

type_synonym nm_stmt = "(nm_error, nodemgr) stmt"

definition computes :: "nodemgr \<Rightarrow> bool" where
  "computes n = (nm_profile n = ''compute'' \<or> nm_profile n = ''all'')"

definition stores :: "nodemgr \<Rightarrow> bool" where
  "stores n = (nm_profile n = ''storage'' \<or> nm_profile n = ''all'')"

text \<open>The mode of the configuration; anything else than the two names means local.\<close>

definition nm_mode :: "string option \<Rightarrow> string" where
  "nm_mode lookup = (case lookup of
     Some m \<Rightarrow> if m \<noteq> RC_MODE_LOCAL \<and> m \<noteq> RC_MODE_REMOTE then RC_MODE_LOCAL else m
   | None \<Rightarrow> RC_MODE_LOCAL)"

text \<open>\<open>st0\<close> is what the uninitialised \<open>state\<close> holds in local mode.\<close>

definition new_nodemgr ::
  "string \<Rightarrow> string \<Rightarrow> string option \<Rightarrow> RCstate \<Rightarrow> reader option \<Rightarrow> parser list \<Rightarrow> writer option \<Rightarrow> nodemgr" where
  "new_nodemgr host prof lookup st0 rd psr w =
     \<lparr>nm_hostname = host, nm_profile = prof, nm_rcmode = nm_mode lookup, nm_rc = new_RCFSM,
      nm_state = (if nm_mode lookup = RC_MODE_REMOTE then IDLE else st0),
      nm_rd = rd, nm_psr = psr, nm_wr = w, nm_nodereport = new_Node, nm_report_init = False,
      nm_pushed = [], nm_log = []\<rparr>"

subsection \<open>Run control of the components\<close>

definition set_rd :: "RCstate \<Rightarrow> nm_stmt" where
  "set_rd s n = (case nm_rd n of None \<Rightarrow> Inl NullReader
     | Some r \<Rightarrow> Inr (n\<lparr>nm_rd := Some (rd_set_rcstate s r)\<rparr>))"

definition set_psr :: "RCstate \<Rightarrow> nm_stmt" where
  "set_psr s n = Inr (n\<lparr>nm_psr := map (ps_set_rcstate s) (nm_psr n)\<rparr>)"

definition set_wr :: "world \<Rightarrow> RCstate \<Rightarrow> nm_stmt" where
  "set_wr env s n = (case nm_wr n of None \<Rightarrow> Inl NullWriter
     | Some w \<Rightarrow> Inr (n\<lparr>nm_wr := Some (wr_set_rcstate env s w)\<rparr>))"

definition local_mode :: "nodemgr \<Rightarrow> bool" where
  "local_mode n = (nm_rcmode n = RC_MODE_LOCAL)"

definition rc_event_do :: "world \<Rightarrow> RCcommand \<Rightarrow> nm_stmt" where
  "rc_event_do env cmd = seqE [
     \<lambda>n. if computes n
         then seqE [\<lambda>n. if local_mode n then set_rd (rc_state (nm_rc n)) n else Inr n,
                    \<lambda>n. if local_mode n then set_psr (rc_state (nm_rc n)) n else Inr n] n
         else Inr n,
     \<lambda>n. if stores n
         then (if local_mode n then set_wr env (rc_state (nm_rc n)) n else Inr n)
         else Inr n]"

definition rc_state_do :: "world \<Rightarrow> RCstate \<Rightarrow> nm_stmt" where
  "rc_state_do env s = seqE [
     \<lambda>n. if computes n then seqE [set_rd s, set_psr s] n else Inr n,
     \<lambda>n. if stores n then set_wr env s n else Inr n]"

definition log_transition :: "RCstate \<Rightarrow> RCstate \<Rightarrow> nodemgr \<Rightarrow> nodemgr" where
  "log_transition prev now n = n\<lparr>nm_log := nm_log n @
     [''local RC state transition: '' @ state_label_l prev @ '' -> '' @ state_label_l now]\<rparr>"

definition nm_rc_process :: "world \<Rightarrow> RCcommand \<Rightarrow> nodemgr \<Rightarrow> nm_error + (RCtransition \<times> nodemgr)" where
  "nm_rc_process env cmd n =
     (let prev_state = rc_state (nm_rc n);
          (trans_err, rc') = rc_process cmd (nm_rc n);
          cur_state = rc_state rc';
          n1 = n\<lparr>nm_rc := rc'\<rparr>
      in bindE (if cmd = Reset \<or> (trans_err = RCOK \<and> cur_state \<noteq> prev_state)
                then rc_event_do env cmd (log_transition prev_state cur_state n1)
                else Inr n1)
           (\<lambda>n2. Inr (rc_error (nm_rc n2), n2)))"

definition nm_rc_state :: "nodemgr \<Rightarrow> RCstate" where
  "nm_rc_state n = (if nm_rcmode n = RC_MODE_REMOTE then nm_state n else rc_state (nm_rc n))"

definition nm_rc_mode :: "nodemgr \<Rightarrow> string" where
  "nm_rc_mode n = nm_rcmode n"

definition nm_rc_error :: "nodemgr \<Rightarrow> RCtransition" where
  "nm_rc_error n = rc_error (nm_rc n)"

subsection \<open>Requests\<close>

datatype reply = Rep_response Response | Rep_node Node

definition nm_read :: "Request \<Rightarrow> Response \<Rightarrow> nodemgr \<Rightarrow> reply" where
  "nm_read q res n =
     (if variable q = ''status'' then Rep_response (res_ok (res\<lparr>rs_value := Some (state_label (nm_rc_state n))\<rparr>))
      else if variable q = ''mode'' then Rep_response (res_ok (res\<lparr>rs_value := Some (nm_rcmode n)\<rparr>))
      else if variable q = ''perfdata'' then Rep_node (nm_nodereport n)
      else Rep_response (res\<lparr>rs_reason := ''variable not found''\<rparr>))"

definition write_state :: "world \<Rightarrow> RCstate \<Rightarrow> Response \<Rightarrow> nodemgr \<Rightarrow> nm_error + (reply \<times> nodemgr)" where
  "write_state env s res n =
     bindE (rc_state_do env s (n\<lparr>nm_state := s\<rparr>)) (\<lambda>n'. Inr (Rep_response (res_ok res), n'))"

definition nm_write :: "world \<Rightarrow> Request \<Rightarrow> Response \<Rightarrow> nodemgr \<Rightarrow> nm_error + (reply \<times> nodemgr)" where
  "nm_write env q res n =
     (if nm_rcmode n = RC_MODE_REMOTE then
        if variable q = ''status'' then
          if req_value q = ''idle'' then write_state env IDLE res n
          else if req_value q = ''ready'' then write_state env READY res n
          else if req_value q = ''running'' then write_state env RUNNING res n
          else if req_value q = ''paused'' then write_state env PAUSED res n
          else Inr (Rep_response (res\<lparr>rs_reason := ''status value not correct''\<rparr>), n)
        else Inr (Rep_response (res\<lparr>rs_reason := ''variable not found''\<rparr>), n)
      else Inr (Rep_response (res\<lparr>rs_errorcode := DENY,
                  rs_reason := ''FzDAQ Run Control set to local mode''\<rparr>), n))"

definition nm_set_store :: "bool \<Rightarrow> Response \<Rightarrow> nodemgr \<Rightarrow> nm_error + (reply \<times> nodemgr)" where
  "nm_set_store b res n =
     (case nm_wr n of None \<Rightarrow> Inl NullWriter
      | Some w \<Rightarrow> Inr (Rep_response (res_ok res), n\<lparr>nm_wr := Some (set_store b w)\<rparr>))"

definition nm_setup :: "Request \<Rightarrow> Response \<Rightarrow> nodemgr \<Rightarrow> nm_error + (reply \<times> nodemgr)" where
  "nm_setup q res n =
     (if operation q = WRITE \<and> stores n then
        if variable q = ''store'' then nm_set_store True res n
        else if variable q = ''nostore'' then nm_set_store False res n
        else Inr (Rep_response res, n)
      else Inr (Rep_response res, n))"

definition nm_handle_request :: "world \<Rightarrow> Request option \<Rightarrow> nodemgr \<Rightarrow> nm_error + (reply \<times> nodemgr)" where
  "nm_handle_request env request n =
     (case request of
        None \<Rightarrow> Inr (Rep_response (res_error ''request deserialization error'' new_Response), n)
      | Some q \<Rightarrow>
          if req_module q \<noteq> NM
          then Inr (Rep_response (res_error ''module destination error'' new_Response), n)
          else (case channel q of
              Ch_RC \<Rightarrow> (case operation q of
                  READ \<Rightarrow> Inr (nm_read q new_Response n, n)
                | WRITE \<Rightarrow> nm_write env q new_Response n)
            | Ch_SETUP \<Rightarrow> nm_setup q new_Response n))"

text \<open>
  One round of \<open>process_comm\<close>: a request on the reply socket is answered, one on the pull
  socket is only executed. The result lists the replies sent.
\<close>

definition comm_round ::
  "world \<Rightarrow> Request option option \<Rightarrow> Request option option \<Rightarrow> nodemgr \<Rightarrow> nm_error + (reply list \<times> nodemgr)" where
  "comm_round env rcontrol pcontrol n =
     bindE (case rcontrol of None \<Rightarrow> Inr ([], n)
            | Some q \<Rightarrow> bindE (nm_handle_request env q n) (\<lambda>(r, n1). Inr ([r], n1)))
       (\<lambda>(rs, n1). case pcontrol of None \<Rightarrow> Inr (rs, n1)
            | Some q \<Rightarrow> bindE (nm_handle_request env q n1) (\<lambda>(r, n2). Inr (rs, n2)))"

subsection \<open>The performance report\<close>

text \<open>A snapshot of the reports of the components, taken at both ends of an interval.\<close>

record snapshot =
  sn_reader :: ReaderReport
  sn_parser :: "ParserReport list"
  sn_fsm :: "FsmReport list"
  sn_writer :: WriterReport

definition snap_rd :: "nodemgr \<Rightarrow> (nm_error, snapshot) stmt" where
  "snap_rd n t = (case nm_rd n of None \<Rightarrow> Inl NullReader
     | Some r \<Rightarrow> Inr (t\<lparr>sn_reader := rd_get_report r, sn_parser := map ps_get_report (nm_psr n),
                          sn_fsm := map ps_get_fsm_report (nm_psr n)\<rparr>))"

definition snap_wr :: "nodemgr \<Rightarrow> (nm_error, snapshot) stmt" where
  "snap_wr n t = (case nm_wr n of None \<Rightarrow> Inl NullWriter
     | Some w \<Rightarrow> Inr (t\<lparr>sn_writer := wr_get_report w\<rparr>))"

definition take_snapshot :: "nodemgr \<Rightarrow> (nm_error, snapshot) stmt" where
  "take_snapshot n = seqE [\<lambda>t. if computes n then snap_rd n t else Inr t,
                           \<lambda>t. if stores n then snap_wr n t else Inr t]"

text \<open>A rate is the difference of two 64-bit counters, passed as a 32-bit field.\<close>

definition bw :: "u64 \<Rightarrow> u64 \<Rightarrow> u32" where
  "bw x1 x0 = ucast (x1 - x0)"

definition reader_rates :: "ReaderReport \<Rightarrow> ReaderReport \<Rightarrow> ReaderReport" where
  "reader_rates t1 t0 = \<lparr>
     rr_in_bytes = rr_in_bytes t1, rr_in_bytes_bw = bw (rr_in_bytes t1) (rr_in_bytes t0),
     rr_out_bytes = rr_out_bytes t1, rr_out_bytes_bw = bw (rr_out_bytes t1) (rr_out_bytes t0),
     rr_in_events = rr_in_events t1, rr_in_events_bw = bw (rr_in_events t1) (rr_in_events t0),
     rr_out_events = rr_out_events t1, rr_out_events_bw = bw (rr_out_events t1) (rr_out_events t0),
     rr_consumer_ip = rr_consumer_ip t1\<rparr>"

definition parser_rates :: "ParserReport \<Rightarrow> ParserReport \<Rightarrow> ParserReport" where
  "parser_rates t1 t0 = \<lparr>
     pr_in_bytes = pr_in_bytes t1, pr_in_bytes_bw = bw (pr_in_bytes t1) (pr_in_bytes t0),
     pr_out_bytes = pr_out_bytes t1, pr_out_bytes_bw = bw (pr_out_bytes t1) (pr_out_bytes t0),
     pr_in_events = pr_in_events t1, pr_in_events_bw = bw (pr_in_events t1) (pr_in_events t0),
     pr_out_events = pr_out_events t1, pr_out_events_bw = bw (pr_out_events t1) (pr_out_events t0)\<rparr>"

definition fsm_rates :: "FsmReport \<Rightarrow> FsmReport \<Rightarrow> NodeFsm" where
  "fsm_rates t1 t0 = \<lparr>
     nf_in_bytes = fr_in_bytes t1, nf_in_bytes_bw = bw (fr_in_bytes t1) (fr_in_bytes t0),
     nf_out_bytes = fr_out_bytes t1, nf_out_bytes_bw = bw (fr_out_bytes t1) (fr_out_bytes t0),
     nf_in_events = fr_in_events t1, nf_in_events_bw = bw (fr_in_events t1) (fr_in_events t0),
     nf_out_events = fr_out_events t1, nf_out_events_bw = bw (fr_out_events t1) (fr_out_events t0),
     nf_state_invalid = fr_state_invalid t1, nf_events_empty = fr_events_empty t1,
     nf_events_good = fr_events_good t1, nf_events_bad = fr_events_bad t1\<rparr>"

definition writer_rates :: "bool \<Rightarrow> WriterReport \<Rightarrow> WriterReport \<Rightarrow> WriterReport" where
  "writer_rates store t1 t0 = \<lparr>
     wr_in_bytes = wr_in_bytes t1, wr_in_bytes_bw = bw (wr_in_bytes t1) (wr_in_bytes t0),
     wr_out_bytes = wr_out_bytes t1,
     wr_out_bytes_bw = (if store then bw (wr_out_bytes t1) (wr_out_bytes t0) else 0),
     wr_in_events = wr_in_events t1, wr_in_events_bw = bw (wr_in_events t1) (wr_in_events t0),
     wr_out_events = wr_out_events t1,
     wr_out_events_bw = (if store then bw (wr_out_events t1) (wr_out_events t0) else 0)\<rparr>"

text \<open>The first half of a round: the identity fields and the snapshot.\<close>

definition perf_begin :: "snapshot \<Rightarrow> nodemgr \<Rightarrow> nm_error + (snapshot \<times> nodemgr)" where
  "perf_begin t n =
     (let n1 = n\<lparr>nm_nodereport := (nm_nodereport n)\<lparr>
            n_hostname := nm_hostname n, n_profile := nm_profile n,
            n_status := state_label (nm_rc_state n),
            n_parser_num := of_nat (length (nm_psr n))\<rparr>\<rparr>
      in bindE (take_snapshot n1 t) (\<lambda>t0. Inr (t0, n1)))"

text \<open>The second half, a second later: the rates against the snapshot \<open>t0\<close>.\<close>

definition perf_end :: "snapshot \<Rightarrow> nodemgr \<Rightarrow> nm_error + nodemgr" where
  "perf_end t0 n =
     bindE (take_snapshot n t0) (\<lambda>t1.
       let rep = nm_nodereport n;
           rep1 = (if computes n
             then rep\<lparr>n_reader := Some (reader_rates (sn_reader t1) (sn_reader t0)),
                      n_parser := map2 parser_rates (sn_parser t1) (sn_parser t0),
                      n_fsm := map2 fsm_rates (sn_fsm t1) (sn_fsm t0)\<rparr>
             else rep);
           rep2 = (if stores n
             then rep1\<lparr>n_writer := Some (writer_rates (case nm_wr n of None \<Rightarrow> False | Some w \<Rightarrow> get_store w)
                                           (sn_writer t1) (sn_writer t0))\<rparr>
             else rep1)
       in Inr (n\<lparr>nm_nodereport := rep2, nm_pushed := nm_pushed n @ [rep2], nm_report_init := True\<rparr>))"

definition get_nodereport :: "nodemgr \<Rightarrow> Node" where
  "get_nodereport n = nm_nodereport n"

definition has_data :: "nodemgr \<Rightarrow> bool" where
  "has_data n = nm_report_init n"

subsection \<open>A node as built by the program\<close>

text \<open>The pointers the profile uses are set.\<close>

definition wired :: "nodemgr \<Rightarrow> bool" where
  "wired n \<longleftrightarrow> (computes n \<longrightarrow> nm_rd n \<noteq> None) \<and> (stores n \<longrightarrow> nm_wr n \<noteq> None)"

text \<open>Every component has the run-control state \<open>s\<close>.\<close>

definition all_in :: "RCstate \<Rightarrow> nodemgr \<Rightarrow> bool" where
  "all_in s n \<longleftrightarrow>
     (computes n \<longrightarrow> (\<forall>r. nm_rd n = Some r \<longrightarrow> rd_rcstate r = s) \<and> (\<forall>p\<in>set (nm_psr n). ps_rcstate p = s)) \<and>
     (stores n \<longrightarrow> (\<forall>w. nm_wr n = Some w \<longrightarrow> ww_rcstate w = s))"

text \<open>What a request or command leaves alone: which components there are and the mode.\<close>

definition same_node :: "nodemgr \<Rightarrow> nodemgr \<Rightarrow> bool" where
  "same_node n n' \<longleftrightarrow> nm_profile n' = nm_profile n \<and> nm_rcmode n' = nm_rcmode n \<and>
     (nm_rd n' = None) = (nm_rd n = None) \<and> (nm_wr n' = None) = (nm_wr n = None)"

lemma same_node_wired: "same_node n n' \<Longrightarrow> wired n' = wired n"
  by (simp add: same_node_def wired_def computes_def stores_def)

lemma broadcast:
  assumes "wired n"
  shows "\<exists>n'. rc_state_do env s n = Inr n' \<and> all_in s n' \<and> same_node n n' \<and>
    nm_rc n' = nm_rc n \<and> nm_state n' = nm_state n"
  using assms
  by (auto simp: rc_state_do_def set_rd_def set_psr_def set_wr_def wired_def computes_def stores_def
      all_in_def same_node_def rd.get_set ps.get_set wr.get_set split: option.splits)

lemma event_broadcast:
  assumes "wired n" "local_mode n"
  shows "\<exists>n'. rc_event_do env c n = Inr n' \<and> all_in (rc_state (nm_rc n)) n' \<and> same_node n n' \<and>
    nm_rc n' = nm_rc n \<and> nm_state n' = nm_state n"
  using assms
  by (auto simp: rc_event_do_def set_rd_def set_psr_def set_wr_def wired_def computes_def stores_def
      local_mode_def all_in_def same_node_def rd.get_set ps.get_set wr.get_set split: option.splits)

lemma event_remote:
  assumes "\<not> local_mode n"
  shows "rc_event_do env c n = Inr n"
  using assms by (simp add: rc_event_do_def)

subsection \<open>The node in step with its run control\<close>

definition in_step :: "nodemgr \<Rightarrow> bool" where
  "in_step n \<longleftrightarrow> wired n \<and> all_in (nm_rc_state n) n \<and> (local_mode n \<or> nm_rcmode n = RC_MODE_REMOTE)"

lemma mode_names [simp]: "RC_MODE_LOCAL \<noteq> RC_MODE_REMOTE" "RC_MODE_REMOTE \<noteq> RC_MODE_LOCAL"
  by (simp_all add: RC_MODE_LOCAL_def RC_MODE_REMOTE_def)

lemma all_in_other [simp]:
  "all_in s (n\<lparr>nm_rc := a\<rparr>) = all_in s n" "all_in s (n\<lparr>nm_state := b\<rparr>) = all_in s n"
  "all_in s (n\<lparr>nm_log := c\<rparr>) = all_in s n" "all_in s (n\<lparr>nm_nodereport := d\<rparr>) = all_in s n"
  "all_in s (n\<lparr>nm_pushed := e\<rparr>) = all_in s n" "all_in s (n\<lparr>nm_report_init := f\<rparr>) = all_in s n"
  "all_in s (log_transition x y n) = all_in s n"
  by (simp_all add: all_in_def computes_def stores_def log_transition_def)

lemma wired_other [simp]:
  "wired (n\<lparr>nm_rc := a\<rparr>) = wired n" "wired (n\<lparr>nm_state := b\<rparr>) = wired n"
  "wired (n\<lparr>nm_log := c\<rparr>) = wired n" "wired (n\<lparr>nm_nodereport := d\<rparr>) = wired n"
  "wired (n\<lparr>nm_pushed := e\<rparr>) = wired n" "wired (n\<lparr>nm_report_init := f\<rparr>) = wired n"
  "wired (log_transition x y n) = wired n"
  by (simp_all add: wired_def computes_def stores_def log_transition_def)

lemma log_transition_fields [simp]:
  "nm_rc (log_transition x y n) = nm_rc n" "nm_state (log_transition x y n) = nm_state n"
  "nm_rcmode (log_transition x y n) = nm_rcmode n" "nm_profile (log_transition x y n) = nm_profile n"
  "nm_rd (log_transition x y n) = nm_rd n" "nm_wr (log_transition x y n) = nm_wr n"
  by (simp_all add: log_transition_def)

lemma nm_rc_process_in_step:
  assumes "in_step n"
  shows "\<exists>e n'. nm_rc_process env c n = Inr (e, n') \<and> in_step n' \<and> same_node n n' \<and>
    e = fst (rc_process c (nm_rc n)) \<and> nm_rc n' = snd (rc_process c (nm_rc n)) \<and> nm_state n' = nm_state n"
proof -
  let ?rc = "snd (rc_process c (nm_rc n))"
  let ?n1 = "n\<lparr>nm_rc := ?rc\<rparr>"
  let ?n2 = "log_transition (rc_state (nm_rc n)) (rc_state ?rc) ?n1"
  have w: "wired ?n1" "wired ?n2" using assms by (simp_all add: in_step_def)
  have e: "rc_error ?rc = fst (rc_process c (nm_rc n))" by (simp add: rc_error_def)
  let ?do = "c = Reset \<or> (fst (rc_process c (nm_rc n)) = RCOK \<and> rc_state ?rc \<noteq> rc_state (nm_rc n))"
  have p: "nm_rc_process env c n = bindE (if ?do then rc_event_do env c ?n2 else Inr ?n1)
      (\<lambda>n2. Inr (rc_error (nm_rc n2), n2))"
    by (simp add: nm_rc_process_def case_prod_unfold Let_def)
  show ?thesis
  proof (cases "local_mode n")
    case True
    show ?thesis
    proof (cases ?do)
      case True
      have l: "local_mode ?n2" using \<open>local_mode n\<close> by (simp add: local_mode_def)
      from event_broadcast [OF w(2) l] obtain n' where n': "rc_event_do env c ?n2 = Inr n'"
        "all_in (rc_state (nm_rc ?n2)) n'" "same_node ?n2 n'" "nm_rc n' = nm_rc ?n2" "nm_state n' = nm_state ?n2"
        by blast
      have "same_node n n'" using n'(3) by (simp add: same_node_def)
      moreover have "wired n'" using same_node_wired [OF n'(3)] w(2) by simp
      moreover have "nm_rcmode n' = RC_MODE_LOCAL"
        using n'(3) \<open>local_mode n\<close> by (simp add: same_node_def local_mode_def)
      ultimately show ?thesis using True n' p e
        by (simp add: in_step_def nm_rc_state_def local_mode_def)
    next
      case False
      then have "rc_state ?rc = rc_state (nm_rc n)"
        by (auto simp: rc_state_def rc_next_fixed)
      then show ?thesis using False p e w(1) assms \<open>local_mode n\<close>
        by (simp add: in_step_def nm_rc_state_def local_mode_def same_node_def)
    qed
  next
    case False
    then have r: "nm_rcmode n = RC_MODE_REMOTE" using assms by (simp add: in_step_def)
    have "rc_event_do env c ?n2 = Inr ?n2"
      by (rule event_remote) (use False in \<open>simp add: local_mode_def\<close>)
    then show ?thesis using p e w assms r
      by (auto simp: in_step_def nm_rc_state_def same_node_def)
  qed
qed

lemma write_state_in_step:
  assumes "in_step n" "nm_rcmode n = RC_MODE_REMOTE"
  shows "\<exists>n'. write_state env s res n = Inr (Rep_response (res_ok res), n') \<and> in_step n' \<and>
    same_node n n' \<and> nm_rc_state n' = s"
proof -
  have "wired (n\<lparr>nm_state := s\<rparr>)" using assms(1) by (simp add: in_step_def)
  from broadcast [OF this, of env s] obtain n' where n':
      "rc_state_do env s (n\<lparr>nm_state := s\<rparr>) = Inr n'" "all_in s n'"
      "same_node (n\<lparr>nm_state := s\<rparr>) n'" "nm_state n' = s" by auto
  have "wired n'" using same_node_wired [OF n'(3)] assms(1) by (simp add: in_step_def)
  moreover have "nm_rcmode n' = RC_MODE_REMOTE" "same_node n n'"
    using n'(3) assms(2) by (simp_all add: same_node_def)
  ultimately show ?thesis using n' by (simp add: write_state_def in_step_def nm_rc_state_def)
qed

lemma in_step_component:
  assumes "in_step n" "all_in (nm_rc_state n) n'" "same_node n n'" "nm_rc n' = nm_rc n" "nm_state n' = nm_state n"
  shows "in_step n'"
proof -
  have "nm_rc_state n' = nm_rc_state n" using assms(3-5) by (simp add: nm_rc_state_def same_node_def)
  with assms show ?thesis
    using same_node_wired [OF assms(3)] by (simp add: in_step_def local_mode_def same_node_def)
qed

lemma set_store_in_step:
  assumes "in_step n" "stores n"
  shows "\<exists>n'. nm_set_store b res n = Inr (Rep_response (res_ok res), n') \<and> in_step n' \<and> same_node n n'"
proof -
  obtain w where w: "nm_wr n = Some w" using assms by (auto simp: in_step_def wired_def)
  let ?n = "n\<lparr>nm_wr := Some (set_store b w)\<rparr>"
  have s: "same_node n ?n" using w by (simp add: same_node_def)
  have "all_in (nm_rc_state n) ?n"
    using assms(1) w by (simp add: in_step_def all_in_def computes_def stores_def set_store_def)
  from in_step_component [OF assms(1) this s] s w show ?thesis by (simp add: nm_set_store_def)
qed

lemma same_node_refl [simp]: "same_node n n"
  by (simp add: same_node_def)

lemma in_step_other [simp]:
  "in_step (n\<lparr>nm_nodereport := a\<rparr>) = in_step n" "in_step (n\<lparr>nm_pushed := b\<rparr>) = in_step n"
  "in_step (n\<lparr>nm_report_init := c\<rparr>) = in_step n"
  by (simp_all add: in_step_def nm_rc_state_def local_mode_def)

lemma same_node_other [simp]:
  "same_node n (m\<lparr>nm_nodereport := a\<rparr>) = same_node n m" "same_node n (m\<lparr>nm_pushed := b\<rparr>) = same_node n m"
  "same_node n (m\<lparr>nm_report_init := c\<rparr>) = same_node n m"
  by (simp_all add: same_node_def)

lemma same_node_trans: "same_node a b \<Longrightarrow> same_node b c \<Longrightarrow> same_node a c"
  by (simp add: same_node_def)

lemma nm_write_in_step:
  assumes "in_step n"
  shows "\<exists>r n'. nm_write env q res n = Inr (r, n') \<and> in_step n' \<and> same_node n n'"
proof (cases "nm_rcmode n = RC_MODE_REMOTE \<and> variable q = ''status''")
  case True
  then show ?thesis
    using write_state_in_step [OF assms, of env IDLE res] write_state_in_step [OF assms, of env READY res]
      write_state_in_step [OF assms, of env RUNNING res] write_state_in_step [OF assms, of env PAUSED res] assms
    by (auto simp: nm_write_def)
qed (use assms in \<open>auto simp: nm_write_def\<close>)

lemma nm_setup_in_step:
  assumes "in_step n"
  shows "\<exists>r n'. nm_setup q res n = Inr (r, n') \<and> in_step n' \<and> same_node n n'"
  using set_store_in_step [OF assms, of True res] set_store_in_step [OF assms, of False res] assms
  by (auto simp: nm_setup_def)

lemma nm_handle_request_in_step:
  assumes "in_step n"
  shows "\<exists>r n'. nm_handle_request env q n = Inr (r, n') \<and> in_step n' \<and> same_node n n'"
  using nm_write_in_step [OF assms] nm_setup_in_step [OF assms] assms
  by (auto simp: nm_handle_request_def split: option.split Channel.split Operation.split)

lemma comm_round_in_step:
  assumes "in_step n"
  shows "\<exists>rs n'. comm_round env a b n = Inr (rs, n') \<and> in_step n' \<and> same_node n n'"
proof -
  have "\<exists>rs n1. (case a of None \<Rightarrow> Inr ([], n)
      | Some q \<Rightarrow> bindE (nm_handle_request env q n) (\<lambda>(r, n1). Inr ([r], n1))) = Inr (rs, n1) \<and>
      in_step n1 \<and> same_node n n1"
  proof (cases a)
    case (Some q)
    obtain r n1 where "nm_handle_request env q n = Inr (r, n1)" "in_step n1" "same_node n n1"
      using nm_handle_request_in_step [OF assms] by blast
    with Some show ?thesis by simp
  qed (use assms in simp)
  then obtain rs n1 where n1: "(case a of None \<Rightarrow> Inr ([], n)
      | Some q \<Rightarrow> bindE (nm_handle_request env q n) (\<lambda>(r, n1). Inr ([r], n1))) = Inr (rs, n1)"
      "in_step n1" "same_node n n1" by blast
  show ?thesis
  proof (cases b)
    case None
    with n1 show ?thesis by (simp add: comm_round_def)
  next
    case (Some q)
    obtain r n2 where "nm_handle_request env q n1 = Inr (r, n2)" "in_step n2" "same_node n1 n2"
      using nm_handle_request_in_step [OF n1(2)] by blast
    with Some n1 same_node_trans [OF n1(3)] show ?thesis by (simp add: comm_round_def)
  qed
qed

lemma perf_in_step:
  assumes "in_step n"
  shows "\<exists>t0 n'. perf_begin t n = Inr (t0, n') \<and> in_step n' \<and> same_node n n'"
    "\<exists>n'. perf_end t n = Inr n' \<and> in_step n' \<and> same_node n n'"
proof -
  have s: "\<exists>t'. take_snapshot m t = Inr t'" if "wired m" for m t
    using that by (auto simp: take_snapshot_def snap_rd_def snap_wr_def wired_def split: option.split)
  have w: "wired n" using assms by (simp add: in_step_def)
  let ?rep = "(nm_nodereport n)\<lparr>n_hostname := nm_hostname n, n_profile := nm_profile n,
            n_status := state_label (nm_rc_state n), n_parser_num := of_nat (length (nm_psr n))\<rparr>"
  obtain t0 where "take_snapshot (n\<lparr>nm_nodereport := ?rep\<rparr>) t = Inr t0" using s w by fastforce
  then show "\<exists>t0 n'. perf_begin t n = Inr (t0, n') \<and> in_step n' \<and> same_node n n'"
    using assms by (simp add: perf_begin_def)
  obtain t1 where "take_snapshot n t = Inr t1" using s w by blast
  then show "\<exists>n'. perf_end t n = Inr n' \<and> in_step n' \<and> same_node n n'"
    using assms by (simp add: perf_end_def Let_def)
qed

subsection \<open>All histories of a node\<close>

text \<open>The steps of the threads of a node, in any interleaving. The snapshot a round of the
  performance thread ends with is one of the same node.\<close>

definition fits :: "snapshot \<Rightarrow> nodemgr \<Rightarrow> bool" where
  "fits t n \<longleftrightarrow> (computes n \<longrightarrow> length (sn_parser t) = length (nm_psr n) \<and> length (sn_fsm t) = length (nm_psr n))"

inductive node_step :: "nodemgr \<Rightarrow> nodemgr \<Rightarrow> bool" where
  command: "nm_rc_process env c n = Inr (e, n') \<Longrightarrow> node_step n n'"
| comm: "comm_round env a b n = Inr (rs, n') \<Longrightarrow> node_step n n'"
| perf1: "perf_begin t n = Inr (t', n') \<Longrightarrow> node_step n n'"
| perf2: "fits t n \<Longrightarrow> perf_end t n = Inr n' \<Longrightarrow> node_step n n'"
| reader: "nm_rd n = Some r \<Longrightarrow> reader_step r r' \<Longrightarrow> node_step n (n\<lparr>nm_rd := Some r'\<rparr>)"
| parser: "i < length (nm_psr n) \<Longrightarrow> parser_step (nm_psr n ! i) p' \<Longrightarrow>
    node_step n (n\<lparr>nm_psr := (nm_psr n)[i := p']\<rparr>)"
| writer: "nm_wr n = Some w \<Longrightarrow> writer_step w w' \<Longrightarrow> node_step n (n\<lparr>nm_wr := Some w'\<rparr>)"

lemma all_in_reader: "all_in s n \<Longrightarrow> nm_rd n = Some r \<Longrightarrow> reader_step r r' \<Longrightarrow> all_in s (n\<lparr>nm_rd := Some r'\<rparr>)"
  using rd.get_step by (auto simp: all_in_def computes_def stores_def)

lemma all_in_parser:
  assumes "all_in s n" "i < length (nm_psr n)" "parser_step (nm_psr n ! i) p'"
  shows "all_in s (n\<lparr>nm_psr := (nm_psr n)[i := p']\<rparr>)"
proof -
  have "ps_rcstate p' = ps_rcstate (nm_psr n ! i)" using ps.get_step [OF assms(3)] .
  moreover have "p \<in> set ((nm_psr n)[i := p']) \<Longrightarrow> p = p' \<or> p \<in> set (nm_psr n)" for p
    using set_update_subset_insert [of "nm_psr n" i p'] by auto
  ultimately show ?thesis using assms(1,2) nth_mem by (fastforce simp: all_in_def computes_def stores_def)
qed

lemma all_in_writer: "all_in s n \<Longrightarrow> nm_wr n = Some w \<Longrightarrow> writer_step w w' \<Longrightarrow> all_in s (n\<lparr>nm_wr := Some w'\<rparr>)"
  using writer_step_rcstate by (auto simp: all_in_def computes_def stores_def)

lemma node_step_in_step:
  assumes "node_step n n'" "in_step n"
  shows "in_step n'"
  using assms
proof (induction rule: node_step.induct)
  case (command env c n e n')
  then show ?case using nm_rc_process_in_step [of n env c] by auto
next
  case (comm env a b n rs n')
  then show ?case using comm_round_in_step [of n env a b] by auto
next
  case (perf1 t n t' n')
  then show ?case using perf_in_step(1) [of n t] by auto
next
  case (perf2 t n n')
  then show ?case using perf_in_step(2) [of n t] by auto
next
  case (reader n r r')
  have "all_in (nm_rc_state n) n" using reader(3) by (simp add: in_step_def)
  from all_in_reader [OF this reader(1,2)] show ?case
    by (rule in_step_component [OF reader(3)]) (simp_all add: same_node_def reader(1))
next
  case (parser i n p')
  have "all_in (nm_rc_state n) n" using parser(3) by (simp add: in_step_def)
  from all_in_parser [OF this parser(1,2)] show ?case
    by (rule in_step_component [OF parser(3)]) (simp_all add: same_node_def parser(1))
next
  case (writer n w w')
  have "all_in (nm_rc_state n) n" using writer(3) by (simp add: in_step_def)
  from all_in_writer [OF this writer(1,2)] show ?case
    by (rule in_step_component [OF writer(3)]) (simp_all add: same_node_def writer(1))
qed

definition fresh_node :: "nodemgr \<Rightarrow> bool" where
  "fresh_node n \<longleftrightarrow> (\<exists>host prof lookup st0 rd psr w. n = new_nodemgr host prof lookup st0 rd psr w \<and>
     (\<forall>r. rd = Some r \<longrightarrow> rd_rcstate r = IDLE) \<and> (\<forall>p\<in>set psr. ps_rcstate p = IDLE) \<and>
     (\<forall>x. w = Some x \<longrightarrow> ww_rcstate x = IDLE)) \<and> wired n"

lemma fresh_in_step: "fresh_node n \<Longrightarrow> in_step n"
  by (auto simp: fresh_node_def in_step_def new_nodemgr_def all_in_def nm_rc_state_def new_RCFSM_def
      rc_state_def local_mode_def nm_mode_def split: option.split)

lemma reachable_in_step: "node_step\<^sup>*\<^sup>* n0 n \<Longrightarrow> fresh_node n0 \<Longrightarrow> in_step n"
  by (induction rule: rtranclp_induct) (auto intro: fresh_in_step node_step_in_step)

text \<open>The report of a node has an entry for each parser and state machine once it has data.\<close>

definition report_part :: "nodemgr \<Rightarrow> Node \<times> bool \<times> nat \<times> string" where
  "report_part n = (nm_nodereport n, nm_report_init n, length (nm_psr n), nm_profile n)"

definition report_full :: "nodemgr \<Rightarrow> bool" where
  "report_full n \<longleftrightarrow> (has_data n \<and> computes n \<longrightarrow>
     length (n_parser (nm_nodereport n)) = length (nm_psr n) \<and> length (n_fsm (nm_nodereport n)) = length (nm_psr n))"

lemma report_part_full: "report_part n' = report_part n \<Longrightarrow> report_full n' = report_full n"
  by (simp add: report_part_def report_full_def has_data_def computes_def)

lemma wpE_set_component [wp]:
  "wpE E Q (set_rd s n) = (case nm_rd n of None \<Rightarrow> E NullReader | Some r \<Rightarrow> Q (n\<lparr>nm_rd := Some (rd_set_rcstate s r)\<rparr>))"
  "wpE E Q (set_psr s n) = Q (n\<lparr>nm_psr := map (ps_set_rcstate s) (nm_psr n)\<rparr>)"
  "wpE E Q (set_wr env s n) =
     (case nm_wr n of None \<Rightarrow> E NullWriter | Some w \<Rightarrow> Q (n\<lparr>nm_wr := Some (wr_set_rcstate env s w)\<rparr>))"
  by (simp_all add: set_rd_def set_psr_def set_wr_def wp split: option.splits)

lemma report_part_component [simp]:
  "report_part (n\<lparr>nm_rd := a\<rparr>) = report_part n" "report_part (n\<lparr>nm_wr := b\<rparr>) = report_part n"
  "length ps = length (nm_psr n) \<Longrightarrow> report_part (n\<lparr>nm_psr := ps\<rparr>) = report_part n"
  "report_part (n\<lparr>nm_state := s\<rparr>) = report_part n" "report_part (n\<lparr>nm_rc := c\<rparr>) = report_part n"
  "report_part (log_transition x y n) = report_part n"
  by (simp_all add: report_part_def log_transition_def)

abbreviation any_error :: "nm_error \<Rightarrow> bool" where "any_error \<equiv> \<lambda>_. True"

lemma rc_do_keeps:
  "wpE any_error (\<lambda>n'. report_part n' = report_part n) (rc_state_do env s n)"
  "wpE any_error (\<lambda>n'. report_part n' = report_part n) (rc_event_do env c n)"
  unfolding rc_state_do_def rc_event_do_def
  by (simp_all add: wp del: seqE.simps split: option.split)

lemma rc_do_report:
  "rc_state_do env s n = Inr n' \<Longrightarrow> report_part n' = report_part n"
  "rc_event_do env c n = Inr n' \<Longrightarrow> report_part n' = report_part n"
  using rc_do_keeps(1) [of n env s] rc_do_keeps(2) [of n env c] by (simp_all add: wpE_Inr)

lemma nm_rc_process_report: "nm_rc_process env c n = Inr (e, n') \<Longrightarrow> report_part n' = report_part n"
  by (auto simp: nm_rc_process_def bindE_Inr_iff Let_def case_prod_unfold split: if_splits dest!: rc_do_report)

lemma write_state_report: "write_state env s res n = Inr (r, n') \<Longrightarrow> report_part n' = report_part n"
  by (auto simp: write_state_def bindE_Inr_iff dest!: rc_do_report)

lemma nm_write_report: "nm_write env q res n = Inr (r, n') \<Longrightarrow> report_part n' = report_part n"
  by (auto simp: nm_write_def split: if_splits dest!: write_state_report)

lemma nm_setup_report: "nm_setup q res n = Inr (r, n') \<Longrightarrow> report_part n' = report_part n"
  by (auto simp: nm_setup_def nm_set_store_def split: if_splits option.splits)

lemma handle_request_report: "nm_handle_request env q n = Inr (r, n') \<Longrightarrow> report_part n' = report_part n"
  by (auto simp: nm_handle_request_def split: option.splits if_splits Channel.splits Operation.splits
      dest!: nm_write_report nm_setup_report)

lemma comm_round_report: "comm_round env a b n = Inr (rs, n') \<Longrightarrow> report_part n' = report_part n"
  by (auto simp: comm_round_def bindE_Inr_iff split: option.splits dest!: handle_request_report)

lemma take_snapshot_result:
  assumes "take_snapshot n t = Inr t'" "computes n"
  shows "sn_parser t' = map ps_get_report (nm_psr n)" "sn_fsm t' = map ps_get_fsm_report (nm_psr n)"
proof -
  have "wpE any_error (\<lambda>u. sn_parser u = map ps_get_report (nm_psr n) \<and>
      sn_fsm u = map ps_get_fsm_report (nm_psr n)) (take_snapshot n t)"
    using assms(2) by (simp add: take_snapshot_def snap_rd_def snap_wr_def wp del: seqE.simps split: option.split)
  with assms(1) show "sn_parser t' = map ps_get_report (nm_psr n)"
    "sn_fsm t' = map ps_get_fsm_report (nm_psr n)" by (simp_all add: wp)
qed

lemma perf_begin_fits: "perf_begin t n = Inr (t', n') \<Longrightarrow> fits t' n'"
  by (auto simp: perf_begin_def bindE_Inr_iff Let_def fits_def dest: take_snapshot_result)

lemma perf_end_full:
  assumes "fits t n" "perf_end t n = Inr n'"
  shows "report_full n'"
proof -
  from assms(2) obtain t1 where t1: "take_snapshot n t = Inr t1" by (auto simp: perf_end_def bindE_Inr_iff)
  show ?thesis
  proof (cases "computes n")
    case True
    with assms t1 take_snapshot_result [OF t1 True] show ?thesis
      by (simp add: perf_end_def Let_def fits_def report_full_def) (auto simp: computes_def)
  next
    case False
    with assms(2) t1 have "\<not> computes n'" by (auto simp: perf_end_def Let_def computes_def)
    then show ?thesis by (simp add: report_full_def)
  qed
qed

lemma node_step_report:
  assumes "node_step n n'" "report_full n"
  shows "report_full n'"
  using assms
proof (induction rule: node_step.induct)
  case (command env c n e n')
  then show ?case using report_part_full [OF nm_rc_process_report] by blast
next
  case (comm env a b n rs n')
  then show ?case using report_part_full [OF comm_round_report] by blast
next
  case (perf1 t n t' n')
  then show ?case
    by (auto simp: perf_begin_def bindE_Inr_iff Let_def report_full_def has_data_def computes_def)
next
  case (perf2 t n n')
  then show ?case using perf_end_full by blast
qed (simp_all add: report_full_def has_data_def computes_def)

lemma reachable_report_full:
  assumes "node_step\<^sup>*\<^sup>* n0 n" "fresh_node n0"
  shows "report_full n"
  using assms(1)
proof (induction rule: rtranclp_induct)
  case base
  then show ?case using assms(2)
    by (auto simp: fresh_node_def new_nodemgr_def report_full_def has_data_def)
next
  case (step n1 n2)
  then show ?case using node_step_report by blast
qed

text \<open>
  C12. The status a node reports is the state of its threads: after any interleaving of
  commands, requests, reports and rounds of reader, parsers and writer, in local and in
  remote mode, every component the profile runs has the run-control state the node
  reports.
\<close>

theorem node_in_step:
  assumes "node_step\<^sup>*\<^sup>* n0 n" "fresh_node n0"
  shows "(computes n \<longrightarrow> (\<exists>r. nm_rd n = Some r \<and> rd_rcstate r = nm_rc_state n) \<and>
      (\<forall>p\<in>set (nm_psr n). ps_rcstate p = nm_rc_state n)) \<and>
    (stores n \<longrightarrow> (\<exists>w. nm_wr n = Some w \<and> ww_rcstate w = nm_rc_state n))"
  using reachable_in_step [OF assms] by (auto simp: in_step_def all_in_def wired_def)

text \<open>
  C14. No request, command or report makes a node use a null component: from a node built
  with the components of its profile, everything that is reachable answers every request
  and completes every report.
\<close>

theorem node_never_null:
  assumes "node_step\<^sup>*\<^sup>* n0 n" "fresh_node n0"
  shows "(\<exists>rs n'. comm_round env a b n = Inr (rs, n')) \<and> (\<exists>e n'. nm_rc_process env c n = Inr (e, n')) \<and>
    (\<exists>t0 n'. perf_begin t n = Inr (t0, n')) \<and> (\<exists>n'. perf_end t n = Inr n')"
  using reachable_in_step [OF assms] comm_round_in_step nm_rc_process_in_step perf_in_step by blast

definition compute_node :: nodemgr where
  "compute_node = new_nodemgr ''n1'' ''compute'' (Some ''remote'') IDLE (Some (new_reader False))
     [new_parser FMT_TAG fsm_zero] None"

lemma fresh_compute_node: "fresh_node compute_node"
  unfolding fresh_node_def compute_node_def
  by (intro conjI exI, rule refl)
     (simp_all add: new_reader_def new_parser_def wired_def computes_def stores_def new_nodemgr_def)

lemma compute_node_mode: "nm_rcmode compute_node = RC_MODE_REMOTE" "\<not> stores compute_node"
  by (simp_all add: compute_node_def new_nodemgr_def nm_mode_def stores_def RC_MODE_REMOTE_def RC_MODE_LOCAL_def)

lemma node_in_step_witness:
  "computes compute_node \<and> (\<exists>r. nm_rd compute_node = Some r \<and> rd_rcstate r = nm_rc_state compute_node)"
  using node_in_step [OF rtranclp.rtrancl_refl fresh_compute_node]
  by (simp add: computes_def compute_node_def new_nodemgr_def)

lemma node_never_null_witness:
  "\<exists>rs n'. comm_round \<lparr>w_time = 0, w_mkdir = True\<rparr>
     (Some (Some \<lparr>rq_channel = Some Ch_RC, rq_operation = Some WRITE, rq_module = Some NM,
        rq_hostname = None, rq_variable = Some ''status'', rq_value = Some ''running''\<rparr>)) None compute_node = Inr (rs, n')"
  using node_never_null [OF rtranclp.rtrancl_refl fresh_compute_node] by blast

subsection \<open>What requests do\<close>

definition status_request :: "RCstate \<Rightarrow> Request" where
  "status_request s = \<lparr>rq_channel = Some Ch_RC, rq_operation = Some WRITE, rq_module = Some NM,
     rq_hostname = None, rq_variable = Some ''status'', rq_value = Some (state_label_l s)\<rparr>"

lemma status_request_fields [simp]:
  "req_module (status_request s) = NM" "channel (status_request s) = Ch_RC"
  "operation (status_request s) = WRITE" "variable (status_request s) = ''status''"
  "req_value (status_request s) = state_label_l s"
  by (simp_all add: status_request_def req_module_def channel_def operation_def variable_def req_value_def)

lemma remote_write:
  assumes "in_step n" "nm_rcmode n = RC_MODE_REMOTE"
    and "req_module q = NM" "channel q = Ch_RC" "operation q = WRITE" "variable q = ''status''"
    and "req_value q = state_label_l s"
  shows "\<exists>n'. nm_handle_request env (Some q) n = Inr (Rep_response (res_ok new_Response), n') \<and>
    in_step n' \<and> nm_rc_state n' = s"
  using write_state_in_step [OF assms(1,2), of env s new_Response] assms
  by (cases s) (auto simp: nm_handle_request_def nm_write_def)

text \<open>
  C28. Run control from outside: in remote mode a request to write the status is obeyed
  whatever the state was, the node answers OK, reports the requested state and all its
  threads are in it; in local mode every write of the run control is denied and nothing
  changes.
\<close>

theorem remote_status_write:
  assumes "node_step\<^sup>*\<^sup>* n0 n" "fresh_node n0"
    and "req_module q = NM" "channel q = Ch_RC" "operation q = WRITE" "variable q = ''status''"
    and "req_value q = state_label_l s"
  shows "if nm_rcmode n = RC_MODE_REMOTE
    then \<exists>n'. nm_handle_request env (Some q) n = Inr (Rep_response (res_ok new_Response), n') \<and>
      nm_rc_state n' = s \<and> all_in s n'
    else nm_handle_request env (Some q) n =
      Inr (Rep_response (new_Response\<lparr>rs_errorcode := DENY,
             rs_reason := ''FzDAQ Run Control set to local mode''\<rparr>), n)"
proof (cases "nm_rcmode n = RC_MODE_REMOTE")
  case True
  from remote_write [OF reachable_in_step [OF assms(1,2)] True assms(3-7), of env]
  show ?thesis using True by (auto simp: in_step_def)
qed (use assms(3-6) in \<open>simp add: nm_handle_request_def nm_write_def\<close>)

lemma remote_status_write_witness:
  "\<exists>n'. nm_handle_request \<lparr>w_time = 0, w_mkdir = True\<rparr> (Some (status_request RUNNING)) compute_node =
      Inr (Rep_response (res_ok new_Response), n') \<and> nm_rc_state n' = RUNNING \<and> all_in RUNNING n'"
  using remote_status_write [OF rtranclp.rtrancl_refl fresh_compute_node,
      of "status_request RUNNING" RUNNING "\<lparr>w_time = 0, w_mkdir = True\<rparr>"]
  by (simp only: compute_node_mode status_request_fields simp_thms if_True)

text \<open>
  Storing is switched by the setup channel where there is a writer: store and nostore
  are answered OK and set the flag of the writer; on a node that only computes the same
  requests change nothing and are answered as a request format error.
\<close>

theorem setup_store_request:
  assumes "node_step\<^sup>*\<^sup>* n0 n" "fresh_node n0"
    and "req_module q = NM" "channel q = Ch_SETUP" "operation q = WRITE"
    and "variable q = (if b then ''store'' else ''nostore'')"
  shows "if stores n
    then \<exists>w. nm_wr n = Some w \<and>
      nm_handle_request env (Some q) n = Inr (Rep_response (res_ok new_Response), n\<lparr>nm_wr := Some (set_store b w)\<rparr>) \<and>
      get_store (set_store b w) = b
    else nm_handle_request env (Some q) n = Inr (Rep_response new_Response, n)"
  using reachable_in_step [OF assms(1,2)] assms(3-6)
  by (auto simp: nm_handle_request_def nm_setup_def nm_set_store_def in_step_def wired_def
      get_store_def set_store_def split: if_splits)

lemma setup_store_request_witness:
  "nm_handle_request \<lparr>w_time = 0, w_mkdir = True\<rparr> (Some ((status_request IDLE)
      \<lparr>rq_channel := Some Ch_SETUP, rq_variable := Some ''nostore''\<rparr>)) compute_node =
    Inr (Rep_response new_Response, compute_node)"
  using setup_store_request [OF rtranclp.rtrancl_refl fresh_compute_node, of "(status_request IDLE)
      \<lparr>rq_channel := Some Ch_SETUP, rq_variable := Some ''nostore''\<rparr>" False "\<lparr>w_time = 0, w_mkdir = True\<rparr>"]
  by (simp add: compute_node_mode) (simp add: status_request_def req_module_def channel_def operation_def variable_def)

subsection \<open>Rates\<close>

lemma bw_exact:
  assumes "x0 \<le> x1" "unat x1 - unat x0 < 2 ^ 32"
  shows "unat (bw x1 x0) = unat x1 - unat x0"
proof -
  have "unat (x1 - x0) = unat x1 - unat x0" using assms(1) by (rule unat_sub)
  then show ?thesis using assms(2)
    by (simp add: bw_def unsigned_ucast_eq take_bit_nat_eq_self)
qed

text \<open>
  The rates a node reports are what happened in the interval: when a counter of the
  writer did not go back between the two snapshots and grew by less than 2^32, the rate
  sent for it is its growth; the output rates are zero while the writer does not store.
\<close>

theorem writer_rates_exact:
  assumes "stores n" "nm_wr n = Some w" "perf_end t0 n = Inr n'"
    and "wr_in_events (sn_writer t0) \<le> wr_in_events (ww_report w)"
    and "unat (wr_in_events (ww_report w)) - unat (wr_in_events (sn_writer t0)) < 2 ^ 32"
    and "wr_out_bytes (sn_writer t0) \<le> wr_out_bytes (ww_report w)"
    and "unat (wr_out_bytes (ww_report w)) - unat (wr_out_bytes (sn_writer t0)) < 2 ^ 32"
  shows "\<exists>rep. last (nm_pushed n') = get_nodereport n' \<and> n_writer (get_nodereport n') = Some rep \<and>
    unat (wr_in_events_bw rep) = unat (wr_in_events (ww_report w)) - unat (wr_in_events (sn_writer t0)) \<and>
    unat (wr_out_bytes_bw rep) =
      (if get_store w then unat (wr_out_bytes (ww_report w)) - unat (wr_out_bytes (sn_writer t0)) else 0)"
proof -
  obtain t1 where t1: "take_snapshot n t0 = Inr t1" using assms(3) by (cases "take_snapshot n t0") (simp_all add: perf_end_def)
  then have "sn_writer t1 = ww_report w"
    using assms(1,2) by (auto simp: take_snapshot_def snap_wr_def wr_get_report_def bindE_Inr_iff)
  then have "last (nm_pushed n') = get_nodereport n' \<and>
      n_writer (get_nodereport n') = Some (writer_rates (get_store w) (ww_report w) (sn_writer t0))"
    using assms(1-3) t1 by (auto simp: perf_end_def Let_def get_nodereport_def)
  then show ?thesis using bw_exact [OF assms(4,5)] bw_exact [OF assms(6,7)] by (simp add: writer_rates_def)
qed

lemma writer_rates_exact_witness:
  "\<exists>n' rep. perf_end \<lparr>sn_reader = new_ReaderReport, sn_parser = [], sn_fsm = [],
        sn_writer = new_WriterReport\<lparr>wr_in_events := 3, wr_out_bytes := 100\<rparr>\<rparr>
      (new_nodemgr ''s'' ''storage'' None IDLE None []
         (Some (writer_zero\<lparr>ww_report := new_WriterReport\<lparr>wr_in_events := 10, wr_out_bytes := 150\<rparr>\<rparr>))) = Inr n' \<and>
     n_writer (get_nodereport n') = Some rep \<and> unat (wr_in_events_bw rep) = 7 \<and> unat (wr_out_bytes_bw rep) = 50"
proof -
  let ?w = "writer_zero\<lparr>ww_report := new_WriterReport\<lparr>wr_in_events := 10, wr_out_bytes := 150\<rparr>\<rparr>"
  let ?n = "new_nodemgr ''s'' ''storage'' None IDLE None [] (Some ?w)"
  let ?t = "\<lparr>sn_reader = new_ReaderReport, sn_parser = [], sn_fsm = [],
        sn_writer = new_WriterReport\<lparr>wr_in_events := 3, wr_out_bytes := 100\<rparr>\<rparr>"
  have s: "stores ?n" "nm_wr ?n = Some ?w" "get_store ?w"
    by (simp_all add: stores_def new_nodemgr_def get_store_def writer_zero_def)
  obtain n' where n': "perf_end ?t ?n = Inr n'"
    by (simp add: perf_end_def take_snapshot_def snap_wr_def new_nodemgr_def computes_def stores_def Let_def)
  from writer_rates_exact [OF s(1,2) n'] s(3) n' show ?thesis by auto
qed

end
