(* ===== verification/FzNodeTable.thy ===== *)
theory FzNodeTable
  imports FzReport
begin

section \<open>The controller's table of nodes\<close>

text \<open>
  \<open>controller/map.cpp\<close>: the map of the last report of each node and the deque that dates
  them. The map is kept as the list of its elements in key order, as \<open>std::map\<close> iterates;
  an iterator kept in the deque is the key it points to. Both loops count with a
  \<open>uint8_t\<close>, so that they may not end: their result is \<open>None\<close> then.
\<close>

subsection \<open>The map\<close>

text \<open>\<open>operator<\<close> of \<open>std::string\<close>: bytes compared as unsigned.\<close>

fun str_less :: "string \<Rightarrow> string \<Rightarrow> bool" where
  "str_less [] t = (t \<noteq> [])"
| "str_less (c # s) [] = False"
| "str_less (c # s) (d # t) =
     ((of_char c :: nat) < of_char d \<or> (c = d \<and> str_less s t))"

type_synonym node_map = "(string \<times> Node) list"

fun map_set :: "string \<Rightarrow> Node \<Rightarrow> node_map \<Rightarrow> node_map" where
  "map_set k v [] = [(k, v)]"
| "map_set k v ((a, b) # m) =
     (if k = a then (a, v) # m
      else if str_less k a then (k, v) # (a, b) # m
      else (a, b) # map_set k v m)"

definition map_has :: "string \<Rightarrow> node_map \<Rightarrow> bool" where
  "map_has k m = (k \<in> set (map fst m))"

definition map_erase :: "string \<Rightarrow> node_map \<Rightarrow> node_map" where
  "map_erase k m = filter (\<lambda>e. fst e \<noteq> k) m"

lemma map_of_map_set: "map_of (map_set k v m) = (map_of m)(k \<mapsto> v)"
  by (induction k v m rule: map_set.induct) auto

lemma keys_map_set: "set (map fst (map_set k v m)) = insert k (set (map fst m))"
  by (induction k v m rule: map_set.induct) auto

lemma str_less_irrefl: "\<not> str_less s s"
  by (induction s) auto

lemma str_less_trans: "str_less s t \<Longrightarrow> str_less t u \<Longrightarrow> str_less s u"
proof (induction s t arbitrary: u rule: str_less.induct)
  case (1 t)
  then show ?case by (cases t; cases u) auto
next
  case (3 c s d t)
  then show ?case by (cases u) auto
qed simp

lemma str_less_total: "s \<noteq> t \<Longrightarrow> str_less s t \<or> str_less t s"
proof (induction s t rule: str_less.induct)
  case (1 t)
  then show ?case by (cases t) auto
next
  case (3 c s d t)
  have "c = d \<longleftrightarrow> (of_char c :: nat) = of_char d" by simp
  with 3 show ?case by (metis linorder_neqE_nat str_less.simps(3))
qed simp

lemma sorted_map_set:
  assumes "sorted_wrt str_less (map fst m)"
  shows "sorted_wrt str_less (map fst (map_set k v m))"
  using assms
proof (induction k v m rule: map_set.induct)
  case (2 k v a b m)
  have i: "x \<in> set (map fst (map_set k v m)) \<Longrightarrow> x = k \<or> x \<in> set (map fst m)" for x
    using keys_map_set [of k v m] by blast
  show ?case
  proof (cases "k = a \<or> str_less k a")
    case True
    then show ?thesis using 2(2) str_less_trans by auto
  next
    case False
    then have "str_less a k" using str_less_total by blast
    then show ?thesis using 2 False i by (auto simp del: set_map)
  qed
qed simp

lemma sorted_map_erase:
  "sorted_wrt str_less (map fst m) \<Longrightarrow> sorted_wrt str_less (map fst (map_erase k m))"
  unfolding map_erase_def by (induction m) auto

lemma map_erase_keys: "set (map fst (map_erase k m)) = set (map fst m) - {k}"
  by (auto simp: map_erase_def)

subsection \<open>Insertion\<close>

type_synonym dated = "(string \<times> int) list"

record node_table =
  nt_map :: node_map
  nt_deque :: dated

definition EXPIRY :: int where
  "EXPIRY = 10"

partial_function (option) refresh_loop :: "string \<Rightarrow> int \<Rightarrow> u8 \<Rightarrow> dated \<Rightarrow> dated option" where
  "refresh_loop k now i d =
     (if unat i < length d
      then refresh_loop k now (i + 1)
             (if fst (d ! unat i) = k then d[unat i := (fst (d ! unat i), now)] else d)
      else Some d)"

declare refresh_loop.simps [code]

definition map_insert :: "int \<Rightarrow> string \<Rightarrow> Node \<Rightarrow> node_table \<Rightarrow> (bool \<times> node_table) option" where
  "map_insert now k v t =
     (if \<not> map_has k (nt_map t)
      then Some (True, t\<lparr>nt_map := map_set k v (nt_map t), nt_deque := nt_deque t @ [(k, now)]\<rparr>)
      else map_option (\<lambda>d. (False, t\<lparr>nt_map := map_set k v (nt_map t), nt_deque := d\<rparr>))
             (refresh_loop k now 0 (nt_deque t)))"

subsection \<open>Cleaning\<close>

definition expired :: "int \<Rightarrow> string \<times> int \<Rightarrow> bool" where
  "expired now e = (now - snd e > EXPIRY)"

definition drop_at :: "nat \<Rightarrow> 'a list \<Rightarrow> 'a list" where
  "drop_at i xs = take i xs @ drop (Suc i) xs"

partial_function (option) clean_loop :: "int \<Rightarrow> u8 \<Rightarrow> node_table \<Rightarrow> node_table option" where
  "clean_loop now i t =
     (if unat i < length (nt_deque t)
      then clean_loop now (i + 1)
             (if expired now (nt_deque t ! unat i)
              then t\<lparr>nt_map := map_erase (fst (nt_deque t ! unat i)) (nt_map t),
                     nt_deque := drop_at (unat i) (nt_deque t)\<rparr>
              else t)
      else Some t)"

declare clean_loop.simps [code]

definition map_clean :: "int \<Rightarrow> node_table \<Rightarrow> node_table option" where
  "map_clean now t = clean_loop now 0 t"

subsection \<open>What the loops compute\<close>

text \<open>Dating the entry of one key.\<close>

definition refresh :: "string \<Rightarrow> int \<Rightarrow> dated \<Rightarrow> dated" where
  "refresh k now d = map (\<lambda>e. if fst e = k then (fst e, now) else e) d"

text \<open>The sweep as a recursion: the entry behind a removed one is not looked at.\<close>

fun sweep :: "int \<Rightarrow> dated \<Rightarrow> dated" where
  "sweep now [] = []"
| "sweep now (e # es) =
     (if expired now e then (case es of [] \<Rightarrow> [] | f # fs \<Rightarrow> f # sweep now fs)
      else e # sweep now es)"

lemma u8_Suc: "n < 255 \<Longrightarrow> unat (of_nat n + 1 :: u8) = Suc n"
  by (simp add: unat_word_ariths unsigned_of_nat take_bit_nat_eq_self)

lemma u8_unat: "n < 256 \<Longrightarrow> unat (of_nat n :: u8) = n"
  by (simp add: unsigned_of_nat take_bit_nat_eq_self)

lemma refresh_loop_from:
  assumes "length d < 256" "n \<le> length d"
  shows "refresh_loop k now (of_nat n) d = Some (take n d @ refresh k now (drop n d))"
  using assms
proof (induction "length d - n" arbitrary: n d)
  case 0
  then show ?case by (subst refresh_loop.simps) (simp add: u8_unat refresh_def)
next
  case (Suc m)
  then have n: "n < length d" by simp
  let ?d = "if fst (d ! n) = k then d[n := (fst (d ! n), now)] else d"
  have "refresh_loop k now (of_nat n) d = refresh_loop k now (of_nat (Suc n)) ?d"
    using n Suc.prems by (subst refresh_loop.simps) (simp add: u8_unat add.commute)
  also have "\<dots> = Some (take (Suc n) ?d @ refresh k now (drop (Suc n) ?d))"
    using Suc.hyps(1) [of ?d "Suc n"] Suc.hyps(2) Suc.prems n by simp
  also have "take (Suc n) ?d @ refresh k now (drop (Suc n) ?d) = take n d @ refresh k now (drop n d)"
    using n by (simp add: take_Suc_conv_app_nth refresh_def flip: Cons_nth_drop_Suc)
  finally show ?case .
qed

lemma refresh_loop_small: "length d < 256 \<Longrightarrow> refresh_loop k now 0 d = Some (refresh k now d)"
  using refresh_loop_from [of d 0 k now] by simp

text \<open>The entries a sweep drops, which are the keys that leave the map.\<close>

fun swept :: "int \<Rightarrow> dated \<Rightarrow> string list" where
  "swept now [] = []"
| "swept now (e # es) =
     (if expired now e then fst e # (case es of [] \<Rightarrow> [] | f # fs \<Rightarrow> swept now fs)
      else swept now es)"

definition erase_all :: "string list \<Rightarrow> node_map \<Rightarrow> node_map" where
  "erase_all ks m = fold map_erase ks m"

lemma clean_loop_from:
  assumes "length (nt_deque t) < 256" "n \<le> length (nt_deque t)"
  shows "clean_loop now (of_nat n) t =
    Some (t\<lparr>nt_map := erase_all (swept now (drop n (nt_deque t))) (nt_map t),
            nt_deque := take n (nt_deque t) @ sweep now (drop n (nt_deque t))\<rparr>)"
  using assms
proof (induction "length (nt_deque t) - n" arbitrary: n t rule: less_induct)
  case less
  let ?d = "nt_deque t"
  show ?case
  proof (cases "n < length ?d")
    case False
    then show ?thesis using less.prems
      by (subst clean_loop.simps) (simp add: u8_unat erase_all_def)
  next
    case n: True
    have d: "drop n ?d = ?d ! n # drop (Suc n) ?d" using n by (simp add: Cons_nth_drop_Suc)
    show ?thesis
    proof (cases "expired now (?d ! n)")
      case False
      have "clean_loop now (of_nat n) t = clean_loop now (of_nat (Suc n)) t"
        using n False less.prems by (subst clean_loop.simps) (simp add: u8_unat add.commute)
      then show ?thesis using less.hyps [of t "Suc n"] less.prems n False
        by (simp add: d take_Suc_conv_app_nth)
    next
      case True
      let ?t = "t\<lparr>nt_map := map_erase (fst (?d ! n)) (nt_map t), nt_deque := drop_at n ?d\<rparr>"
      have "clean_loop now (of_nat n) t = clean_loop now (of_nat (Suc n)) ?t"
        using n True less.prems by (subst clean_loop.simps) (simp add: u8_unat add.commute)
      also have "\<dots> = Some (t\<lparr>nt_map := erase_all (swept now (drop n ?d)) (nt_map t),
            nt_deque := take n ?d @ sweep now (drop n ?d)\<rparr>)"
      proof (cases "Suc n < length ?d")
        case False
        then have l: "length ?d = Suc n" using n by simp
        then show ?thesis using True less.prems n u8_unat [of "Suc n"]
          by (subst clean_loop.simps) (simp add: u8_unat d drop_at_def erase_all_def)
      next
        case s: True
        have e: "drop (Suc n) ?d = ?d ! Suc n # drop (Suc (Suc n)) ?d" using s by (simp add: Cons_nth_drop_Suc)
        have l: "length (nt_deque ?t) = length ?d - 1" using n by (simp add: drop_at_def)
        have dr: "drop (Suc n) (drop_at n ?d) = drop (Suc (Suc n)) ?d"
          "take (Suc n) (drop_at n ?d) = take n ?d @ [?d ! Suc n]"
          using n s e by (simp_all add: drop_at_def)
        show ?thesis using less.hyps [of ?t "Suc n"] less.prems n s l True
          by (simp add: d e dr erase_all_def)
      qed
      finally show ?thesis .
    qed
  qed
qed

lemma clean_small:
  "length (nt_deque t) < 256 \<Longrightarrow> map_clean now t =
    Some (t\<lparr>nt_map := erase_all (swept now (nt_deque t)) (nt_map t), nt_deque := sweep now (nt_deque t)\<rparr>)"
  using clean_loop_from [of t 0 now] by (simp add: map_clean_def)

subsection \<open>The two structures agree\<close>

definition table_ok :: "node_table \<Rightarrow> bool" where
  "table_ok t \<longleftrightarrow> sorted_wrt str_less (map fst (nt_map t)) \<and> distinct (map fst (nt_deque t)) \<and>
     set (map fst (nt_deque t)) = set (map fst (nt_map t))"

lemma refresh_keys [simp]: "map fst (refresh k now d) = map fst d"
  by (simp add: refresh_def comp_def)

lemma sweep_swept: "distinct (map fst d) \<Longrightarrow>
    distinct (map fst (sweep now d)) \<and> set (map fst (sweep now d)) = set (map fst d) - set (swept now d) \<and>
    set (swept now d) \<subseteq> set (map fst d)"
proof (induction now d rule: sweep.induct)
  case (2 now e es)
  show ?case
  proof (cases "expired now e")
    case False
    with 2 show ?thesis by (auto simp del: set_map)
  next
    case True
    show ?thesis
    proof (cases es)
      case Nil
      with True show ?thesis by simp
    next
      case (Cons f fs)
      have i: "distinct (map fst (sweep now fs))" "set (map fst (sweep now fs)) = set (map fst fs) - set (swept now fs)"
        "set (swept now fs) \<subseteq> set (map fst fs)" using 2 True Cons by auto
      have n: "fst f \<notin> set (map fst fs)" "fst e \<notin> insert (fst f) (set (map fst fs))" using 2(3) Cons by auto
      then have "fst f \<notin> set (swept now fs)" using i(3) by blast
      then show ?thesis using True Cons i n by (auto simp del: set_map)
    qed
  qed
qed simp

lemma erase_all_map:
  "sorted_wrt str_less (map fst m) \<Longrightarrow> sorted_wrt str_less (map fst (erase_all ks m)) \<and>
    set (map fst (erase_all ks m)) = set (map fst m) - set ks"
proof (induction ks arbitrary: m)
  case (Cons k ks)
  have "sorted_wrt str_less (map fst (map_erase k m))" using Cons.prems by (rule sorted_map_erase)
  from Cons.IH [OF this] show ?case by (simp add: erase_all_def map_erase_keys del: set_map) blast
qed (simp add: erase_all_def)

lemma erase_all_lookup:
  "map_of (erase_all ks m) k = (if k \<in> set ks then None else map_of m k)"
proof (induction ks arbitrary: m)
  case (Cons a ks)
  have e: "map_of (map_erase a m) k = (if k = a then None else map_of m k)"
    by (induction m) (auto simp: map_erase_def)
  have "erase_all (a # ks) m = erase_all ks (map_erase a m)" by (simp add: erase_all_def)
  then show ?case using Cons.IH [of "map_erase a m"] e by auto
qed (simp add: erase_all_def)

lemma map_of_refresh:
  "map_of (refresh k now d) x = (if x = k \<and> k \<in> set (map fst d) then Some now else map_of d x)"
  by (induction d) (force simp: refresh_def)+

lemma map_insert_small:
  assumes "table_ok t" "length (nt_deque t) < 256"
  shows "\<exists>t'. map_insert now k v t = Some (\<not> map_has k (nt_map t), t') \<and> table_ok t' \<and>
    map_of (nt_map t') = (map_of (nt_map t))(k \<mapsto> v) \<and>
    map_of (nt_deque t') = (map_of (nt_deque t))(k \<mapsto> now)"
proof (cases "map_has k (nt_map t)")
  case True
  let ?t = "t\<lparr>nt_map := map_set k v (nt_map t), nt_deque := refresh k now (nt_deque t)\<rparr>"
  have "map_insert now k v t = Some (False, ?t)"
    using True assms(2) by (simp add: map_insert_def refresh_loop_small)
  moreover have "table_ok ?t"
    using assms(1) True keys_map_set [of k v "nt_map t"]
    by (auto simp: table_ok_def sorted_map_set map_has_def simp del: set_map)
  moreover have "k \<in> set (map fst (nt_deque t))" using True assms(1) by (simp add: table_ok_def map_has_def)
  then have "map_of (refresh k now (nt_deque t)) = (map_of (nt_deque t))(k \<mapsto> now)"
    by (simp add: fun_eq_iff map_of_refresh del: set_map)
  ultimately show ?thesis using True by (simp add: map_of_map_set)
next
  case False
  let ?t = "t\<lparr>nt_map := map_set k v (nt_map t), nt_deque := nt_deque t @ [(k, now)]\<rparr>"
  have "map_insert now k v t = Some (True, ?t)" using False by (simp add: map_insert_def)
  moreover have n: "k \<notin> set (map fst (nt_deque t))" using False assms(1) by (simp add: table_ok_def map_has_def)
  then have "table_ok ?t"
    using assms(1) keys_map_set [of k v "nt_map t"]
    by (auto simp: table_ok_def sorted_map_set simp del: set_map)
  moreover have "map_of (nt_deque t @ [(k, now)]) = (map_of (nt_deque t))(k \<mapsto> now)"
  proof -
    have "map_of (nt_deque t) k = None" using n by (simp add: map_of_eq_None_iff)
    then show ?thesis by (auto simp: fun_eq_iff map_add_def split: option.split)
  qed
  ultimately show ?thesis using False by (simp add: map_of_map_set)
qed

lemma map_clean_small:
  assumes "table_ok t" "length (nt_deque t) < 256"
  shows "\<exists>t'. map_clean now t = Some t' \<and> table_ok t' \<and> nt_deque t' = sweep now (nt_deque t) \<and>
    map_of (nt_map t') = (map_of (nt_map t)) |` set (map fst (nt_deque t'))"
proof -
  let ?t = "t\<lparr>nt_map := erase_all (swept now (nt_deque t)) (nt_map t), nt_deque := sweep now (nt_deque t)\<rparr>"
  have s: "sorted_wrt str_less (map fst (nt_map t))" "distinct (map fst (nt_deque t))"
    "set (map fst (nt_deque t)) = set (map fst (nt_map t))" using assms(1) by (simp_all add: table_ok_def)
  note w = sweep_swept [OF s(2), of now] and e = erase_all_map [OF s(1), of "swept now (nt_deque t)"]
  have "table_ok ?t" using w e s(3) unfolding table_ok_def by simp
  moreover have "map_of (erase_all (swept now (nt_deque t)) (nt_map t)) k =
      ((map_of (nt_map t)) |` set (map fst (sweep now (nt_deque t)))) k" for k
  proof -
    have "k \<in> set (map fst (sweep now (nt_deque t))) \<longleftrightarrow>
        k \<in> set (map fst (nt_map t)) \<and> k \<notin> set (swept now (nt_deque t))" using w s(3) by blast
    moreover have "k \<notin> set (map fst (nt_map t)) \<Longrightarrow> map_of (nt_map t) k = None"
      by (simp add: map_of_eq_None_iff)
    ultimately show ?thesis unfolding erase_all_lookup restrict_map_def by auto
  qed
  ultimately show ?thesis
    by (intro exI [of _ ?t]) (simp add: clean_small [OF assms(2)] fun_eq_iff)
qed

subsection \<open>What cleaning removes\<close>

definition stale :: "int \<Rightarrow> dated \<Rightarrow> nat" where
  "stale now d = length (filter (expired now) d)"

lemma sweep_halves: "2 * stale now (sweep now d) \<le> stale now d"
  by (induction now d rule: sweep.induct) (auto simp: stale_def split: list.splits)

lemma sweep_keeps: "e \<in> set d \<Longrightarrow> \<not> expired now e \<Longrightarrow> e \<in> set (sweep now d)"
proof (induction now d rule: sweep.induct)
  case (2 now f es)
  then show ?case by (cases es; cases "expired now f") auto
qed simp

lemma sweep_subset: "set (sweep now d) \<subseteq> set d"
proof (induction now d rule: sweep.induct)
  case (2 now f es)
  then show ?case by (cases es; cases "expired now f") auto
qed simp

text \<open>Neither loop ends on a table of 256 nodes: the counter is below every such length.\<close>

lemma clean_loop_ends:
  assumes "clean_loop now i t = Some r"
  shows "\<not> (256 \<le> length (nt_deque t) \<and> stale now (nt_deque t) = 0)"
proof (rule clean_loop.raw_induct
    [where P = "\<lambda>now i t r. \<not> (256 \<le> length (nt_deque t) \<and> stale now (nt_deque t) = 0)", OF _ assms])
  fix f now and i :: u8 and t r
  assume f: "\<And>now i t y. f now i t = Some y \<Longrightarrow> \<not> (256 \<le> length (nt_deque t) \<and> stale now (nt_deque t) = 0)"
    and r: "(if unat i < length (nt_deque t)
      then f now (i + 1)
             (if expired now (nt_deque t ! unat i)
              then t\<lparr>nt_map := map_erase (fst (nt_deque t ! unat i)) (nt_map t),
                     nt_deque := drop_at (unat i) (nt_deque t)\<rparr>
              else t)
      else Some t) = Some (r :: node_table)"
  show "\<not> (256 \<le> length (nt_deque t) \<and> stale now (nt_deque t) = 0)"
  proof
    assume h: "256 \<le> length (nt_deque t) \<and> stale now (nt_deque t) = 0"
    moreover have "unat i < 256" using unsigned_less [of i] by simp
    ultimately have l: "unat i < length (nt_deque t)" by linarith
    then have "\<not> expired now (nt_deque t ! unat i)"
      using h by (simp add: stale_def filter_empty_conv)
    with r l have "f now (i + 1) t = Some r" by simp
    from f [OF this] h show False by simp
  qed
qed

lemma refresh_loop_ends:
  assumes "refresh_loop k now i d = Some r"
  shows "length d < 256"
proof (rule refresh_loop.raw_induct [where P = "\<lambda>k now i d r. length d < 256", OF _ assms])
  fix f k now and i :: u8 and d r
  assume f: "\<And>k now i d y. f k now i d = Some y \<Longrightarrow> length (d :: dated) < 256"
    and r: "(if unat i < length d
      then f k now (i + 1) (if fst (d ! unat i) = k then d[unat i := (fst (d ! unat i), now)] else d)
      else Some d) = Some (r :: dated)"
  have "unat i < 256" using unsigned_less [of i] by simp
  then show "length d < 256" using r f by (cases "unat i < length d") (fastforce split: if_splits)+
qed

subsection \<open>The table as the collector uses it\<close>

text \<open>
  What the collector relies on: \<open>put\<close> returns on a table that is not full and dates what
  it stores, \<open>cln\<close> drops entries only, and none that is recent.
\<close>

locale report_table =
  fixes ok :: "'t \<Rightarrow> bool"
    and nodes :: "'t \<Rightarrow> nat"
    and get :: "'t \<Rightarrow> string \<Rightarrow> 'v option"
    and date :: "'t \<Rightarrow> string \<Rightarrow> int option"
    and put :: "int \<Rightarrow> string \<Rightarrow> 'v \<Rightarrow> 't \<Rightarrow> (bool \<times> 't) option"
    and cln :: "int \<Rightarrow> 't \<Rightarrow> 't option"
  assumes put_law: "ok t \<Longrightarrow> nodes t < 256 \<Longrightarrow> \<exists>b t'. put now k v t = Some (b, t') \<and> ok t' \<and>
      get t' = (get t)(k \<mapsto> v) \<and> date t' = (date t)(k \<mapsto> now) \<and> nodes t' \<le> Suc (nodes t)"
    and cln_law: "ok t \<Longrightarrow> nodes t < 256 \<Longrightarrow> \<exists>t'. cln now t = Some t' \<and> ok t' \<and>
      nodes t' \<le> nodes t \<and> get t' \<subseteq>\<^sub>m get t \<and>
      (\<forall>k d. date t k = Some d \<longrightarrow> now - d \<le> EXPIRY \<longrightarrow> get t' k = get t k)"
begin

lemma collect:
  assumes "ok t" "nodes t < 255"
  shows "\<exists>b t1 t2. put now k v t = Some (b, t1) \<and> cln now t1 = Some t2 \<and> ok t2 \<and>
    nodes t2 \<le> Suc (nodes t) \<and> get t2 k = Some v \<and> get t2 \<subseteq>\<^sub>m (get t)(k \<mapsto> v)"
proof -
  obtain b t1 where t1: "put now k v t = Some (b, t1)" "ok t1" "get t1 = (get t)(k \<mapsto> v)"
    "date t1 = (date t)(k \<mapsto> now)" "nodes t1 \<le> Suc (nodes t)"
    using put_law [of t now k v] assms by auto
  then have "nodes t1 < 256" using assms by linarith
  from cln_law [OF t1(2) this, of now] obtain t2 where t2: "cln now t1 = Some t2" "ok t2"
    "nodes t2 \<le> nodes t1" "get t2 \<subseteq>\<^sub>m get t1"
    "\<forall>k d. date t1 k = Some d \<longrightarrow> now - d \<le> EXPIRY \<longrightarrow> get t2 k = get t1 k" by blast
  have "get t2 k = get t1 k" using t2(5) t1(4) by (simp add: EXPIRY_def)
  then show ?thesis using t1 t2 by fastforce
qed

end

lemma sweep_length: "length (sweep now d) \<le> length d"
  by (induction now d rule: sweep.induct) (auto split: list.splits)

lemma recent_kept:
  assumes "map_of d k = Some x" "now - x \<le> EXPIRY"
  shows "k \<in> set (map fst (sweep now d))"
proof -
  have "(k, x) \<in> set d" using assms(1) by (rule map_of_SomeD)
  moreover have "\<not> expired now (k, x)" using assms(2) by (simp add: expired_def)
  ultimately have "(k, x) \<in> set (sweep now d)" by (rule sweep_keeps)
  then show ?thesis by force
qed

lemma map_insert_length:
  "length (nt_deque t) < 256 \<Longrightarrow> map_insert now k v t = Some (b, t') \<Longrightarrow>
    length (nt_deque t') \<le> Suc (length (nt_deque t))"
  by (auto simp: map_insert_def refresh_loop_small refresh_def split: if_splits)

interpretation nt: report_table table_ok "\<lambda>t. length (nt_deque t)" "\<lambda>t. map_of (nt_map t)"
  "\<lambda>t. map_of (nt_deque t)" map_insert map_clean
proof
  fix t now k and v :: Node
  assume t: "table_ok t" "length (nt_deque t) < 256"
  then show "\<exists>b t'. map_insert now k v t = Some (b, t') \<and> table_ok t' \<and>
      map_of (nt_map t') = (map_of (nt_map t))(k \<mapsto> v) \<and>
      map_of (nt_deque t') = (map_of (nt_deque t))(k \<mapsto> now) \<and>
      length (nt_deque t') \<le> Suc (length (nt_deque t))"
    using map_insert_small [OF t, of now k v] map_insert_length [OF t(2)] by blast
next
  fix t now
  assume t: "table_ok t" "length (nt_deque t) < 256"
  from map_clean_small [OF this, of now] obtain t' where t': "map_clean now t = Some t'" "table_ok t'"
    "nt_deque t' = sweep now (nt_deque t)"
    "map_of (nt_map t') = (map_of (nt_map t)) |` set (map fst (nt_deque t'))" by blast
  show "\<exists>t'. map_clean now t = Some t' \<and> table_ok t' \<and> length (nt_deque t') \<le> length (nt_deque t) \<and>
      map_of (nt_map t') \<subseteq>\<^sub>m map_of (nt_map t) \<and>
      (\<forall>k d. map_of (nt_deque t) k = Some d \<longrightarrow> now - d \<le> EXPIRY \<longrightarrow>
        map_of (nt_map t') k = map_of (nt_map t) k)"
  proof (intro exI conjI allI impI)
    show "map_of (nt_map t') \<subseteq>\<^sub>m map_of (nt_map t)" by (auto simp: t'(4) map_le_def restrict_map_def)
    show "length (nt_deque t') \<le> length (nt_deque t)" by (simp add: t'(3) sweep_length)
    fix k d assume "map_of (nt_deque t) k = Some d" "now - d \<le> EXPIRY"
    from recent_kept [OF this] show "map_of (nt_map t') k = map_of (nt_map t) k"
      by (simp add: t'(4) t'(3) del: set_map)
  qed (use t' in simp_all)
qed

text \<open>Every entry of a cleaned table was there before, whatever the size.\<close>

lemma clean_loop_subset:
  assumes "clean_loop now i t = Some r"
  shows "set (nt_map r) \<subseteq> set (nt_map t)"
proof (rule clean_loop.raw_induct [where P = "\<lambda>now i t r. set (nt_map r) \<subseteq> set (nt_map t)", OF _ assms])
  fix f now and i :: u8 and t r
  assume f: "\<And>now i t y. f now i t = Some y \<Longrightarrow> set (nt_map y) \<subseteq> set (nt_map t)"
    and r: "(if unat i < length (nt_deque t)
      then f now (i + 1)
             (if expired now (nt_deque t ! unat i)
              then t\<lparr>nt_map := map_erase (fst (nt_deque t ! unat i)) (nt_map t),
                     nt_deque := drop_at (unat i) (nt_deque t)\<rparr>
              else t)
      else Some t) = Some (r :: node_table)"
  show "set (nt_map r) \<subseteq> set (nt_map t)"
    using r f by (fastforce split: if_splits simp: map_erase_def)
qed

lemma map_set_set: "set (map_set k v m) \<subseteq> insert (k, v) (set m)"
  by (induction k v m rule: map_set.induct) auto

subsection \<open>The properties\<close>

text \<open>C24. A report stored in the table of fewer than 256 nodes is what a lookup of its node
  returns from then on, every other node keeps its report, the entry is dated with the
  current time and the two structures keep the same keys.\<close>

theorem node_table_insert:
  assumes "table_ok t" "length (nt_deque t) < 256"
  shows "\<exists>t'. map_insert now k v t = Some (\<not> map_has k (nt_map t), t') \<and> table_ok t' \<and>
    map_of (nt_map t') = (map_of (nt_map t))(k \<mapsto> v) \<and>
    map_of (nt_deque t') = (map_of (nt_deque t))(k \<mapsto> now)"
  using assms by (rule map_insert_small)

text \<open>C25. Cleaning a table of fewer than 256 nodes returns, keeps every entry that has not
  expired and the report of every entry it keeps, and removes at least half of the entries
  that have expired (not all: the one behind a removed entry is skipped).\<close>

theorem node_table_clean:
  assumes "table_ok t" "length (nt_deque t) < 256"
  shows "\<exists>t'. map_clean now t = Some t' \<and> table_ok t' \<and>
    set (nt_deque t') \<subseteq> set (nt_deque t) \<and>
    (\<forall>e\<in>set (nt_deque t). \<not> expired now e \<longrightarrow> e \<in> set (nt_deque t')) \<and>
    2 * stale now (nt_deque t') \<le> stale now (nt_deque t) \<and>
    map_of (nt_map t') = (map_of (nt_map t)) |` set (map fst (nt_deque t'))"
  using map_clean_small [OF assms, of now] sweep_halves sweep_keeps sweep_subset by metis

text \<open>C26. On a table of 256 nodes or more the loops over an 8-bit counter never end: neither
  the update of a known node nor a cleaning that finds nothing to remove returns.\<close>

theorem full_table_hangs:
  assumes "256 \<le> length (nt_deque t)"
  shows "(map_has k (nt_map t) \<longrightarrow> map_insert now k v t = None) \<and>
    (stale now (nt_deque t) = 0 \<longrightarrow> map_clean now t = None)"
proof -
  have "refresh_loop k now 0 (nt_deque t) = None"
    using refresh_loop_ends [of k now 0 "nt_deque t"] assms by fastforce
  moreover have "stale now (nt_deque t) = 0 \<Longrightarrow> map_clean now t = None"
    using clean_loop_ends [of now 0 t] assms unfolding map_clean_def by fastforce
  ultimately show ?thesis by (simp add: map_insert_def)
qed

subsection \<open>Witnesses\<close>

definition table2 :: node_table where
  "table2 = \<lparr>nt_map = [(''a'', new_Node), (''b'', new_Node), (''c'', new_Node)],
     nt_deque = [(''c'', 0), (''a'', 0), (''b'', 15)]\<rparr>"

lemma table2_ok: "table_ok table2 \<and> length (nt_deque table2) < 256"
  by (auto simp: table_ok_def table2_def)

theorem node_table_insert_witness:
  "\<exists>t'. map_insert 20 ''c'' new_Node table2 = Some (False, t') \<and> map_of (nt_deque t') ''c'' = Some 20"
  using node_table_insert [of table2 20 "''c''" "new_Node"] table2_ok
  by (auto simp: map_has_def table2_def)

theorem node_table_clean_witness:
  "\<exists>t'. map_clean 20 table2 = Some t' \<and> (''b'', 15) \<in> set (nt_deque t') \<and> stale 20 (nt_deque t') \<le> 1"
proof -
  have "stale 20 (nt_deque table2) = 2" "(''b'', 15) \<in> set (nt_deque table2)" "\<not> expired 20 (''b'', 15)"
    by (simp_all add: table2_def stale_def expired_def EXPIRY_def)
  then show ?thesis
    using node_table_clean [of table2 20] table2_ok by fastforce
qed

definition table256 :: node_table where
  "table256 = \<lparr>nt_map = map (\<lambda>i. (replicate i CHR ''n'', new_Node)) [0..<256],
     nt_deque = map (\<lambda>i. (replicate i CHR ''n'', 20)) [0..<256]\<rparr>"

theorem full_table_hangs_witness:
  "map_insert 20 [] new_Node table256 = None \<and> map_clean 20 table256 = None"
proof -
  have "256 \<le> length (nt_deque table256)" "stale 20 (nt_deque table256) = 0" "map_has [] (nt_map table256)"
    by (auto simp: table256_def stale_def expired_def EXPIRY_def map_has_def filter_empty_conv)
  then show ?thesis using full_table_hangs [of table256 "[]" 20 "new_Node"] by blast
qed

end
