(* ===== verification/FzController.thy ===== *)
theory FzController
  imports FzNodeManager FzNodeTable
begin

section \<open>The controller\<close>

text \<open>
  \<open>controller/FzController.h\<close>, \<open>rcs.cpp\<close> and \<open>collector.cpp\<close>: the run control of the
  whole acquisition. The collector thread keeps the table of the nodes that report
  (\<open>FzNodeTable\<close>); the run-control thread answers requests, drives its own state machine
  (\<open>FzRC\<close>) and pushes the new state to every node of the table. What answers the requests
  forwarded to a node is a parameter, on the state \<open>'w\<close> of the surroundings, which a request
  may change: \<open>unicast ep q w\<close> sends \<open>q\<close> to the endpoint \<open>ep\<close> and yields the message
  answered, \<open>None\<close> when sending or receiving times out or the answer is empty, and the new
  state of the surroundings (\<open>FzSystem\<close> puts the nodes there). What is pushed and not yet
  delivered is the list \<open>ct_sent\<close>, in the order it was pushed. An exception of the transport, which abandons a round, is
  not modelled.
\<close>

subsection \<open>State\<close>

definition FZNM_REP_PORT :: nat where "FZNM_REP_PORT = 5550"
definition FZNM_PULL_PORT :: nat where "FZNM_PULL_PORT = 6660"

type_synonym sent = "string \<times> nat \<times> Request"

record controller =
  ct_rc :: RCFSM
  ct_table :: node_table
  ct_sent :: "sent list"

definition new_controller :: controller where
  "new_controller = \<lparr>ct_rc = new_RCFSM, ct_table = \<lparr>nt_map = [], nt_deque = []\<rparr>, ct_sent = []\<rparr>"

datatype ctl_reply = Ct_response Response | Ct_nodeset "Node list" | Ct_forward reply

subsection \<open>Sending\<close>

definition endpoint :: "string \<Rightarrow> nat \<Rightarrow> string" where
  "endpoint hostname port = ''tcp://'' @ hostname @ '':'' @ dec port"

type_synonym 'w unicast = "string \<Rightarrow> Request \<Rightarrow> 'w \<Rightarrow> reply option \<times> 'w"

definition send_unicast :: "'w unicast \<Rightarrow> Request \<Rightarrow> string \<Rightarrow> nat \<Rightarrow> 'w \<Rightarrow> reply option \<times> 'w" where
  "send_unicast unicast q hostname port w = unicast (endpoint hostname port) q w"

definition push_unicast :: "Request \<Rightarrow> string \<Rightarrow> nat \<Rightarrow> controller \<Rightarrow> controller" where
  "push_unicast q hostname port c = c\<lparr>ct_sent := ct_sent c @ [(hostname, port, q)]\<rparr>"

definition push_broadcast :: "Request \<Rightarrow> nat \<Rightarrow> controller \<Rightarrow> controller" where
  "push_broadcast q port c =
     fold (\<lambda>(k, rep). push_unicast q (n_hostname rep) port) (nt_map (ct_table c)) c"

text \<open>\<open>boost::to_lower\<close> on ASCII.\<close>

definition to_lower :: "string \<Rightarrow> string" where
  "to_lower s = map (\<lambda>c. let n = of_char c :: nat in if 65 \<le> n \<and> n \<le> 90 then char_of (n + 32) else c) s"

subsection \<open>Requests\<close>

definition node_line :: "Node \<Rightarrow> RcsNode" where
  "node_line rep = \<lparr>rn_hostname = n_hostname rep, rn_profile = n_profile rep, rn_status = n_status rep\<rparr>"

definition ct_read :: "Request \<Rightarrow> Response \<Rightarrow> controller \<Rightarrow> ctl_reply" where
  "ct_read q res c =
     (if variable q = ''status''
      then Ct_response (res_ok (res\<lparr>rs_value := Some (state_label (rc_state (ct_rc c)))\<rparr>))
      else if variable q = ''nodestatus''
      then Ct_response (res_ok (res\<lparr>rs_node := rs_node res @ map (\<lambda>e. node_line (snd e)) (nt_map (ct_table c))\<rparr>))
      else if variable q = ''perfdata'' then Ct_nodeset (map snd (nt_map (ct_table c)))
      else Ct_response (res\<lparr>rs_reason := ''variable not found''\<rparr>))"

definition event_command :: "string \<Rightarrow> RCcommand option" where
  "event_command v =
     (if v = ''reset'' then Some Reset
      else if v = ''configure'' then Some Configure
      else if v = ''start'' then Some Start
      else if v = ''stop'' then Some Stop
      else None)"

definition ct_event :: "Request \<Rightarrow> Response \<Rightarrow> controller \<Rightarrow> Response \<times> controller" where
  "ct_event q res c =
     (if nt_map (ct_table c) = [] then (res\<lparr>rs_reason := ''no DAQ node available''\<rparr>, c)
      else
        let (rct, rc', res') = (case event_command (req_value q) of
               Some cmd \<Rightarrow> (let (rct, rc') = rc_process cmd (ct_rc c) in (rct, rc', res))
             | None \<Rightarrow> (RCOK, ct_rc c, res\<lparr>rs_reason := ''event value not correct''\<rparr>));
            c' = c\<lparr>ct_rc := rc'\<rparr>
        in if rct = RCERROR then (res'\<lparr>rs_reason := ''wrong requested RC transition''\<rparr>, c')
           else (res'\<lparr>rs_errorcode := OK, rs_reason := ''RC transition ok''\<rparr>,
                 push_broadcast (q\<lparr>rq_module := Some NM, rq_variable := Some ''status'',
                                   rq_value := Some (to_lower (state_label (rc_state rc')))\<rparr>)
                   FZNM_PULL_PORT c'))"

definition ct_route :: "'w unicast \<Rightarrow> Request \<Rightarrow> Response \<Rightarrow> 'w \<Rightarrow> ctl_reply \<times> 'w" where
  "ct_route unicast q res w =
     (if req_hostname q = [] then (Ct_response (res\<lparr>rs_reason := ''destination hostname not present''\<rparr>), w)
      else (case send_unicast unicast q (req_hostname q) FZNM_REP_PORT w of
          (Some r, w') \<Rightarrow> (Ct_forward r, w')
        | (None, w') \<Rightarrow> (Ct_response (res\<lparr>rs_reason := ''destination hostname not available''\<rparr>), w')))"

definition ct_handle_request ::
  "'w unicast \<Rightarrow> Request option \<Rightarrow> controller \<Rightarrow> 'w \<Rightarrow> ctl_reply \<times> controller \<times> 'w" where
  "ct_handle_request unicast request c w =
     (case request of
        None \<Rightarrow> (Ct_response (new_Response\<lparr>rs_reason := ''request deserialization error''\<rparr>), c, w)
      | Some q \<Rightarrow>
          if rq_module q = None
          then (Ct_response (new_Response\<lparr>rs_reason := ''request destination module not present''\<rparr>), c, w)
          else if req_module q = CNT then
            (case channel q of
               Ch_RC \<Rightarrow> (case operation q of
                   READ \<Rightarrow> (ct_read q new_Response c, c, w)
                 | WRITE \<Rightarrow>
                     if variable q = ''event''
                     then (let (res, c') = ct_event q new_Response c in (Ct_response res, c', w))
                     else (Ct_response (new_Response\<lparr>rs_reason := ''variable not found''\<rparr>), c, w))
             | Ch_SETUP \<Rightarrow> (Ct_response new_Response, c, w))
          else if req_module q = NM then (let (r, w') = ct_route unicast q new_Response w in (r, c, w'))
          else (Ct_response new_Response, c, w))"

text \<open>One round of \<open>process_rcs\<close>: a request received is answered, a timeout changes nothing.\<close>

definition rcs_round ::
  "'w unicast \<Rightarrow> Request option option \<Rightarrow> controller \<Rightarrow> 'w \<Rightarrow> ctl_reply list \<times> controller \<times> 'w" where
  "rcs_round unicast msg c w =
     (case msg of None \<Rightarrow> ([], c, w)
      | Some request \<Rightarrow> (let (r, c', w') = ct_handle_request unicast request c w in ([r], c', w')))"

subsection \<open>The collector\<close>

definition clean_round :: "int \<Rightarrow> controller \<Rightarrow> controller option" where
  "clean_round now c = map_option (\<lambda>t. c\<lparr>ct_table := t\<rparr>) (map_clean now (ct_table c))"

text \<open>A round of \<open>process_collector\<close>: a message that does not parse is dropped.\<close>

definition collector_round :: "int \<Rightarrow> Node option option \<Rightarrow> controller \<Rightarrow> controller option" where
  "collector_round now msg c =
     (case msg of
        Some (Some rep) \<Rightarrow>
          (case map_insert now (n_hostname rep) rep (ct_table c) of
             None \<Rightarrow> None
           | Some (isnew, t) \<Rightarrow> clean_round now (c\<lparr>ct_table := t\<rparr>))
      | _ \<Rightarrow> clean_round now c)"

subsection \<open>What is pushed\<close>

lemma push_broadcast_fold:
  "fold (\<lambda>(k, rep). push_unicast q (n_hostname rep) port) m c =
    c\<lparr>ct_sent := ct_sent c @ map (\<lambda>e. (n_hostname (snd e), port, q)) m\<rparr>"
  by (induction m arbitrary: c) (auto simp: push_unicast_def)

lemma push_broadcast_sent:
  "push_broadcast q port c =
    c\<lparr>ct_sent := ct_sent c @ map (\<lambda>e. (n_hostname (snd e), port, q)) (nt_map (ct_table c))\<rparr>"
  by (simp add: push_broadcast_def push_broadcast_fold)

lemma to_lower_label [simp]: "to_lower (state_label s) = state_label_l s"
  by (cases s) (simp_all add: to_lower_def char_of_def bit_0)

text \<open>A message that writes the state of a node, and one that tells it to enter the state \<open>s\<close>.\<close>

definition status_write :: "Request \<Rightarrow> bool" where
  "status_write q \<longleftrightarrow> req_module q = NM \<and> channel q = Ch_RC \<and> operation q = WRITE \<and> variable q = ''status''"

definition orders :: "RCstate \<Rightarrow> Request \<Rightarrow> bool" where
  "orders s q \<longleftrightarrow> status_write q \<and> req_value q = state_label_l s"

definition is_event :: "Request \<Rightarrow> bool" where
  "is_event q \<longleftrightarrow> rq_module q = Some CNT \<and> channel q = Ch_RC \<and> operation q = WRITE \<and> variable q = ''event''"

definition status_order :: "RCstate \<Rightarrow> Request \<Rightarrow> Request" where
  "status_order s q = q\<lparr>rq_module := Some NM, rq_variable := Some ''status'',
     rq_value := Some (state_label_l s)\<rparr>"

lemma orders_status_order: "is_event q \<Longrightarrow> orders s (status_order s q)"
  by (simp add: orders_def status_write_def is_event_def status_order_def req_module_def channel_def operation_def
      variable_def req_value_def)

text \<open>The transition an event asks for; a value that names no command leaves the state.\<close>

definition event_next :: "string \<Rightarrow> RCFSM \<Rightarrow> RCtransition \<times> RCFSM" where
  "event_next v rc = (case event_command v of Some cmd \<Rightarrow> rc_process cmd rc | None \<Rightarrow> (RCOK, rc))"

lemma ct_event_result:
  assumes "nt_map (ct_table c) \<noteq> []"
  shows "ct_event q new_Response c =
    (let (rct, rc') = event_next (req_value q) (ct_rc c); c' = c\<lparr>ct_rc := rc'\<rparr>
     in if rct = RCERROR then (new_Response\<lparr>rs_reason := ''wrong requested RC transition''\<rparr>, c')
        else (new_Response\<lparr>rs_errorcode := OK, rs_reason := ''RC transition ok''\<rparr>,
              c'\<lparr>ct_sent := ct_sent c @ map (\<lambda>e. (n_hostname (snd e), FZNM_PULL_PORT,
                   status_order (rc_state rc') q)) (nt_map (ct_table c))\<rparr>))"
  using assms
  by (cases "event_command (req_value q)")
     (auto simp: ct_event_def event_next_def push_broadcast_sent status_order_def Let_def split: prod.split)

lemma handle_event:
  assumes "is_event q"
  shows "ct_handle_request u (Some q) c w =
    (Ct_response (fst (ct_event q new_Response c)), snd (ct_event q new_Response c), w)"
  using assms by (auto simp: ct_handle_request_def is_event_def req_module_def Let_def split: prod.split)

text \<open>A request that is no event leaves the controller as it is, and one that is not forwarded
  the surroundings.\<close>

definition is_routed :: "Request \<Rightarrow> bool" where
  "is_routed q \<longleftrightarrow> rq_module q = Some NM \<and> req_hostname q \<noteq> []"

lemma handle_routed:
  "is_routed q \<Longrightarrow> ct_handle_request u (Some q) c w =
    (case u (endpoint (req_hostname q) FZNM_REP_PORT) q w of
       (Some r, w') \<Rightarrow> (Ct_forward r, c, w')
     | (None, w') \<Rightarrow> (Ct_response (new_Response\<lparr>rs_reason := ''destination hostname not available''\<rparr>), c, w'))"
  by (auto simp: ct_handle_request_def is_routed_def req_module_def ct_route_def send_unicast_def
      split: prod.split option.split)

lemma handle_other:
  assumes "q = None \<or> (\<exists>r. q = Some r \<and> \<not> is_event r)"
  shows "fst (snd (ct_handle_request u q c w)) = c"
  using assms
  by (cases q)
     (auto simp: ct_handle_request_def is_event_def req_module_def
       split: Channel.split Operation.split option.splits prod.split)

lemma handle_inside:
  assumes "q = None \<or> (\<exists>r. q = Some r \<and> \<not> is_routed r)"
  shows "snd (snd (ct_handle_request u q c w)) = w"
  using assms
  by (cases q)
     (auto simp: ct_handle_request_def is_routed_def req_module_def ct_route_def
       split: Channel.split Operation.split option.splits prod.split)

lemma no_event_without_nodes: "nt_map (ct_table c) = [] \<Longrightarrow> snd (ct_event q res c) = c"
  by (simp add: ct_event_def)

lemma ct_event_table: "ct_table (snd (ct_event q res c)) = ct_table c"
  by (simp add: ct_event_def push_broadcast_sent Let_def split: option.split prod.split)

lemma rc_process_error_state: "fst (rc_process cmd rc) = RCERROR \<Longrightarrow> rc_state (snd (rc_process cmd rc)) = rc_state rc"
  using rc_process_result [of cmd rc] by (fastforce simp: rc_state_def intro: rc_next_fixed)

subsection \<open>The table in the controller\<close>

text \<open>A report is stored under the name of the host that sent it.\<close>

definition hosts_ok :: "controller \<Rightarrow> bool" where
  "hosts_ok c \<longleftrightarrow> (\<forall>(k, rep) \<in> set (nt_map (ct_table c)). n_hostname rep = k)"

definition ct_ok :: "controller \<Rightarrow> bool" where
  "ct_ok c \<longleftrightarrow> hosts_ok c \<and> table_ok (ct_table c)"

lemma hosts_ok_clean: "clean_round now c = Some c' \<Longrightarrow> hosts_ok c \<Longrightarrow> hosts_ok c'"
  using clean_loop_subset by (fastforce simp: clean_round_def map_clean_def hosts_ok_def)

lemma map_insert_map: "map_insert now k v t = Some (b, t') \<Longrightarrow> nt_map t' = map_set k v (nt_map t)"
  by (auto simp: map_insert_def split: if_splits)

lemma hosts_ok_collect:
  assumes "collector_round now msg c = Some c'" "hosts_ok c"
  shows "hosts_ok c'"
proof (cases "\<exists>rep. msg = Some (Some rep)")
  case True
  then obtain rep where m: "msg = Some (Some rep)" by blast
  then obtain b t where t: "map_insert now (n_hostname rep) rep (ct_table c) = Some (b, t)"
    "clean_round now (c\<lparr>ct_table := t\<rparr>) = Some c'"
    using assms(1) by (auto simp: collector_round_def split: option.splits)
  have "hosts_ok (c\<lparr>ct_table := t\<rparr>)"
    using assms(2) map_insert_map [OF t(1)] map_set_set [of "n_hostname rep" rep "nt_map (ct_table c)"]
    by (auto simp: hosts_ok_def)
  with t(2) show ?thesis by (rule hosts_ok_clean)
next
  case False
  then have "clean_round now c = Some c'"
    using assms(1) by (auto simp: collector_round_def split: option.splits)
  then show ?thesis using assms(2) by (rule hosts_ok_clean)
qed

lemma collector_frame:
  "collector_round now msg c = Some c' \<Longrightarrow> ct_rc c' = ct_rc c \<and> ct_sent c' = ct_sent c"
  by (auto simp: collector_round_def clean_round_def split: option.splits)

lemma collector_report:
  assumes "ct_ok c" "length (nt_deque (ct_table c)) < 255"
  shows "\<exists>c'. collector_round now (Some (Some rep)) c = Some c' \<and> ct_ok c' \<and>
    map_of (nt_map (ct_table c')) (n_hostname rep) = Some rep \<and>
    length (nt_deque (ct_table c')) \<le> Suc (length (nt_deque (ct_table c))) \<and>
    map_of (nt_map (ct_table c')) \<subseteq>\<^sub>m (map_of (nt_map (ct_table c)))(n_hostname rep \<mapsto> rep)"
proof -
  have "table_ok (ct_table c)" using assms(1) by (simp add: ct_ok_def)
  from nt.collect [OF this assms(2), of now "n_hostname rep" rep] obtain b t1 t2 where
    t: "map_insert now (n_hostname rep) rep (ct_table c) = Some (b, t1)" "map_clean now t1 = Some t2"
      "table_ok t2" "length (nt_deque t2) \<le> Suc (length (nt_deque (ct_table c)))"
      "map_of (nt_map t2) (n_hostname rep) = Some rep"
      "map_of (nt_map t2) \<subseteq>\<^sub>m (map_of (nt_map (ct_table c)))(n_hostname rep \<mapsto> rep)" by blast
  then have r: "collector_round now (Some (Some rep)) c = Some (c\<lparr>ct_table := t2\<rparr>)"
    by (simp add: collector_round_def clean_round_def)
  from hosts_ok_collect [OF this] assms(1) have "hosts_ok (c\<lparr>ct_table := t2\<rparr>)" by (simp add: ct_ok_def)
  with r t show ?thesis by (simp add: ct_ok_def)
qed

lemma collector_no_report:
  assumes "ct_ok c" "length (nt_deque (ct_table c)) < 256" "msg = None \<or> msg = Some None"
  shows "\<exists>c'. collector_round now msg c = Some c' \<and> ct_ok c' \<and>
    length (nt_deque (ct_table c')) \<le> length (nt_deque (ct_table c))"
proof -
  have "table_ok (ct_table c)" using assms(1) by (simp add: ct_ok_def)
  from nt.cln_law [OF this assms(2), of now] obtain t where
    t: "map_clean now (ct_table c) = Some t" "table_ok t" "length (nt_deque t) \<le> length (nt_deque (ct_table c))"
    by blast
  then have r: "collector_round now msg c = Some (c\<lparr>ct_table := t\<rparr>)"
    using assms(3) by (auto simp: collector_round_def clean_round_def)
  from hosts_ok_collect [OF this] assms(1) have "hosts_ok (c\<lparr>ct_table := t\<rparr>)" by (simp add: ct_ok_def)
  with r t show ?thesis by (simp add: ct_ok_def)
qed

subsection \<open>The properties of the controller\<close>

definition node_query :: Request where
  "node_query = \<lparr>rq_channel = Some Ch_RC, rq_operation = Some READ, rq_module = Some CNT,
     rq_hostname = None, rq_variable = Some ''nodestatus'', rq_value = None\<rparr>"

lemma node_query_reply:
  "ct_handle_request u (Some node_query) c w =
    (Ct_response (res_ok (new_Response\<lparr>rs_node := map (\<lambda>e. node_line (snd e)) (nt_map (ct_table c))\<rparr>)), c, w)"
  by (simp add: ct_handle_request_def node_query_def req_module_def channel_def operation_def
      variable_def ct_read_def new_Response_def)

lemma hosts_listed:
  "hosts_ok c \<Longrightarrow> map (\<lambda>e. rn_hostname (node_line (snd e))) (nt_map (ct_table c)) = map fst (nt_map (ct_table c))"
  by (auto simp: hosts_ok_def node_line_def)

text \<open>C27. What a node reports is what the run control shows: once the collector has taken a
  report (with fewer than 255 nodes known), the status of all nodes lists it with the
  profile and state of that report, every node appears once, in the order of the host
  names, and the collector is ready for the next report.\<close>

theorem report_is_visible:
  assumes "ct_ok c" "length (nt_deque (ct_table c)) < 255"
  shows "\<exists>c' r. collector_round now (Some (Some rep)) c = Some c' \<and> ct_ok c' \<and>
    ct_handle_request u (Some node_query) c' w = (Ct_response r, c', w) \<and> rs_errorcode r = OK \<and>
    node_line rep \<in> set (rs_node r) \<and> sorted_wrt str_less (map rn_hostname (rs_node r))"
proof -
  from collector_report [OF assms, of now rep] obtain c' where
    c': "collector_round now (Some (Some rep)) c = Some c'" "ct_ok c'"
      "map_of (nt_map (ct_table c')) (n_hostname rep) = Some rep" by blast
  from map_of_SomeD [OF c'(3)] have "node_line rep \<in> (\<lambda>e. node_line (snd e)) ` set (nt_map (ct_table c'))"
    by force
  moreover have "sorted_wrt str_less (map fst (nt_map (ct_table c')))" "hosts_ok c'"
    using c'(2) by (simp_all add: ct_ok_def table_ok_def)
  then have "sorted_wrt str_less (map (\<lambda>e. rn_hostname (node_line (snd e))) (nt_map (ct_table c')))"
    by (simp only: hosts_listed)
  ultimately show ?thesis
    using c'(1,2) by (simp add: node_query_reply res_ok_def comp_def)
qed

text \<open>An event whose value names no command is answered OK like an accepted one: the
  reason that it is not correct is overwritten, the state does not move and the old state
  is pushed to every node again.\<close>

theorem unknown_event_is_ok:
  assumes "is_event q" "event_command (req_value q) = None" "nt_map (ct_table c) \<noteq> []"
  shows "\<exists>q'. orders (rc_state (ct_rc c)) q' \<and>
    ct_handle_request u (Some q) c w =
      (Ct_response (new_Response\<lparr>rs_errorcode := OK, rs_reason := ''RC transition ok''\<rparr>),
       c\<lparr>ct_sent := ct_sent c @ map (\<lambda>e. (n_hostname (snd e), FZNM_PULL_PORT, q')) (nt_map (ct_table c))\<rparr>, w)"
  using assms orders_status_order [OF assms(1)]
  by (intro exI [of _ "status_order (rc_state (ct_rc c)) q"])
     (simp add: handle_event ct_event_result event_next_def Let_def)

definition report_n1 :: Node where
  "report_n1 = new_Node\<lparr>n_hostname := ''n1'', n_profile := ''compute'', n_status := ''IDLE''\<rparr>"

lemma new_controller_ok: "ct_ok new_controller \<and> nt_deque (ct_table new_controller) = []"
  by (simp add: new_controller_def ct_ok_def hosts_ok_def table_ok_def)

theorem report_is_visible_witness:
  "\<exists>c'. collector_round 0 (Some (Some report_n1)) new_controller = Some c' \<and> ct_ok c'"
  using report_is_visible [of new_controller 0 report_n1 "\<lambda>_ _ w. (None, w)" "()"] new_controller_ok by auto

definition event_request :: "string \<Rightarrow> Request" where
  "event_request v = \<lparr>rq_channel = Some Ch_RC, rq_operation = Some WRITE, rq_module = Some CNT,
     rq_hostname = None, rq_variable = Some ''event'', rq_value = Some v\<rparr>"

lemma event_request_fields [simp]: "is_event (event_request v)" "req_value (event_request v) = v"
  by (simp_all add: event_request_def is_event_def channel_def operation_def variable_def req_value_def)

definition one_node :: controller where
  "one_node = new_controller\<lparr>ct_table := \<lparr>nt_map = [(''n1'', report_n1)], nt_deque = [(''n1'', 0)]\<rparr>\<rparr>"

theorem unknown_event_is_ok_witness:
  "\<exists>q'. orders IDLE q' \<and> ct_sent (fst (snd (ct_handle_request (\<lambda>_ _ w. (None, w)) (Some (event_request ''pause'')) one_node ()))) =
     [(''n1'', FZNM_PULL_PORT, q')]"
proof -
  have "event_command ''pause'' = None" "nt_map (ct_table one_node) \<noteq> []"
    by (simp_all add: event_command_def one_node_def)
  with unknown_event_is_ok [of "event_request ''pause''" one_node "\<lambda>_ _ w. (None, w)" "()"] obtain q' where
    q': "orders (rc_state (ct_rc one_node)) q'"
    "fst (snd (ct_handle_request (\<lambda>_ _ w. (None, w)) (Some (event_request ''pause'')) one_node ())) =
       one_node\<lparr>ct_sent := ct_sent one_node @ map (\<lambda>e. (n_hostname (snd e), FZNM_PULL_PORT, q')) (nt_map (ct_table one_node))\<rparr>"
    by auto
  have "rc_state (ct_rc one_node) = IDLE" by (simp add: one_node_def new_controller_def rc_state_def new_RCFSM_def)
  then show ?thesis using q' by (simp add: one_node_def new_controller_def report_n1_def)
qed

end
