(* ===== verification/FzSystem.thy ===== *)
theory FzSystem
  imports FzController "HOL-Library.Multiset"
begin

section \<open>The controller and its nodes\<close>

text \<open>
  The acquisition as a whole: one controller and the nodes by host name. A step is a round
  of a thread of the controller, the arrival or loss of a message, or a step of a thread of a
  node that no request starts. A request for a node that the controller forwards
  (\<open>send_unicast\<close>) is executed by that node, whose state it may change, whether or not the
  answer comes back in time; one that is given up may still arrive later, since closing the
  socket does not withdraw it. A pushed message may arrive in any order with the others: each
  has a connection of its own. A message to a host without a node is lost. The nodes get no
  other requests than those the controller sends.
\<close>

type_synonym net = "string \<Rightarrow> nodemgr option"

text \<open>The surroundings of the controller: the nodes, and the forwarded requests given up and
  still on their way.\<close>

type_synonym wire = "net \<times> sent list"
type_synonym system = "controller \<times> wire"

subsection \<open>Delivery\<close>

text \<open>The addressed socket of the node takes the message in a round of its own.\<close>

definition node_take :: "world \<Rightarrow> nat \<Rightarrow> Request \<Rightarrow> nodemgr \<Rightarrow> nm_error + (reply list \<times> nodemgr)" where
  "node_take env port q n =
     (if port = FZNM_REP_PORT then comm_round env (Some (Some q)) None n
      else comm_round env None (Some (Some q)) n)"

definition deliver :: "world \<Rightarrow> sent \<Rightarrow> net \<Rightarrow> nm_error + net" where
  "deliver env m N =
     (let (h, port, q) = m in
      case N h of None \<Rightarrow> Inr N
      | Some n \<Rightarrow> bindE (node_take env port q n) (\<lambda>(rs, n'). Inr (N(h \<mapsto> n'))))"

text \<open>A list of messages arriving one after the other.\<close>

fun deliver_all :: "world \<Rightarrow> sent list \<Rightarrow> net \<Rightarrow> nm_error + net" where
  "deliver_all env [] N = Inr N"
| "deliver_all env (m # ms) N = bindE (deliver env m N) (deliver_all env ms)"

text \<open>What becomes of a forwarded request: the node takes it and its answer is received, or
  is not; or it has not arrived when the controller gives up, and arrives later or never. A
  node that stopped at a null component would not answer; no reachable node does
  (\<open>node_never_null\<close>).\<close>

datatype fate = Answered | Answer_lost | Late | Never

definition ep_host :: "string \<Rightarrow> string" where
  "ep_host ep = drop 6 (take (length ep - 5) ep)"

definition node_unicast :: "world \<Rightarrow> fate \<Rightarrow> wire unicast" where
  "node_unicast env f ep q w =
     (let (N, late) = w; h = ep_host ep in
      case f of
        Never \<Rightarrow> (None, w)
      | Late \<Rightarrow> (None, (N, late @ [(h, FZNM_REP_PORT, q)]))
      | _ \<Rightarrow> (case N h of
            None \<Rightarrow> (None, w)
          | Some n \<Rightarrow> (case node_take env FZNM_REP_PORT q n of
                Inr (r # rs, n') \<Rightarrow> (if f = Answered then Some r else None, (N(h \<mapsto> n'), late))
              | _ \<Rightarrow> (None, w))))"

lemma ep_host_endpoint [simp]: "ep_host (endpoint h FZNM_REP_PORT) = h"
proof -
  have "dec FZNM_REP_PORT = ''5550''" by (simp add: FZNM_REP_PORT_def dec.simps digit_def char_of_def bit_0)
  then show ?thesis by (simp add: ep_host_def endpoint_def)
qed

text \<open>What is on its way to a host.\<close>

definition pending :: "string \<Rightarrow> sent list \<Rightarrow> Request list" where
  "pending h ms = map (\<lambda>m. snd (snd m)) (filter (\<lambda>m. fst m = h) ms)"

lemma pending_simps [simp]:
  "pending h [] = []"
  "pending h (m # ms) = (if fst m = h then snd (snd m) # pending h ms else pending h ms)"
  "pending h (ms @ ms') = pending h ms @ pending h ms'"
  by (simp_all add: pending_def)

lemma pending_mset: "mset ms = mset ms' \<Longrightarrow> set (pending h ms) = set (pending h ms')"
  by (drule mset_eq_setD) (auto simp: pending_def)

subsection \<open>A node takes a message\<close>

lemma write_denied:
  "nm_write env q res n = Inr (r, n') \<Longrightarrow> variable q \<noteq> ''status'' \<or> nm_rcmode n \<noteq> RC_MODE_REMOTE \<Longrightarrow> n' = n"
  by (cases "nm_rcmode n = RC_MODE_REMOTE") (auto simp: nm_write_def)

lemma setup_keeps_state: "nm_setup q res n = Inr (r, n') \<Longrightarrow> nm_rc_state n' = nm_rc_state n"
  by (auto simp: nm_setup_def nm_set_store_def nm_rc_state_def split: if_splits option.splits)

lemma handle_keeps_state:
  assumes "nm_handle_request env (Some q) n = Inr (r, n')" "\<not> status_write q \<or> nm_rcmode n \<noteq> RC_MODE_REMOTE"
  shows "nm_rc_state n' = nm_rc_state n"
  using assms
  by (cases "req_module q = NM"; cases "channel q"; cases "operation q")
     (auto simp: nm_handle_request_def status_write_def dest: write_denied setup_keeps_state)

lemma node_take_handles:
  "node_take env port q n = bindE (nm_handle_request env (Some q) n)
     (\<lambda>(r, n'). Inr (if port = FZNM_REP_PORT then [r] else [], n'))"
  by (cases "nm_handle_request env (Some q) n") (auto simp: node_take_def comm_round_def)

text \<open>Every message is taken. In remote mode an order is obeyed; a message that does not write
  the status, or any message in local mode, leaves the run-control state.\<close>

lemma node_take_effect:
  assumes "in_step n"
  shows "\<exists>rs n'. node_take env port q n = Inr (rs, n') \<and> in_step n' \<and> nm_rcmode n' = nm_rcmode n \<and>
    (nm_rcmode n = RC_MODE_REMOTE \<longrightarrow> (\<forall>s. orders s q \<longrightarrow> nm_rc_state n' = s)) \<and>
    (\<not> status_write q \<or> nm_rcmode n \<noteq> RC_MODE_REMOTE \<longrightarrow> nm_rc_state n' = nm_rc_state n)"
proof -
  from nm_handle_request_in_step [OF assms, of env "Some q"] obtain r n' where
    n': "nm_handle_request env (Some q) n = Inr (r, n')" "in_step n'" "same_node n n'" by blast
  have "nm_rc_state n' = s" if "nm_rcmode n = RC_MODE_REMOTE" "orders s q" for s
    using remote_write [OF assms that(1), of q s env] that(2) n'(1) by (auto simp: orders_def status_write_def)
  with n' handle_keeps_state [OF n'(1)] show ?thesis
    by (auto simp: node_take_handles same_node_def)
qed

subsection \<open>Messages arriving at the nodes\<close>

lemma deliver_other: "deliver env (h, port, q) N = Inr N' \<Longrightarrow> h' \<noteq> h \<Longrightarrow> N' h' = N h'"
  by (auto simp: deliver_def bindE_def split: option.splits sum.splits)

definition net_ok :: "net \<Rightarrow> bool" where
  "net_ok N \<longleftrightarrow> (\<forall>h n. N h = Some n \<longrightarrow> in_step n)"

text \<open>What has become of the node \<open>n\<close> when the messages \<open>qs\<close> have arrived, in this order.\<close>

definition taken :: "Request list \<Rightarrow> nodemgr \<Rightarrow> nodemgr \<Rightarrow> bool" where
  "taken qs n n' \<longleftrightarrow> in_step n' \<and> nm_rcmode n' = nm_rcmode n \<and>
     (nm_rcmode n = RC_MODE_REMOTE \<longrightarrow> (\<forall>s. qs \<noteq> [] \<and> orders s (last qs) \<longrightarrow> nm_rc_state n' = s)) \<and>
     (qs = [] \<or> nm_rcmode n \<noteq> RC_MODE_REMOTE \<longrightarrow> nm_rc_state n' = nm_rc_state n)"

lemma taken_step:
  assumes "taken qs n n1" "nm_rcmode n2 = nm_rcmode n1" "in_step n2"
    and "nm_rcmode n1 = RC_MODE_REMOTE \<longrightarrow> (\<forall>s. orders s q \<longrightarrow> nm_rc_state n2 = s)"
    and "nm_rcmode n1 \<noteq> RC_MODE_REMOTE \<longrightarrow> nm_rc_state n2 = nm_rc_state n1"
  shows "taken (qs @ [q]) n n2"
  using assms by (simp add: taken_def)

lemma deliver_net_ok:
  assumes "net_ok N"
  shows "\<exists>N'. deliver env m N = Inr N' \<and> net_ok N' \<and>
    (\<forall>qs h n n1. N h = Some n1 \<and> taken qs n n1 \<longrightarrow> (\<exists>n2. N' h = Some n2 \<and> taken (qs @ pending h [m]) n n2))"
proof -
  obtain h port q where m: "m = (h, port, q)" by (cases m)
  show ?thesis
  proof (cases "N h")
    case None
    then show ?thesis using assms m by (auto simp: deliver_def)
  next
    case (Some n1)
    then have "in_step n1" using assms by (auto simp: net_ok_def)
    from node_take_effect [OF this, of env port q] obtain rs n2 where n2: "node_take env port q n1 = Inr (rs, n2)"
      "in_step n2" "nm_rcmode n2 = nm_rcmode n1"
      "nm_rcmode n1 = RC_MODE_REMOTE \<longrightarrow> (\<forall>s. orders s q \<longrightarrow> nm_rc_state n2 = s)"
      "nm_rcmode n1 \<noteq> RC_MODE_REMOTE \<longrightarrow> nm_rc_state n2 = nm_rc_state n1" by blast
    have "taken (qs @ [q]) n n2" if "taken qs n n1" for qs n
      using taken_step [OF that n2(3,2,4,5)] .
    with n2(1,2) assms Some m show ?thesis
      by (intro exI [of _ "N(h \<mapsto> n2)"]) (auto simp: deliver_def net_ok_def)
  qed
qed

lemma deliver_all_snoc: "deliver_all env (ms @ [m]) N = bindE (deliver_all env ms N) (deliver env m)"
proof (induction ms arbitrary: N)
  case (Cons a ms)
  show ?case by (cases "deliver env a N") (simp_all add: Cons.IH)
qed (simp add: bindE_def split: sum.split)

lemma deliver_all_spec:
  assumes "net_ok N"
  shows "\<exists>N'. deliver_all env ms N = Inr N' \<and> net_ok N' \<and>
    (\<forall>h n. N h = Some n \<longrightarrow> (\<exists>n'. N' h = Some n' \<and> taken (pending h ms) n n'))"
proof (induction ms rule: rev_induct)
  case Nil
  show ?case using assms by (simp add: taken_def net_ok_def)
next
  case (snoc m ms)
  then obtain N1 where N1: "deliver_all env ms N = Inr N1" "net_ok N1"
    "\<forall>h n. N h = Some n \<longrightarrow> (\<exists>n'. N1 h = Some n' \<and> taken (pending h ms) n n')" by blast
  from deliver_net_ok [OF N1(2), of env m] obtain N2 where N2: "deliver env m N1 = Inr N2" "net_ok N2"
    "\<forall>qs h n n1. N1 h = Some n1 \<and> taken qs n n1 \<longrightarrow> (\<exists>n2. N2 h = Some n2 \<and> taken (qs @ pending h [m]) n n2)"
    by blast
  have "\<exists>n'. N2 h = Some n' \<and> taken (pending h (ms @ [m])) n n'" if "N h = Some n" for h n
    using N1(3) N2(3) that unfolding pending_simps(3) by blast
  with N1(1) N2(1,2) show ?case by (auto simp: deliver_all_snoc)
qed

subsection \<open>An event and its delivery\<close>

lemma pending_broadcast:
  "pending h (map (\<lambda>e. (n_hostname (snd e), port, q)) m) = map (\<lambda>_. q) (filter (\<lambda>e. n_hostname (snd e) = h) m)"
  by (induction m) auto

lemma known_host_addressed:
  assumes "hosts_ok c" "map_has h (nt_map (ct_table c))"
  shows "pending h (map (\<lambda>e. (n_hostname (snd e), port, q)) (nt_map (ct_table c))) \<noteq> []"
proof -
  obtain rep where "(h, rep) \<in> set (nt_map (ct_table c))" using assms(2) by (auto simp: map_has_def)
  moreover from this have "n_hostname rep = h" using assms(1) by (auto simp: hosts_ok_def)
  ultimately show ?thesis unfolding pending_broadcast by (force simp: filter_empty_conv)
qed

lemma pending_broadcast_all: "r \<in> set (pending h (map (\<lambda>e. (n_hostname (snd e), port, q)) m)) \<Longrightarrow> r = q"
  unfolding pending_broadcast by auto

text \<open>What an event does to the controller: refused it changes nothing but the recorded
  error, accepted it puts an order for its new state last on the way to every known host.\<close>

lemma event_effect:
  assumes "is_event q" "hosts_ok c" "map_has h (nt_map (ct_table c))"
    and "ct_handle_request u (Some q) c w = (r, c', w')"
  shows "w' = w \<and> ct_table c' = ct_table c \<and>
    (if fst (event_next (req_value q) (ct_rc c)) = RCERROR
     then rc_state (ct_rc c') = rc_state (ct_rc c) \<and> ct_sent c' = ct_sent c
     else \<exists>ms. ct_sent c' = ct_sent c @ ms \<and> pending h ms \<noteq> [] \<and>
       (\<forall>x\<in>set (pending h ms). orders (rc_state (ct_rc c')) x))"
proof -
  have ne: "nt_map (ct_table c) \<noteq> []" using assms(3) by (auto simp: map_has_def)
  have c': "c' = snd (ct_event q new_Response c)" "w' = w" using assms(1,4) by (simp_all add: handle_event)
  show ?thesis
  proof (cases "fst (event_next (req_value q) (ct_rc c)) = RCERROR")
    case True
    then have "rc_state (snd (event_next (req_value q) (ct_rc c))) = rc_state (ct_rc c)"
      by (auto simp: event_next_def rc_process_error_state split: option.splits)
    with True show ?thesis unfolding c' ct_event_result [OF ne] by (simp add: case_prod_unfold Let_def)
  next
    case False
    let ?s = "rc_state (snd (event_next (req_value q) (ct_rc c)))"
    let ?ms = "map (\<lambda>e. (n_hostname (snd e), FZNM_PULL_PORT, status_order ?s q)) (nt_map (ct_table c))"
    have "\<forall>x\<in>set (pending h ?ms). orders ?s x"
      using orders_status_order [OF assms(1)] pending_broadcast_all by metis
    with False known_host_addressed [OF assms(2,3)] show ?thesis
      unfolding c' ct_event_result [OF ne] by (simp add: case_prod_unfold Let_def)
  qed
qed

text \<open>The orders of a reset are the last to reach a host, when nothing was on its way to it
  before or its messages arrive as they were pushed.\<close>

lemma last_is_new:
  assumes "mset ms = mset (sent @ new)" "pending h new \<noteq> []" "\<forall>x\<in>set (pending h new). orders s x"
    and "pending h sent = [] \<or> pending h ms = pending h (sent @ new)"
  shows "pending h ms \<noteq> [] \<and> orders s (last (pending h ms))"
proof (cases "pending h sent = []")
  case True
  then have "set (pending h ms) = set (pending h new)" using pending_mset [OF assms(1), of h] by simp
  with assms(2,3) show ?thesis by (metis last_in_set set_empty)
next
  case False
  with assms(2-4) show ?thesis by auto
qed

text \<open>A reset of an acquisition of which at least one node is known.\<close>

lemma reset_accepted:
  assumes "nt_map (ct_table c) \<noteq> []" "is_event q" "req_value q = ''reset''"
  shows "\<exists>r c'. ct_handle_request u (Some q) c w = (Ct_response r, c', w) \<and> rs_errorcode r = OK \<and>
    rc_state (ct_rc c') = IDLE \<and> fst (event_next (req_value q) (ct_rc c)) = RCOK"
proof -
  let ?e = "ct_event q new_Response c"
  have n: "event_next (req_value q) (ct_rc c) = rc_process Reset (ct_rc c)"
    using assms(3) by (simp add: event_next_def event_command_def)
  have ok: "fst (rc_process Reset (ct_rc c)) = RCOK" "rc_state (snd (rc_process Reset (ct_rc c))) = IDLE"
    by (cases "rc_curstate (ct_rc c)"; simp add: rc_state_def)+
  have "rs_errorcode (fst ?e) = OK" "rc_state (ct_rc (snd ?e)) = IDLE"
    unfolding ct_event_result [OF assms(1)] n using ok
    by (simp_all add: case_prod_unfold Let_def del: rc_process_result)
  with handle_event [OF assms(2), of u c w] ok n show ?thesis by simp
qed

text \<open>C10. Reset brings the acquisition together, in whatever state the controller and the nodes
  are. With no node in the table it is refused and changes nothing. With at least one it is
  answered OK and the controller is idle; when everything pushed has then arrived, in any
  order, every node of the table that is in remote mode is idle in all its threads, if
  nothing was on its way to it before the reset or its messages arrive in the order they
  were pushed; a node in local mode, which denies the order, keeps its state.\<close>

theorem reset_recovers:
  assumes "hosts_ok c" "net_ok N" "is_event q" "req_value q = ''reset''"
  shows "if nt_map (ct_table c) = []
    then ct_handle_request u (Some q) c w =
      (Ct_response (new_Response\<lparr>rs_reason := ''no DAQ node available''\<rparr>), c, w)
    else \<exists>r c'. ct_handle_request u (Some q) c w = (Ct_response r, c', w) \<and> rs_errorcode r = OK \<and>
      rc_state (ct_rc c') = IDLE \<and>
      (\<forall>ms. mset ms = mset (ct_sent c') \<longrightarrow> (\<exists>N'. deliver_all env ms N = Inr N' \<and>
         (\<forall>h n. map_has h (nt_map (ct_table c)) \<and> N h = Some n \<longrightarrow> (\<exists>n'. N' h = Some n' \<and>
            (if nm_rcmode n = RC_MODE_REMOTE
             then pending h (ct_sent c) = [] \<or> pending h ms = pending h (ct_sent c') \<longrightarrow>
               nm_rc_state n' = IDLE \<and> all_in IDLE n'
             else nm_rc_state n' = nm_rc_state n)))))"
proof (cases "nt_map (ct_table c) = []")
  case True
  then show ?thesis using assms(3) by (simp add: handle_event ct_event_def)
next
  case False
  from reset_accepted [OF False assms(3,4), of u w] obtain r c' where
    h: "ct_handle_request u (Some q) c w = (Ct_response r, c', w)"
    and r: "rs_errorcode r = OK" "rc_state (ct_rc c') = IDLE"
    and ok: "fst (event_next (req_value q) (ct_rc c)) = RCOK" by blast
  have idle: "pending k ms \<noteq> [] \<and> orders IDLE (last (pending k ms))"
    if "map_has k (nt_map (ct_table c))" "mset ms = mset (ct_sent c')"
      "pending k (ct_sent c) = [] \<or> pending k ms = pending k (ct_sent c')" for k ms
  proof -
    from event_effect [OF assms(3,1) that(1) h] ok r obtain new where
      "ct_sent c' = ct_sent c @ new" "pending k new \<noteq> []" "\<forall>x\<in>set (pending k new). orders IDLE x" by auto
    with that show ?thesis using last_is_new by metis
  qed
  have "\<exists>N'. deliver_all env ms N = Inr N' \<and>
         (\<forall>h n. map_has h (nt_map (ct_table c)) \<and> N h = Some n \<longrightarrow> (\<exists>n'. N' h = Some n' \<and>
            (if nm_rcmode n = RC_MODE_REMOTE
             then pending h (ct_sent c) = [] \<or> pending h ms = pending h (ct_sent c') \<longrightarrow>
               nm_rc_state n' = IDLE \<and> all_in IDLE n'
             else nm_rc_state n' = nm_rc_state n)))"
    if ms: "mset ms = mset (ct_sent c')" for ms
  proof -
    from deliver_all_spec [OF assms(2), of env ms] obtain N' where N': "deliver_all env ms N = Inr N'"
      "\<forall>h n. N h = Some n \<longrightarrow> (\<exists>n'. N' h = Some n' \<and> taken (pending h ms) n n')" by blast
    have t: "if nm_rcmode n = RC_MODE_REMOTE
             then pending k (ct_sent c) = [] \<or> pending k ms = pending k (ct_sent c') \<longrightarrow>
               nm_rc_state n' = IDLE \<and> all_in IDLE n'
             else nm_rc_state n' = nm_rc_state n"
      if "map_has k (nt_map (ct_table c))" "taken (pending k ms) n n'" for k n n'
      using idle [OF that(1) ms] that(2) by (auto simp: taken_def in_step_def)
    from N' t show ?thesis by blast
  qed
  with h r False show ?thesis by simp
qed

subsection \<open>All histories of the acquisition\<close>

text \<open>The steps of the threads of a node that no request starts.\<close>

inductive quiet_step :: "nodemgr \<Rightarrow> nodemgr \<Rightarrow> bool" where
  perf1: "perf_begin t n = Inr (t', n') \<Longrightarrow> quiet_step n n'"
| perf2: "fits t n \<Longrightarrow> perf_end t n = Inr n' \<Longrightarrow> quiet_step n n'"
| reader: "nm_rd n = Some r \<Longrightarrow> reader_step r r' \<Longrightarrow> quiet_step n (n\<lparr>nm_rd := Some r'\<rparr>)"
| parser: "i < length (nm_psr n) \<Longrightarrow> parser_step (nm_psr n ! i) p' \<Longrightarrow>
    quiet_step n (n\<lparr>nm_psr := (nm_psr n)[i := p']\<rparr>)"
| writer: "nm_wr n = Some w \<Longrightarrow> writer_step w w' \<Longrightarrow> quiet_step n (n\<lparr>nm_wr := Some w'\<rparr>)"

lemma quiet_node_step: "quiet_step n n' \<Longrightarrow> node_step n n'"
  by (induction rule: quiet_step.induct) (auto intro: node_step.intros)

lemma quiet_same: "quiet_step n n' \<Longrightarrow> nm_rcmode n' = nm_rcmode n \<and> nm_rc_state n' = nm_rc_state n"
proof (induction rule: quiet_step.induct)
  case (perf1 t n t' n')
  then show ?case by (cases "take_snapshot (n\<lparr>nm_nodereport := (nm_nodereport n)\<lparr>
            n_hostname := nm_hostname n, n_profile := nm_profile n,
            n_status := state_label (nm_rc_state n),
            n_parser_num := of_nat (length (nm_psr n))\<rparr>\<rparr>) t")
      (auto simp: perf_begin_def nm_rc_state_def)
next
  case (perf2 t n n')
  then show ?case by (cases "take_snapshot n t") (auto simp: perf_end_def nm_rc_state_def Let_def)
qed (simp_all add: nm_rc_state_def)

lemma quiet_in_step: "quiet_step n n' \<Longrightarrow> in_step n \<Longrightarrow> in_step n'"
  using node_step_in_step [OF quiet_node_step] .

text \<open>A label names what an environment can choose: the request of a client, the pushed
  message that arrives before the ones pushed earlier and still on their way (the list), the
  pushed message that is lost.\<close>

datatype label = Client "Request option" | Collect | Deliver "sent list" sent | Lose sent | Straggler | Quiet

inductive sys_step :: "label \<Rightarrow> system \<Rightarrow> system \<Rightarrow> bool" where
  client: "ct_handle_request (node_unicast env f) q c w = (r, c', w') \<Longrightarrow> sys_step (Client q) (c, w) (c', w')"
| collect: "collector_round now msg c = Some c' \<Longrightarrow> sys_step Collect (c, w) (c', w)"
| deliver: "ct_sent c = ms @ m # ms' \<Longrightarrow> deliver env m N = Inr N' \<Longrightarrow>
    sys_step (Deliver ms m) (c, (N, late)) (c\<lparr>ct_sent := ms @ ms'\<rparr>, (N', late))"
| lose: "ct_sent c = ms @ m # ms' \<Longrightarrow> sys_step (Lose m) (c, w) (c\<lparr>ct_sent := ms @ ms'\<rparr>, w)"
| late_arrives: "late = ms @ m # ms' \<Longrightarrow> deliver env m N = Inr N' \<Longrightarrow>
    sys_step Straggler (c, (N, late)) (c, (N', ms @ ms'))"
| late_lost: "late = ms @ m # ms' \<Longrightarrow> sys_step Straggler (c, (N, late)) (c, (N, ms @ ms'))"
| quiet: "N h = Some n \<Longrightarrow> quiet_step n n' \<Longrightarrow> sys_step Quiet (c, (N, late)) (c, (N(h \<mapsto> n'), late))"

subsection \<open>A request forwarded to a node\<close>

lemma node_unicast_other:
  "h \<noteq> h' \<Longrightarrow> node_unicast env f (endpoint h' FZNM_REP_PORT) q (N, late) = (a, (N', late')) \<Longrightarrow>
    N' h = N h \<and> (late' = late \<or> late' = late @ [(h', FZNM_REP_PORT, q)])"
  by (auto simp: node_unicast_def Let_def split: fate.splits option.splits sum.splits list.splits)

lemma node_unicast_to:
  assumes "N h = Some n" "in_step n"
    and "node_unicast env f (endpoint h FZNM_REP_PORT) q (N, late) = (a, (N', late'))"
  shows "\<exists>n'. N' h = Some n' \<and> (late' = late \<or> late' = late @ [(h, FZNM_REP_PORT, q)]) \<and>
    (n' = n \<or> (\<exists>rs. node_take env FZNM_REP_PORT q n = Inr (rs, n')))"
  using assms by (auto simp: node_unicast_def Let_def split: fate.splits option.splits sum.splits list.splits)

text \<open>C18. A request for a node goes to that node alone: when its answer comes back in time,
  the client gets the answer the node gives to the request itself, the node is left as the
  request leaves it, the other nodes and the controller as they were. So an order of a
  client to a node in remote mode moves the node and not the controller, whatever its state.\<close>

theorem request_routed_to_node:
  assumes "net_ok N" "is_routed q" "N (req_hostname q) = Some n"
  shows "\<exists>r n'. nm_handle_request env (Some q) n = Inr (r, n') \<and>
    ct_handle_request (node_unicast env Answered) (Some q) c (N, late) =
      (Ct_forward r, c, (N(req_hostname q \<mapsto> n'), late)) \<and>
    (if nm_rcmode n = RC_MODE_REMOTE \<and> status_write q
     then \<forall>s. orders s q \<longrightarrow> nm_rc_state n' = s \<and> all_in s n'
     else nm_rc_state n' = nm_rc_state n)"
proof -
  have n: "in_step n" using assms(1,3) by (auto simp: net_ok_def)
  from nm_handle_request_in_step [OF this, of env "Some q"] obtain r n' where
    h: "nm_handle_request env (Some q) n = Inr (r, n')" "in_step n'" by blast
  then have t: "node_take env FZNM_REP_PORT q n = Inr ([r], n')" by (simp add: node_take_handles)
  have "ct_handle_request (node_unicast env Answered) (Some q) c (N, late) =
      (Ct_forward r, c, (N(req_hostname q \<mapsto> n'), late))"
    using assms(3) t by (simp add: handle_routed [OF assms(2)] node_unicast_def)
  moreover have "if nm_rcmode n = RC_MODE_REMOTE \<and> status_write q
     then \<forall>s. orders s q \<longrightarrow> nm_rc_state n' = s \<and> all_in s n'
     else nm_rc_state n' = nm_rc_state n"
    using node_take_effect [OF n, of env FZNM_REP_PORT q] t h(2) by (auto simp: in_step_def)
  ultimately show ?thesis using h(1) by blast
qed

subsection \<open>When the nodes follow\<close>

text \<open>
  What keeps a node in step with the controller: the messages pushed to it arrive in the
  order they were pushed, or an event is only sent when the previous one has arrived (then
  their order does not matter); the controller knows the node at each event; no message
  pushed to it is lost; and no client writes its status behind the back of the controller.
\<close>

datatype pacing = In_order | Settled

fun allowed :: "pacing \<Rightarrow> string \<Rightarrow> controller \<Rightarrow> label \<Rightarrow> bool" where
  "allowed d h c (Client (Some q)) \<longleftrightarrow>
     (if is_event q
      then map_has h (nt_map (ct_table c)) \<and> (d = Settled \<longrightarrow> pending h (ct_sent c) = [])
      else \<not> (status_write q \<and> req_hostname q = h))"
| "allowed d h c (Deliver ms m) \<longleftrightarrow> (d = In_order \<and> fst m = h \<longrightarrow> pending h ms = [])"
| "allowed d h c (Lose m) \<longleftrightarrow> fst m \<noteq> h"
| "allowed d h c l \<longleftrightarrow> True"

definition follow_step :: "pacing \<Rightarrow> string \<Rightarrow> system \<Rightarrow> system \<Rightarrow> bool" where
  "follow_step d h s s' \<longleftrightarrow> (\<exists>l. sys_step l s s' \<and> allowed d h (fst s) l)"

text \<open>The node \<open>h\<close> follows: it is in the state of the controller, or the order for it is on
  its way, last where messages arrive in order and alone where they are settled.\<close>

definition in_order :: "pacing \<Rightarrow> RCstate \<Rightarrow> Request list \<Rightarrow> nodemgr \<Rightarrow> bool" where
  "in_order d s qs n \<longleftrightarrow> in_step n \<and> nm_rcmode n = RC_MODE_REMOTE \<and> (\<forall>q\<in>set qs. \<exists>x. orders x q) \<and>
     (if qs = [] then nm_rc_state n = s
      else if d = In_order then orders s (last qs) else \<forall>q\<in>set qs. orders s q)"

definition harmless :: "string \<Rightarrow> sent list \<Rightarrow> bool" where
  "harmless h late \<longleftrightarrow> (\<forall>q\<in>set (pending h late). \<not> status_write q)"

definition follows :: "pacing \<Rightarrow> string \<Rightarrow> system \<Rightarrow> bool" where
  "follows d h s \<longleftrightarrow> (case s of (c, (N, late)) \<Rightarrow> hosts_ok c \<and> harmless h late \<and>
     (\<exists>n. N h = Some n \<and> in_order d (rc_state (ct_rc c)) (pending h (ct_sent c)) n))"

lemma follows_iff:
  "follows d h (c, (N, late)) \<longleftrightarrow> hosts_ok c \<and> harmless h late \<and>
     (\<exists>n. N h = Some n \<and> in_order d (rc_state (ct_rc c)) (pending h (ct_sent c)) n)"
  by (simp add: follows_def)

lemma in_order_append:
  "in_order d s qs n \<Longrightarrow> ps \<noteq> [] \<Longrightarrow> \<forall>x\<in>set ps. orders t x \<Longrightarrow> (d = Settled \<longrightarrow> qs = []) \<Longrightarrow> in_order d t (qs @ ps) n"
  by (cases d) (auto simp: in_order_def)

text \<open>A node that keeps its state and mode keeps following.\<close>

lemma in_order_same:
  "in_order d s qs n \<Longrightarrow> in_step n' \<Longrightarrow> nm_rcmode n' = nm_rcmode n \<Longrightarrow> nm_rc_state n' = nm_rc_state n \<Longrightarrow>
    in_order d s qs n'"
  by (simp add: in_order_def)

lemma in_order_quiet: "in_order d s qs n \<Longrightarrow> quiet_step n n' \<Longrightarrow> in_order d s qs n'"
  using quiet_same quiet_in_step in_order_same by (metis in_order_def)

lemma in_order_take:
  assumes "in_order d s qs n" "\<not> status_write q" "node_take env port q n = Inr (rs, n')"
  shows "in_order d s qs n'"
proof -
  have "in_step n" using assms(1) by (simp add: in_order_def)
  from node_take_effect [OF this, of env port q] assms(2,3) in_order_same [OF assms(1)] show ?thesis by simp
qed

lemma in_order_deliver:
  assumes "in_order d s (ps @ q # ps') n" "d = In_order \<longrightarrow> ps = []" "node_take env port q n = Inr (rs, n')"
  shows "in_order d s (ps @ ps') n'"
proof -
  have n: "in_step n" "nm_rcmode n = RC_MODE_REMOTE" using assms(1) by (simp_all add: in_order_def)
  from node_take_effect [OF n(1), of env port q] assms(3) n(2) have
    "in_step n'" "nm_rcmode n' = RC_MODE_REMOTE" "\<forall>s. orders s q \<longrightarrow> nm_rc_state n' = s" by auto
  with assms(1,2) show ?thesis by (cases d) (auto simp: in_order_def split: if_splits)
qed

lemma follows_event:
  assumes "ct_handle_request u (Some q) c (N, late) = (r, c', w')" "follows d h (c, (N, late))"
    and "is_event q" "map_has h (nt_map (ct_table c))" "d = Settled \<longrightarrow> pending h (ct_sent c) = []"
  shows "follows d h (c', w')"
proof -
  obtain n where n: "hosts_ok c" "harmless h late" "N h = Some n"
    "in_order d (rc_state (ct_rc c)) (pending h (ct_sent c)) n"
    using assms(2) by (auto simp: follows_iff)
  from event_effect [OF assms(3) n(1) assms(4,1)] have
    e: "w' = (N, late)" "ct_table c' = ct_table c"
    "if fst (event_next (req_value q) (ct_rc c)) = RCERROR
     then rc_state (ct_rc c') = rc_state (ct_rc c) \<and> ct_sent c' = ct_sent c
     else \<exists>ms. ct_sent c' = ct_sent c @ ms \<and> pending h ms \<noteq> [] \<and>
       (\<forall>x\<in>set (pending h ms). orders (rc_state (ct_rc c')) x)" by auto
  then have "in_order d (rc_state (ct_rc c')) (pending h (ct_sent c')) n"
    using n(4) in_order_append [OF n(4) _ _ assms(5)] by (auto split: if_splits)
  moreover have "hosts_ok c'" using n(1) e(2) by (simp add: hosts_ok_def)
  ultimately show ?thesis using n(2,3) e(1) by (simp add: follows_iff)
qed

lemma harmless_snoc [simp]:
  "harmless h (late @ [(k, port, q)]) \<longleftrightarrow> harmless h late \<and> (k = h \<longrightarrow> \<not> status_write q)"
  by (auto simp: harmless_def)

lemma harmless_part: "harmless h (ms @ m # ms') \<Longrightarrow> harmless h (ms @ ms')"
  by (simp add: harmless_def split: if_splits)

lemma follows_routed:
  assumes "node_unicast env f (endpoint k FZNM_REP_PORT) q (N, late) = (a, (N', late'))"
    and "follows d h (c, (N, late))" "\<not> (status_write q \<and> k = h)"
  shows "follows d h (c, (N', late'))"
proof (cases "k = h")
  case False
  with node_unicast_other [of h k, OF _ assms(1)] assms(2) show ?thesis by (auto simp: follows_iff)
next
  case True
  obtain n where n: "hosts_ok c" "harmless h late" "N h = Some n"
    "in_order d (rc_state (ct_rc c)) (pending h (ct_sent c)) n"
    using assms(2) by (auto simp: follows_iff)
  have w: "\<not> status_write q" "in_step n" using assms(3) True n(4) by (simp_all add: in_order_def)
  from node_unicast_to [of N h, OF n(3) w(2), of env f q late a N' late'] assms(1) True obtain n' where
    n': "N' h = Some n'" "late' = late \<or> late' = late @ [(h, FZNM_REP_PORT, q)]"
      "n' = n \<or> (\<exists>rs. node_take env FZNM_REP_PORT q n = Inr (rs, n'))" by blast
  then have "in_order d (rc_state (ct_rc c)) (pending h (ct_sent c)) n'"
    using in_order_take [OF n(4) w(1)] n(4) by blast
  with n(1,2) n'(1,2) w(1) show ?thesis by (auto simp: follows_iff)
qed

lemma follows_client:
  assumes "ct_handle_request (node_unicast env f) q c (N, late) = (r, c', w')" "follows d h (c, (N, late))"
    and "allowed d h c (Client q)"
  shows "follows d h (c', w')"
proof (cases q)
  case None
  then have "c' = c" "w' = (N, late)" using assms(1) by (simp_all add: ct_handle_request_def)
  with assms(2) show ?thesis by simp
next
  case (Some x)
  consider (event) "is_event x" | (routed) "\<not> is_event x" "is_routed x" | (inside) "\<not> is_event x" "\<not> is_routed x"
    by blast
  then show ?thesis
  proof cases
    case event
    with follows_event [of _ x c N late r c' w' d h] assms Some show ?thesis by simp
  next
    case routed
    obtain a N' late' where a: "node_unicast env f (endpoint (req_hostname x) FZNM_REP_PORT) x (N, late) = (a, (N', late'))"
      by (cases "node_unicast env f (endpoint (req_hostname x) FZNM_REP_PORT) x (N, late)") auto
    then have "c' = c" "w' = (N', late')"
      using assms(1) Some by (auto simp: handle_routed [OF routed(2)] split: option.splits)
    moreover have "\<not> (status_write x \<and> req_hostname x = h)" using assms(3) Some routed(1) by simp
    ultimately show ?thesis using follows_routed [OF a assms(2)] by simp
  next
    case inside
    then have "c' = c" "w' = (N, late)"
      using handle_other [of q "node_unicast env f" c "(N, late)"] handle_inside [of q "node_unicast env f" c "(N, late)"]
        assms(1) Some by auto
    with assms(2) show ?thesis by simp
  qed
qed

lemma follows_deliver:
  assumes "ct_sent c = ms @ m # ms'" "deliver env m N = Inr N'" "follows d h (c, (N, late))"
    and "allowed d h c (Deliver ms m)"
  shows "follows d h (c\<lparr>ct_sent := ms @ ms'\<rparr>, (N', late))"
proof -
  obtain k port q where m: "m = (k, port, q)" by (cases m)
  have ho: "hosts_ok (c\<lparr>ct_sent := ms @ ms'\<rparr>)" "harmless h late"
    using assms(3) by (simp_all add: follows_iff hosts_ok_def)
  obtain n where n: "N h = Some n" "in_order d (rc_state (ct_rc c)) (pending h (ct_sent c)) n"
    using assms(3) by (auto simp: follows_iff)
  show ?thesis
  proof (cases "k = h")
    case True
    then obtain rs n' where n': "node_take env port q n = Inr (rs, n')" "N' = N(h \<mapsto> n')"
      using assms(2) m n(1) by (auto simp: deliver_def bindE_Inr_iff)
    have "in_order d (rc_state (ct_rc c)) (pending h ms @ pending h ms') n'"
      using in_order_deliver [OF _ _ n'(1)] n(2) assms(1,4) m True by simp
    then show ?thesis using ho n'(2) by (simp add: follows_iff)
  next
    case False
    then have "N' h = N h" using deliver_other [of env k port q N N' h] assms(2) m by simp
    then show ?thesis using ho n assms(1) m False by (simp add: follows_iff)
  qed
qed

lemma follows_late:
  assumes "late = ms @ m # ms'" "deliver env m N = Inr N'" "follows d h (c, (N, late))"
  shows "follows d h (c, (N', ms @ ms'))"
proof -
  obtain k port q where m: "m = (k, port, q)" by (cases m)
  obtain n where n: "hosts_ok c" "harmless h late" "N h = Some n"
    "in_order d (rc_state (ct_rc c)) (pending h (ct_sent c)) n"
    using assms(3) by (auto simp: follows_iff)
  have "\<exists>n'. N' h = Some n' \<and> in_order d (rc_state (ct_rc c)) (pending h (ct_sent c)) n'"
  proof (cases "k = h")
    case True
    then obtain rs n' where n': "node_take env port q n = Inr (rs, n')" "N' = N(h \<mapsto> n')"
      using assms(2) m n(3) by (auto simp: deliver_def bindE_Inr_iff)
    have "\<not> status_write q" using n(2) assms(1) m True by (simp add: harmless_def)
    from in_order_take [OF n(4) this n'(1)] n'(2) show ?thesis by simp
  next
    case False
    then show ?thesis using deliver_other [of env k port q N N' h] assms(2) m n(3,4) by simp
  qed
  with n(1,2) assms(1) harmless_part show ?thesis by (simp add: follows_iff)
qed

lemma follows_collect:
  assumes "collector_round now msg c = Some c'" "follows d h (c, (N, late))"
  shows "follows d h (c', (N, late))"
  using hosts_ok_collect [OF assms(1)] collector_frame [OF assms(1)] assms(2) by (simp add: follows_iff)

lemma follows_step:
  assumes "follow_step d h s s'" "follows d h s"
  shows "follows d h s'"
proof -
  obtain l where l: "sys_step l s s'" and a: "allowed d h (fst s) l" using assms(1) by (auto simp: follow_step_def)
  from l show ?thesis
  proof (cases rule: sys_step.cases)
    case (client env f q c w r c' w')
    then show ?thesis using follows_client [of env f q c "fst w" "snd w" r c' w' d h] assms(2) a by simp
  next
    case (collect now msg c c' w)
    then show ?thesis using follows_collect [of now msg c c' d h "fst w" "snd w"] assms(2) by simp
  next
    case (deliver c ms m ms' env N N' late)
    then show ?thesis using follows_deliver assms(2) a by simp
  next
    case (lose c ms m ms' w)
    then show ?thesis using assms(2) a by (cases w) (simp add: follows_iff hosts_ok_def)
  next
    case (late_arrives late ms m ms' env N N' c)
    then show ?thesis using follows_late assms(2) by simp
  next
    case (late_lost late ms m ms' c N)
    then show ?thesis using assms(2) by (auto simp: follows_iff intro: harmless_part)
  next
    case (quiet N k n n' c late)
    then show ?thesis using assms(2) in_order_quiet by (auto simp: follows_iff)
  qed
qed

definition start_system :: "net \<Rightarrow> system" where
  "start_system N = (new_controller, (N, []))"

lemma follows_start:
  assumes "N h = Some n" "fresh_node n" "nm_rcmode n = RC_MODE_REMOTE"
  shows "follows d h (start_system N)"
proof -
  have "nm_rc_state n = IDLE"
    using assms(2,3) by (auto simp: fresh_node_def nm_rc_state_def new_nodemgr_def nm_mode_def split: if_splits)
  then show ?thesis using assms fresh_in_step [OF assms(2)]
    by (simp add: start_system_def follows_iff new_controller_def hosts_ok_def in_order_def harmless_def
        rc_state_def new_RCFSM_def)
qed

lemma follows_reachable:
  assumes "(follow_step d h)\<^sup>*\<^sup>* (start_system N0) s" "N0 h = Some n0" "fresh_node n0" "nm_rcmode n0 = RC_MODE_REMOTE"
  shows "follows d h s"
  using assms by (induction rule: rtranclp_induct) (auto intro: follows_start follows_step)

text \<open>C4. A node in remote mode follows the controller: after any interleaving of requests to
  the controller (forwarded ones included), reports, expiries, arrivals and work of the nodes,
  a node to which nothing pushed is on its way has the run-control state of the controller,
  and so have its reader, parsers and writer. The conditions are those of \<open>allowed\<close>: the
  controller knew the node at every event, no client wrote the status of this node itself
  (\<open>request_routed_to_node\<close> shows what that does), no message pushed to it was lost, and
  either those messages arrived in the order they were pushed or no event was sent while one
  was on its way to the node, and then in any order.\<close>

theorem node_follows_controller:
  assumes "(follow_step d h)\<^sup>*\<^sup>* (start_system N0) (c, (N, late))"
    and "N0 h = Some n0" "fresh_node n0" "nm_rcmode n0 = RC_MODE_REMOTE"
    and "pending h (ct_sent c) = []"
  shows "\<exists>n. N h = Some n \<and> nm_rc_state n = rc_state (ct_rc c) \<and> all_in (rc_state (ct_rc c)) n"
  using follows_reachable [OF assms(1-4)] assms(5) by (fastforce simp: follows_iff in_order_def in_step_def)

subsection \<open>Witnesses\<close>

definition net1 :: net where
  "net1 = [''n1'' \<mapsto> compute_node]"

definition env1 :: world where
  "env1 = \<lparr>w_time = 0, w_mkdir = True\<rparr>"

lemma net1_ok: "net_ok net1"
  using fresh_in_step [OF fresh_compute_node] by (simp add: net_ok_def net1_def)

lemma one_node_known: "hosts_ok one_node" "map_has ''n1'' (nt_map (ct_table one_node))"
  by (simp_all add: one_node_def hosts_ok_def report_n1_def map_has_def)

lemma first_report: "collector_round 0 (Some (Some report_n1)) new_controller = Some one_node"
proof -
  have "clean_loop 0 0 \<lparr>nt_map = [(''n1'', report_n1)], nt_deque = [(''n1'', 0)]\<rparr> =
      Some \<lparr>nt_map = [(''n1'', report_n1)], nt_deque = [(''n1'', 0)]\<rparr>"
    by (subst clean_loop.simps, subst clean_loop.simps) (simp add: expired_def EXPIRY_def)
  moreover have "n_hostname report_n1 = ''n1''" by (simp add: report_n1_def)
  ultimately show ?thesis
    by (simp add: collector_round_def map_insert_def map_has_def clean_round_def map_clean_def
        one_node_def new_controller_def)
qed

theorem reset_recovers_witness:
  "\<exists>r c' N' n'. ct_handle_request (node_unicast env1 Never) (Some (event_request ''reset'')) one_node (net1, []) =
       (Ct_response r, c', (net1, [])) \<and>
     deliver_all env1 (rev (ct_sent c')) net1 = Inr N' \<and> N' ''n1'' = Some n' \<and> nm_rc_state n' = IDLE"
proof -
  have 1: "nt_map (ct_table one_node) \<noteq> []" "net1 ''n1'' = Some compute_node" "ct_sent one_node = []"
    by (simp_all add: one_node_def net1_def new_controller_def)
  with reset_recovers [OF one_node_known(1) net1_ok, of "event_request ''reset''" "node_unicast env1 Never" "(net1, [])" env1]
  obtain r c' where c': "ct_handle_request (node_unicast env1 Never) (Some (event_request ''reset'')) one_node (net1, []) =
       (Ct_response r, c', (net1, []))"
    "\<forall>ms. mset ms = mset (ct_sent c') \<longrightarrow> (\<exists>N'. deliver_all env1 ms net1 = Inr N' \<and>
         (\<forall>h n. map_has h (nt_map (ct_table one_node)) \<and> net1 h = Some n \<longrightarrow> (\<exists>n'. N' h = Some n' \<and>
            (if nm_rcmode n = RC_MODE_REMOTE
             then pending h (ct_sent one_node) = [] \<or> pending h ms = pending h (ct_sent c') \<longrightarrow>
               nm_rc_state n' = IDLE \<and> all_in IDLE n'
             else nm_rc_state n' = nm_rc_state n))))" by auto
  have "mset (rev (ct_sent c')) = mset (ct_sent c')" by simp
  with c'(2) obtain N' where N': "deliver_all env1 (rev (ct_sent c')) net1 = Inr N'"
    "\<forall>h n. map_has h (nt_map (ct_table one_node)) \<and> net1 h = Some n \<longrightarrow> (\<exists>n'. N' h = Some n' \<and>
            (if nm_rcmode n = RC_MODE_REMOTE
             then pending h (ct_sent one_node) = [] \<or> pending h (rev (ct_sent c')) = pending h (ct_sent c') \<longrightarrow>
               nm_rc_state n' = IDLE \<and> all_in IDLE n'
             else nm_rc_state n' = nm_rc_state n))" by blast
  from N'(2) [rule_format, of "''n1''" compute_node] 1(2,3) one_node_known(2) compute_node_mode(1)
  obtain n' where "N' ''n1'' = Some n'" "nm_rc_state n' = IDLE" by auto
  with c'(1) N'(1) show ?thesis by blast
qed

definition c_configured :: controller where
  "c_configured = fst (snd (ct_handle_request (node_unicast env1 Never) (Some (event_request ''configure'')) one_node (net1, [])))"

lemma c_configured_sent:
  "rc_state (ct_rc c_configured) = READY \<and>
   (\<exists>q. ct_sent c_configured = [(''n1'', FZNM_PULL_PORT, q)])"
proof -
  have "event_command ''configure'' = Some Configure" by (simp add: event_command_def)
  moreover have "fst (rc_process Configure new_RCFSM) = RCOK" "rc_state (snd (rc_process Configure new_RCFSM)) = READY"
    by (simp_all add: new_RCFSM_def rc_state_def)
  ultimately show ?thesis
    by (simp add: c_configured_def handle_event ct_event_result event_next_def one_node_def new_controller_def
        report_n1_def case_prod_unfold Let_def del: rc_process_result)
qed

theorem node_follows_controller_witness:
  "\<exists>c N n. (follow_step Settled ''n1'')\<^sup>*\<^sup>* (start_system net1) (c, (N, [])) \<and> rc_state (ct_rc c) = READY \<and>
     N ''n1'' = Some n \<and> nm_rc_state n = READY \<and> all_in READY n"
proof -
  obtain q where q: "rc_state (ct_rc c_configured) = READY" "ct_sent c_configured = [] @ (''n1'', FZNM_PULL_PORT, q) # []"
    using c_configured_sent by auto
  obtain N where N: "deliver env1 (''n1'', FZNM_PULL_PORT, q) net1 = Inr N"
    using deliver_net_ok [OF net1_ok] by blast
  let ?c = "c_configured\<lparr>ct_sent := [] @ []\<rparr>"
  have k1: "follow_step Settled ''n1'' (start_system net1) (one_node, (net1, []))"
    unfolding follow_step_def start_system_def using sys_step.collect [OF first_report] by fastforce
  have "ct_handle_request (node_unicast env1 Never) (Some (event_request ''configure'')) one_node (net1, []) =
      (fst (ct_handle_request (node_unicast env1 Never) (Some (event_request ''configure'')) one_node (net1, [])),
       c_configured, (net1, []))"
    unfolding c_configured_def by (simp add: handle_event)
  from sys_step.client [OF this] have
    "sys_step (Client (Some (event_request ''configure''))) (one_node, (net1, [])) (c_configured, (net1, []))" .
  moreover have "allowed Settled ''n1'' one_node (Client (Some (event_request ''configure'')))"
    using one_node_known(2) by (simp add: one_node_def new_controller_def)
  ultimately have k2: "follow_step Settled ''n1'' (one_node, (net1, [])) (c_configured, (net1, []))"
    unfolding follow_step_def by force
  have k3: "follow_step Settled ''n1'' (c_configured, (net1, [])) (?c, (N, []))"
    unfolding follow_step_def using sys_step.deliver [OF q(2) N] by fastforce
  have s: "(follow_step Settled ''n1'')\<^sup>*\<^sup>* (start_system net1) (?c, (N, []))"
    by (rule rtranclp.rtrancl_into_rtrancl [OF rtranclp.rtrancl_into_rtrancl
          [OF r_into_rtranclp [of "follow_step Settled ''n1''", OF k1] k2] k3])
  have "net1 ''n1'' = Some compute_node" by (simp add: net1_def)
  from node_follows_controller [OF s this fresh_compute_node compute_node_mode(1)] q(1) s
  show ?thesis by fastforce
qed

text \<open>An order to a node behind the back of the idle controller.\<close>

definition routed_running :: Request where
  "routed_running = (status_request RUNNING)\<lparr>rq_hostname := Some ''n1''\<rparr>"

theorem request_routed_to_node_witness:
  "\<exists>r n'. ct_handle_request (node_unicast env1 Answered) (Some routed_running) one_node (net1, []) =
      (Ct_forward r, one_node, (net1(''n1'' \<mapsto> n'), [])) \<and>
    nm_rc_state n' = RUNNING \<and> rc_state (ct_rc one_node) = IDLE"
proof -
  have q: "is_routed routed_running" "status_write routed_running" "orders RUNNING routed_running"
    "req_hostname routed_running = ''n1''"
    by (simp_all add: routed_running_def status_request_def is_routed_def status_write_def orders_def req_hostname_def
        req_module_def channel_def operation_def variable_def req_value_def)
  have "net1 (req_hostname routed_running) = Some compute_node" using q(4) by (simp add: net1_def)
  from request_routed_to_node [OF net1_ok q(1) this, of env1 one_node "[]"] q(2-4) compute_node_mode(1)
  show ?thesis by (auto simp: one_node_def new_controller_def rc_state_def new_RCFSM_def)
qed

end
