(* ===== verification/FzTable.thy ===== *)
theory FzTable
  imports FzText FzReport
begin

section \<open>The table of the statistics\<close>

text \<open>
  The lines that \<open>print_status_table\<close> of \<open>controller/cli.cpp\<close> and the command \<open>stats\<close> of
  \<open>main/FzDAQ-mt.cpp\<close> both print, and \<open>human_byte\<close> of \<open>utils/FzUtils.cpp\<close>, which turns a
  number of bytes into text with a unit. The argument of \<open>human_byte\<close> is the double a 64-bit
  counter is converted to; dividing it by 1024 is exact.
\<close>

subsection \<open>Doubles of counters\<close>

text \<open>A natural number above 53 bits is rounded to the nearest double, ties to even.\<close>

fun excess :: "nat \<Rightarrow> nat" where
  "excess n = (if n < 2 ^ 53 then 0 else Suc (excess (n div 2)))"

declare excess.simps [simp del]

definition double_of :: "nat \<Rightarrow> nat" where
  "double_of n = nat (round_half_even (int n) (2 ^ excess n)) * 2 ^ excess n"

subsection \<open>human_byte\<close>

definition units :: "string list" where
  "units = [''B'', ''kB'', ''MB'', ''GB'', ''TB'', ''PB'', ''EB'', ''ZB'', ''YB'']"

text \<open>How often the loop divides: it compares a quotient with 1024, which its whole part decides.\<close>

fun divisions :: "nat \<Rightarrow> nat" where
  "divisions n = (if n < 1024 then 0 else Suc (divisions (n div 1024)))"

declare divisions.simps [simp del]

text \<open>\<open>sprintf("%.*f", i, n / d)\<close>\<close>

definition fixed :: "nat \<Rightarrow> nat \<Rightarrow> nat \<Rightarrow> string" where
  "fixed i n d =
     (let r = nat (round_half_even (int (n * 10 ^ i)) (int d))
      in if i = 0 then dec r else dec (r div 10 ^ i) @ ''.'' @ setw0 i (dec (r mod 10 ^ i)))"

text \<open>\<open>None\<close> is a unit behind the end of the table.\<close>

definition human_byte :: "nat \<Rightarrow> string option" where
  "human_byte sz =
     (let i = divisions sz
      in map_option (\<lambda>u. fixed i sz (1024 ^ i) @ '' '' @ u) (nth_opt units i))"

subsection \<open>Rows\<close>

definition setw_left :: "nat \<Rightarrow> string \<Rightarrow> string" where
  "setw_left k s = s @ replicate (k - length s) CHR '' ''"

definition setw_right :: "nat \<Rightarrow> string \<Rightarrow> string" where
  "setw_right k s = replicate (k - length s) CHR '' '' @ s"

record row =
  row_name :: string
  row_in_events :: u64
  row_in_rate :: u32
  row_in_bytes :: u64
  row_in_bw :: u32
  row_out_events :: u64
  row_out_rate :: u32
  row_out_bytes :: u64
  row_out_bw :: u32

definition reader_row :: "ReaderReport \<Rightarrow> row" where
  "reader_row r = \<lparr>row_name = ''FzReader'', row_in_events = rr_in_events r, row_in_rate = rr_in_events_bw r,
     row_in_bytes = rr_in_bytes r, row_in_bw = rr_in_bytes_bw r,
     row_out_events = rr_out_events r, row_out_rate = rr_out_events_bw r,
     row_out_bytes = rr_out_bytes r, row_out_bw = rr_out_bytes_bw r\<rparr>"

text \<open>The other rows repeat the rates and bytes of the input in the columns of the output.\<close>

definition parser_row :: "string \<Rightarrow> ParserReport \<Rightarrow> row" where
  "parser_row name r = \<lparr>row_name = name, row_in_events = pr_in_events r, row_in_rate = pr_in_events_bw r,
     row_in_bytes = pr_in_bytes r, row_in_bw = pr_in_bytes_bw r,
     row_out_events = pr_out_events r, row_out_rate = pr_in_events_bw r,
     row_out_bytes = pr_in_bytes r, row_out_bw = pr_in_bytes_bw r\<rparr>"

definition fsm_row :: "NodeFsm \<Rightarrow> row" where
  "fsm_row r = \<lparr>row_name = ''  FSM'', row_in_events = nf_in_events r, row_in_rate = nf_in_events_bw r,
     row_in_bytes = nf_in_bytes r, row_in_bw = nf_in_bytes_bw r,
     row_out_events = nf_out_events r, row_out_rate = nf_in_events_bw r,
     row_out_bytes = nf_in_bytes r, row_out_bw = nf_in_bytes_bw r\<rparr>"

definition writer_row :: "WriterReport \<Rightarrow> row" where
  "writer_row r = \<lparr>row_name = ''FzWriter'', row_in_events = wr_in_events r, row_in_rate = wr_in_events_bw r,
     row_in_bytes = wr_in_bytes r, row_in_bw = wr_in_bytes_bw r,
     row_out_events = wr_out_events r, row_out_rate = wr_in_events_bw r,
     row_out_bytes = wr_in_bytes r, row_out_bw = wr_in_bytes_bw r\<rparr>"

definition rate_text :: "u32 \<Rightarrow> string" where
  "rate_text n = dec (unat n) @ '' ev/s''"

definition bytes_text :: "u64 \<Rightarrow> string option" where
  "bytes_text n = human_byte (double_of (unat n))"

definition bw_text :: "u32 \<Rightarrow> string option" where
  "bw_text n = map_option (\<lambda>t. t @ ''/s'') (human_byte (double_of (unat n)))"

definition row_text :: "row \<Rightarrow> string option" where
  "row_text r =
     (case (bytes_text (row_in_bytes r), bw_text (row_in_bw r), bytes_text (row_out_bytes r), bw_text (row_out_bw r)) of
        (Some ib, Some iw, Some ob, Some ow) \<Rightarrow> Some (setw_left 15 (row_name r) @
          concat (map (setw_right 15) [dec (unat (row_in_events r)), rate_text (row_in_rate r), ib, iw,
            dec (unat (row_out_events r)), rate_text (row_out_rate r), ob, ow]))
      | _ \<Rightarrow> None)"

definition table_head :: "string list" where
  "table_head =
     [setw_left 15 ''thread'' @ concat (map (setw_left 30)
        [''          IN events'', ''           IN data'', ''          OUT events'', ''           OUT data'']),
      setw_left 15 ''-'' @ concat (map (setw_left 15)
        [''     num'', ''    rate'', ''    size'', ''     bw'', ''     num'', ''    rate'', ''    size'', ''     bw''])]"

text \<open>A table is a list of lines of text and rows, printed in order.\<close>

datatype table_line = T_text string | T_row row

definition line_text :: "table_line \<Rightarrow> string option" where
  "line_text l = (case l of T_text s \<Rightarrow> Some s | T_row r \<Rightarrow> row_text r)"

definition table_text :: "table_line list \<Rightarrow> string list option" where
  "table_text ls = those (map line_text ls)"


subsection \<open>What the texts say\<close>

lemma round_half_even_near:
  assumes "0 < b"
  shows "2 * \<bar>round_half_even a b * b - a\<bar> \<le> b"
proof -
  have "a = (a div b) * b + a mod b" "0 \<le> a mod b" "a mod b < b" using assms by simp_all
  moreover obtain q r where "q = a div b" "r = a mod b" by blast
  ultimately have a: "a = q * b + r" "0 \<le> r" "r < b" by simp_all
  have "round_half_even a b = q + 1 \<and> b \<le> 2 * r \<or> round_half_even a b = q \<and> 2 * r \<le> b"
    using \<open>q = a div b\<close> \<open>r = a mod b\<close> by (auto simp: round_half_even_def Let_def)
  then show ?thesis
  proof
    assume r: "round_half_even a b = q + 1 \<and> b \<le> 2 * r"
    then have "round_half_even a b * b - a = b - r" using a(1) by (simp add: algebra_simps)
    with r a show ?thesis by simp
  next
    assume r: "round_half_even a b = q \<and> 2 * r \<le> b"
    then have "round_half_even a b * b - a = - r" using a(1) by simp
    with r a show ?thesis by simp
  qed
qed

lemma round_half_even_nonneg: "0 \<le> a \<Longrightarrow> 0 < b \<Longrightarrow> 0 \<le> round_half_even a b"
  by (simp add: round_half_even_def Let_def pos_imp_zdiv_nonneg_iff)

lemma divisions_range: "n < 1024 ^ Suc (divisions n) \<and> (divisions n = 0 \<or> 1024 ^ divisions n \<le> n)"
proof (induction n rule: divisions.induct)
  case (1 n)
  show ?case
  proof (cases "n < 1024")
    case True
    then show ?thesis by (simp add: divisions.simps [of n])
  next
    case False
    let ?m = "n div 1024"
    from 1 False have m: "?m < 1024 ^ Suc (divisions ?m)" "divisions ?m = 0 \<or> 1024 ^ divisions ?m \<le> ?m" by auto
    have "n < 1024 * 1024 ^ Suc (divisions ?m)"
      using m(1) by (simp add: div_less_iff_less_mult mult.commute)
    moreover have "1024 * 1024 ^ divisions ?m \<le> n"
      using m(2) False by (auto simp: less_eq_div_iff_mult_less_eq mult.commute)
    ultimately show ?thesis using False by (simp add: divisions.simps [of n])
  qed
qed

lemma divisions_le: "n < 1024 ^ Suc k \<Longrightarrow> divisions n \<le> k"
proof (rule ccontr)
  assume n: "n < 1024 ^ Suc k" and "\<not> divisions n \<le> k"
  then have "Suc k \<le> divisions n" by simp
  then have "(1024 :: nat) ^ Suc k \<le> 1024 ^ divisions n" by (rule power_increasing) simp
  with divisions_range [of n] n \<open>Suc k \<le> divisions n\<close> show False by auto
qed

lemma excess_range: "n < 2 ^ (53 + excess n) \<and> (excess n = 0 \<or> 2 ^ (52 + excess n) \<le> n)"
proof (induction n rule: excess.induct)
  case (1 n)
  show ?case
  proof (cases "n < 2 ^ 53")
    case True
    then show ?thesis by (simp add: excess.simps [of n])
  next
    case False
    let ?m = "n div 2"
    from 1 False have m: "?m < 2 ^ (53 + excess ?m)" "excess ?m = 0 \<or> 2 ^ (52 + excess ?m) \<le> ?m" by auto
    have "n < 2 * 2 ^ (53 + excess ?m)" using m(1) by (simp add: div_less_iff_less_mult mult.commute)
    moreover have "2 * 2 ^ (52 + excess ?m) \<le> n"
      using m(2) False by (auto simp: less_eq_div_iff_mult_less_eq mult.commute)
    moreover have "excess n = Suc (excess ?m)" using False excess.simps [of n] by simp
    ultimately show ?thesis by (simp add: power_add)
  qed
qed

lemma double_of_near: "2 * \<bar>int (double_of n) - int n\<bar> \<le> 2 ^ excess n"
  using round_half_even_near [of "2 ^ excess n" "int n"] round_half_even_nonneg [of "int n" "2 ^ excess n"]
  by (simp add: double_of_def)

lemma double_of_exact:
  assumes "n < 2 ^ 53"
  shows "double_of n = n"
proof -
  have "2 * \<bar>int (double_of n) - int n\<bar> \<le> 1" using double_of_near [of n] assms excess.simps [of n] by simp
  then have "int (double_of n) = int n" by presburger
  then show ?thesis by simp
qed

lemma double_of_u64:
  fixes x :: u64
  shows "double_of (unat x) < 1024 ^ 7" "2 * \<bar>int (double_of (unat x)) - int (unat x)\<bar> \<le> 2 ^ 11"
proof -
  have x: "unat x < 2 ^ 64" using unsigned_less [of x] by simp
  have "excess (unat x) \<le> 11"
  proof (rule ccontr)
    assume "\<not> excess (unat x) \<le> 11"
    then have "(2 :: nat) ^ 64 \<le> 2 ^ (52 + excess (unat x))" by (intro power_increasing) auto
    with x excess_range [of "unat x"] \<open>\<not> excess (unat x) \<le> 11\<close> show False by auto
  qed
  then have "(2 :: int) ^ excess (unat x) \<le> 2 ^ 11" by (rule power_increasing) simp
  with double_of_near [of "unat x"] show e: "2 * \<bar>int (double_of (unat x)) - int (unat x)\<bar> \<le> 2 ^ 11" by linarith
  have "int (unat x) < 2 ^ 64" using x by (simp only: of_nat_less_numeral_power_cancel_iff)
  with e have "int (double_of (unat x)) < 1024 ^ 7" by simp
  then show "double_of (unat x) < 1024 ^ 7" by simp
qed

text \<open>
  C39. \<open>human_byte\<close> on a counter: the unit is always one of the table, the unit below which the
  number has less than 1024, and the decimals, as many as the index of the unit, are those of the
  number nearest to it; the number is the counter itself below 2^53 and at most 1024 off above.
\<close>

theorem human_byte_u64:
  fixes x :: u64
  shows "\<exists>i r. i \<le> 6 \<and> human_byte (double_of (unat x)) = Some ((if i = 0 then dec r
        else dec (r div 10 ^ i) @ ''.'' @ setw0 i (dec (r mod 10 ^ i))) @ '' '' @ units ! i) \<and>
      double_of (unat x) < 1024 ^ Suc i \<and> (0 < i \<longrightarrow> 1024 ^ i \<le> double_of (unat x)) \<and>
      2 * \<bar>int r * 1024 ^ i - int (double_of (unat x)) * 10 ^ i\<bar> \<le> 1024 ^ i \<and>
      (unat x < 2 ^ 53 \<longrightarrow> double_of (unat x) = unat x) \<and> \<bar>int (double_of (unat x)) - int (unat x)\<bar> \<le> 1024"
proof -
  let ?D = "double_of (unat x)"
  let ?i = "divisions ?D"
  let ?r = "nat (round_half_even (int (?D * 10 ^ ?i)) (int (1024 ^ ?i)))"
  have i: "?i \<le> 6" using double_of_u64(1) [of x] by (intro divisions_le) simp
  have h: "human_byte ?D = Some (fixed ?i ?D (1024 ^ ?i) @ '' '' @ units ! ?i)"
    using i by (simp add: human_byte_def nth_opt_def units_def Let_def)
  have r: "2 * \<bar>int ?r * 1024 ^ ?i - int ?D * 10 ^ ?i\<bar> \<le> 1024 ^ ?i"
    using round_half_even_near [of "int (1024 ^ ?i)" "int (?D * 10 ^ ?i)"]
      round_half_even_nonneg [of "int (?D * 10 ^ ?i)" "int (1024 ^ ?i)"] by simp
  have d: "\<bar>int ?D - int (unat x)\<bar> \<le> 1024" using double_of_u64(2) [of x] by simp
  show ?thesis
    using i h r d divisions_range [of ?D] double_of_exact [of "unat x"]
    by (intro exI [of _ ?i] exI [of _ ?r]) (auto simp: fixed_def Let_def)
qed

theorem human_byte_u64_witness: "human_byte (double_of (unat (2048 :: u64))) = Some ''2.0 kB''"
proof -
  have D: "double_of (unat (2048 :: u64)) = 2048" by (simp add: double_of_exact)
  from human_byte_u64 [of 2048] obtain i r where "human_byte (double_of (unat (2048 :: u64))) = Some ((if i = 0 then dec r
        else dec (r div 10 ^ i) @ ''.'' @ setw0 i (dec (r mod 10 ^ i))) @ '' '' @ units ! i)"
      "double_of (unat (2048 :: u64)) < 1024 ^ Suc i" "0 < i \<longrightarrow> 1024 ^ i \<le> double_of (unat (2048 :: u64))"
      "2 * \<bar>int r * 1024 ^ i - int (double_of (unat (2048 :: u64))) * 10 ^ i\<bar> \<le> 1024 ^ i" by blast
  then have i: "human_byte 2048 = Some ((if i = 0 then dec r
        else dec (r div 10 ^ i) @ ''.'' @ setw0 i (dec (r mod 10 ^ i))) @ '' '' @ units ! i)"
      "2048 < (1024 :: nat) ^ Suc i" "0 < i \<longrightarrow> (1024 :: nat) ^ i \<le> 2048"
      "2 * \<bar>int r * 1024 ^ i - 2048 * 10 ^ i\<bar> \<le> 1024 ^ i" unfolding D by simp_all
  have "i < 2"
  proof (rule ccontr)
    assume "\<not> i < 2"
    then have "(1024 :: nat) ^ 2 \<le> 1024 ^ i" by (intro power_increasing) auto
    with i(3) \<open>\<not> i < 2\<close> show False by simp
  qed
  moreover have "i \<noteq> 0" using i(2) by (intro notI) simp
  ultimately have "i = 1" by simp
  moreover from this i(4) have "r = 20" by simp
  moreover have "dec 2 = ''2''" "dec 0 = ''0''" by code_simp+
  ultimately show ?thesis using i(1) D by (simp add: units_def setw0_def)
qed

lemma unat_ucast_wide: "unat (ucast y :: u64) = unat y" for y :: u32
proof -
  have "unat y < 2 ^ 32" using unsigned_less [of y] by simp
  then have "unat y < 2 ^ 64" by simp
  then show ?thesis by (simp only: unsigned_ucast_eq) (simp add: take_bit_nat_eq_self)
qed

lemma human_byte_some:
  fixes x :: u64 and y :: u32
  shows "human_byte (double_of (unat x)) \<noteq> None" "human_byte (double_of (unat y)) \<noteq> None"
proof -
  have h: "human_byte (double_of (unat z)) \<noteq> None" for z :: u64
    using double_of_u64(1) [of z] divisions_le [of "double_of (unat z)" 6]
    by (simp add: human_byte_def nth_opt_def units_def Let_def)
  show "human_byte (double_of (unat x)) \<noteq> None" by (rule h)
  have "unat (ucast y :: u64) = unat y" by (rule unat_ucast_wide)
  with h [of "ucast y"] show "human_byte (double_of (unat y)) \<noteq> None" by simp
qed

lemma row_text_some: "\<exists>t. row_text r = Some t"
proof -
  have "bytes_text n \<noteq> None" "bw_text m \<noteq> None" for n m
    using human_byte_some by (simp_all add: bytes_text_def bw_text_def)
  then obtain ib iw ob ow where "bytes_text (row_in_bytes r) = Some ib" "bw_text (row_in_bw r) = Some iw"
    "bytes_text (row_out_bytes r) = Some ob" "bw_text (row_out_bw r) = Some ow" by blast
  then show ?thesis by (simp add: row_text_def)
qed

lemma table_text_some: "\<exists>t. table_text ls = Some t"
proof -
  have "\<exists>t. line_text l = Some t" for l using row_text_some by (cases l) (simp_all add: line_text_def)
  then obtain f where "\<And>l. line_text l = Some (f l)" by metis
  then have "those (map line_text ls) = Some (map f ls)" by (induction ls) simp_all
  then show ?thesis by (simp add: table_text_def)
qed

end
