(* ===== verification/FzMain.thy ===== *)
theory FzMain
  imports FzNodeManager FzTable
begin

section \<open>The program of a node\<close>

text \<open>
  \<open>main/FzConfig.cpp\<close>, the configuration and the local command line of
  \<open>main/FzDAQ-mt.cpp\<close>, and \<open>urlparse\<close> of \<open>utils/FzUtils.cpp\<close>. The parsed configuration
  file is its two lookup functions; the list of network interfaces is that of \<open>getifaddrs\<close>. A call of \<open>exit\<close> is an error with the message. What the command line prints
  is the list of its lines, with the tag of the coloured ones.
\<close>

subsection \<open>Configuration values\<close>

record config =
  cf_str :: "string \<Rightarrow> string option"
  cf_uint :: "string \<Rightarrow> u32 option"

text \<open>An endpoint is given directly or, after a dollar sign, by the path of another value.\<close>

definition getZMQEndpoint :: "config \<Rightarrow> string \<Rightarrow> string" where
  "getZMQEndpoint cfg path =
     (case cf_str cfg (path @ ''.url'') of
        None \<Rightarrow> []
      | Some val \<Rightarrow>
          if val \<noteq> [] \<and> hd val = CHR ''$''
          then (case cf_str cfg (tl val) of Some ref \<Rightarrow> ref | None \<Rightarrow> [])
          else val)"

definition endpoint_or :: "config \<Rightarrow> string \<Rightarrow> string \<Rightarrow> string" where
  "endpoint_or cfg path dflt = (let ep = getZMQEndpoint cfg path in if ep = [] then dflt else ep)"

definition reader_endpoint :: "config \<Rightarrow> string" where
  "reader_endpoint cfg = endpoint_or cfg ''fzdaq.fzreader.producer'' ''inproc://fzreader''"

subsection \<open>The URL of the reader\<close>

datatype url_error = Name_overflow | Port_range

definition is_blank :: "char \<Rightarrow> bool" where
  "is_blank c = (c = CHR '' '' \<or> (9 \<le> (of_char c :: nat) \<and> (of_char c :: nat) \<le> 13))"

text \<open>The decimal conversion \<open>%99d\<close>: blanks, a sign, digits; at most 99 characters.\<close>

definition scan_int :: "string \<Rightarrow> int option" where
  "scan_int s =
     (let t = take 99 (dropWhile is_blank s);
          neg = (t \<noteq> [] \<and> hd t = CHR ''-'');
          u = (if t \<noteq> [] \<and> (hd t = CHR ''-'' \<or> hd t = CHR ''+'') then tl t else t);
          ds = takeWhile is_digit u
      in if ds = [] then None else Some (if neg then - int (num_of ds) else int (num_of ds)))"

text \<open>
  \<open>sscanf(url, "udp://%99[^:]:%99d", _devname, &_port)\<close> with 16 bytes for the name; a name
  that does not fit is written beyond them even when the rest does not match. A number out
  of the range of \<open>int\<close> is undefined.
\<close>

definition urlparse :: "string \<Rightarrow> url_error + (string \<times> u32) option" where
  "urlparse url =
     (if take 6 url \<noteq> ''udp://'' then Inr None
      else let s = drop 6 url; name = take 99 (takeWhile (\<lambda>c. c \<noteq> CHR '':'') s);
               rest = drop (length name) s
           in if name = [] then Inr None
              else if length name > 15 then Inl Name_overflow
              else if rest = [] \<or> hd rest \<noteq> CHR '':'' then Inr None
              else (case scan_int (tl rest) of
                      None \<Rightarrow> Inr None
                    | Some n \<Rightarrow> if - (2 ^ 31) \<le> n \<and> n < 2 ^ 31 then Inr (Some (name, of_int n)) else Inl Port_range))"

subsection \<open>The address of a device\<close>

text \<open>An interface: its family unless it has no address, and the answer of \<open>getnameinfo\<close>.\<close>

record ifaddr =
  ifa_name :: string
  ifa_family :: "int option"
  ifa_host :: "string option"

definition AF_INET :: int where "AF_INET = 2"

text \<open>\<open>host\<close> is the buffer on the stack, which nothing initialises.\<close>

fun devtoip_loop :: "string \<Rightarrow> ifaddr list \<Rightarrow> string \<Rightarrow> string" where
  "devtoip_loop netdev [] host = host"
| "devtoip_loop netdev (ifa # ifs) host =
     (if ifa_family ifa = Some AF_INET \<and> ifa_name ifa = netdev
      then (case ifa_host ifa of None \<Rightarrow> [] | Some h \<Rightarrow> devtoip_loop netdev ifs h)
      else devtoip_loop netdev ifs host)"

definition devtoip :: "ifaddr list option \<Rightarrow> string \<Rightarrow> string \<Rightarrow> string" where
  "devtoip ifaddrs host netdev =
     (case ifaddrs of None \<Rightarrow> [] | Some ifs \<Rightarrow> devtoip_loop netdev ifs host)"

text \<open>The last address of the device; the contents of the buffer for a device without one.\<close>

lemma devtoip_address:
  assumes "\<forall>a\<in>set ifs. ifa_name a = dev \<and> ifa_family a = Some AF_INET \<longrightarrow> ifa_host a \<noteq> None"
  shows "devtoip (Some ifs) host dev =
    last (host # map (the \<circ> ifa_host) (filter (\<lambda>a. ifa_name a = dev \<and> ifa_family a = Some AF_INET) ifs))"
proof -
  have "devtoip_loop dev ifs host =
      last (host # map (the \<circ> ifa_host) (filter (\<lambda>a. ifa_name a = dev \<and> ifa_family a = Some AF_INET) ifs))"
    using assms
  proof (induction ifs arbitrary: host)
    case (Cons a ifs)
    from Cons.prems have rest: "\<forall>b\<in>set ifs. ifa_name b = dev \<and> ifa_family b = Some AF_INET \<longrightarrow> ifa_host b \<noteq> None"
      by simp
    show ?case
    proof (cases "ifa_name a = dev \<and> ifa_family a = Some AF_INET")
      case True
      with Cons.prems obtain h where "ifa_host a = Some h" by auto
      with True Cons.IH [OF rest, of h] show ?thesis by simp
    next
      case False
      have "devtoip_loop dev (a # ifs) host = devtoip_loop dev ifs host"
        "filter (\<lambda>a. ifa_name a = dev \<and> ifa_family a = Some AF_INET) (a # ifs) =
         filter (\<lambda>a. ifa_name a = dev \<and> ifa_family a = Some AF_INET) ifs" using False by auto
      with Cons.IH [OF rest, of host] show ?thesis by simp
    qed
  qed simp
  then show ?thesis by (simp add: devtoip_def)
qed

lemma devtoip_unknown: "\<forall>a\<in>set ifs. ifa_name a \<noteq> dev \<Longrightarrow> devtoip (Some ifs) host dev = host"
  by (subst devtoip_address) (auto simp: filter_empty_conv)

subsection \<open>Configuration of the program\<close>

datatype main_error = M_exit string | M_url url_error | M_writer writer_error | M_null nm_error | M_report | M_units

record settings =
  st_profile :: string
  st_basedir :: string
  st_evformat :: int
  st_neturl :: string
  st_nthreads :: u32
  st_subdir :: string
  st_runtag :: string
  st_runid :: u32
  st_esize :: u32
  st_dsize :: u32

definition get_default :: "'a \<Rightarrow> 'a option \<Rightarrow> 'a" where
  "get_default d x = (case x of Some v \<Rightarrow> v | None \<Rightarrow> d)"

definition or_exit :: "string \<Rightarrow> 'a option \<Rightarrow> main_error + 'a" where
  "or_exit msg x = (case x of Some v \<Rightarrow> Inr v | None \<Rightarrow> Inl (M_exit msg))"

definition is_compute :: "string \<Rightarrow> bool" where "is_compute p = (p = ''compute'' \<or> p = ''all'')"
definition is_storage :: "string \<Rightarrow> bool" where "is_storage p = (p = ''storage'' \<or> p = ''all'')"

text \<open>The profile; without a configuration file everything runs on one machine.\<close>

definition main_profile :: "bool \<Rightarrow> string option \<Rightarrow> main_error + string" where
  "main_profile hascfg arg =
     (if hascfg then
        (case arg of
           None \<Rightarrow> Inl (M_exit ''if configuration file is specified profile is mandatory'')
         | Some p \<Rightarrow> if p = ''compute'' \<or> p = ''storage'' \<or> p = ''all'' then Inr p
                     else Inl (M_exit ''profile unknown''))
      else Inr ''all'')"

definition main_evformat :: "config \<Rightarrow> main_error + int" where
  "main_evformat cfg =
     (case cf_str cfg ''fzdaq.global.evformat'' of
        None \<Rightarrow> Inl (M_exit ''FzDAQ: event format not specified in configuration file'')
      | Some s \<Rightarrow> if s = ''basic'' then Inr 0 else if s = ''tag'' then Inr 1
                  else Inl (M_exit ''FzDAQ: unable to parse event format''))"

definition main_compute :: "config \<Rightarrow> (string \<Rightarrow> string) \<Rightarrow> settings \<Rightarrow> main_error + settings" where
  "main_compute cfg dev_ip s =
     (let url = get_default ''udp://eth0:50000'' (cf_str cfg ''fzdaq.fzreader.consumer.url'')
      in case urlparse url of
           Inl e \<Rightarrow> Inl (M_url e)
         | Inr None \<Rightarrow> Inl (M_exit ''FzReader: unable to parse UDP url'')
         | Inr (Some (netdev, port)) \<Rightarrow>
             if dev_ip netdev = [] then Inl (M_exit ''FzReader: unable to get ip address'')
             else Inr (s\<lparr>st_neturl := ''udp://'' @ dev_ip netdev @ '':'' @ dec (unat port),
                         st_nthreads := get_default 1 (cf_uint cfg ''fzdaq.fzparser.nthreads'')\<rparr>))"

definition main_storage :: "config \<Rightarrow> settings \<Rightarrow> main_error + settings" where
  "main_storage cfg s =
     bindE (or_exit ''FzWriter subdir not set'' (cf_str cfg ''fzdaq.fzwriter.subdir'')) (\<lambda>subdir.
     let runtag = get_default ''run'' (cf_str cfg ''fzdaq.fzwriter.runtag'') in
     bindE (or_exit ''FzWriter runid not set'' (cf_uint cfg ''fzdaq.fzwriter.runid'')) (\<lambda>runid.
     Inr (s\<lparr>st_subdir := subdir, st_runtag := runtag, st_runid := runid,
            st_esize := get_default 10 (cf_uint cfg ''fzdaq.fzwriter.esize''),
            st_dsize := get_default 100 (cf_uint cfg ''fzdaq.fzwriter.dsize'')\<rparr>)))"

definition main_configure ::
  "bool \<Rightarrow> string option \<Rightarrow> config \<Rightarrow> (string \<Rightarrow> string) \<Rightarrow> settings \<Rightarrow> main_error + settings" where
  "main_configure hascfg arg cfg dev_ip s0 =
     bindE (main_profile hascfg arg) (\<lambda>prof.
     let s1 = s0\<lparr>st_profile := prof,
                 st_basedir := get_default ''/var/log/fazia'' (cf_str cfg ''fzdaq.global.log.basedir'')\<rparr> in
     bindE (main_evformat cfg) (\<lambda>evf.
     bindE (if is_compute prof then main_compute cfg dev_ip (s1\<lparr>st_evformat := evf\<rparr>)
            else Inr (s1\<lparr>st_evformat := evf\<rparr>)) (\<lambda>s2.
     if is_storage prof then main_storage cfg s2 else Inr s2)))"

subsection \<open>Construction of the threads\<close>

text \<open>The limits of the writer are products of 32-bit numbers.\<close>

definition main_limits :: "settings \<Rightarrow> writer \<Rightarrow> main_error + writer" where
  "main_limits s w =
     (if st_dsize s > st_esize s
      then Inr (set_eventdirsize (ucast (st_dsize s * 1000000)) (set_eventfilesize (ucast (st_esize s * 1000000)) w))
      else Inl (M_exit ''FzWriter: dsize must be greater than esize''))"

text \<open>What the constructors find in uninitialised memory.\<close>

record memory =
  m_rec :: bool
  m_fsm :: fsm
  m_state :: RCstate
  m_fileid :: u32
  m_esize :: u64
  m_dsize :: u64

definition main_build ::
  "settings \<Rightarrow> config \<Rightarrow> string \<Rightarrow> memory \<Rightarrow> world \<Rightarrow> (string \<times> bool) list option \<Rightarrow> (string \<Rightarrow> bytes option) \<Rightarrow>
     main_error + nodemgr" where
  "main_build s cfg host mem env base files =
     (let prof = st_profile s;
          rd = (if is_compute prof then Some (new_reader (m_rec mem)) else None);
          psr = (if is_compute prof then replicate (unat (st_nthreads s)) (new_parser (st_evformat s) (m_fsm mem)) else [])
      in bindE (if is_storage prof
                then (case new_writer (st_subdir s) (st_runtag s) (st_runid s) env base files
                             (m_fileid mem) (m_esize mem) (m_dsize mem) of
                        Inl e \<Rightarrow> Inl (M_writer e)
                      | Inr w \<Rightarrow> bindE (main_limits s w) (\<lambda>w'. Inr (Some w')))
                else Inr None)
         (\<lambda>wr. Inr (new_nodemgr host prof (cf_str cfg ''fzdaq.fznodemanager.runcontrol_mode'')
                      (m_state mem) rd psr wr)))"

subsection \<open>The command line\<close>

datatype out = Out_info string | Out_err string | Out_text string

record console =
  cs_nm :: nodemgr
  cs_rec :: bool
  cs_last :: string

definition tab :: string where "tab = [CHR 0x09]"

definition con_rc ::
  "world \<Rightarrow> RCcommand list \<Rightarrow> string \<Rightarrow> string \<Rightarrow> console \<Rightarrow> main_error + (out list \<times> console)" where
  "con_rc env cmds msg_ok msg_err m =
     (case fold (\<lambda>c r. bindE r (\<lambda>(e, n). nm_rc_process env c n)) cmds (Inr (RCERROR, cs_nm m)) of
        Inl e \<Rightarrow> Inl (M_null e)
      | Inr (rcerr, n) \<Rightarrow> Inr ([if rcerr = RCOK then Out_info msg_ok else Out_err msg_err], m\<lparr>cs_nm := n\<rparr>))"

definition con_reset :: "world \<Rightarrow> console \<Rightarrow> main_error + (out list \<times> console)" where
  "con_reset env m =
     (case nm_rc_process env Reset (cs_nm m) of
        Inl e \<Rightarrow> Inl (M_null e)
      | Inr (rcerr, n) \<Rightarrow> Inr ([Out_info ''Fazia DAQ reset''], m\<lparr>cs_nm := n\<rparr>))"

definition con_store :: "bool \<Rightarrow> console \<Rightarrow> main_error + (out list \<times> console)" where
  "con_store b m =
     (case nm_wr (cs_nm m) of
        None \<Rightarrow> Inl (M_null NullWriter)
      | Some w \<Rightarrow> Inr ([Out_text ''Fzwriter set to write events on disk''],
                       m\<lparr>cs_nm := (cs_nm m)\<lparr>nm_wr := Some (set_store b w)\<rparr>\<rparr>))"

text \<open>\<open>rec\<close> uses the reader whatever the profile.\<close>

definition con_rec :: "console \<Rightarrow> main_error + (out list \<times> console)" where
  "con_rec m =
     (case nm_rd (cs_nm m) of
        None \<Rightarrow> Inl (M_null NullReader)
      | Some r \<Rightarrow> Inr ([Out_text (if cs_rec m then ''record disabled'' else ''record enabled'')],
                       m\<lparr>cs_nm := (cs_nm m)\<lparr>nm_rd := Some (rd_record (\<not> cs_rec m) r)\<rparr>, cs_rec := \<not> cs_rec m\<rparr>))"

definition con_status :: "console \<Rightarrow> out list" where
  "con_status m = [Out_text (''current DAQ status: '' @ state_label (nm_rc_state (cs_nm m))),
                   Out_text (''Run Control mode = '' @ nm_rc_mode (cs_nm m))]"

text \<open>\<open>stats\<close>: a block of lines for each parser thread, whose entries the report must have.\<close>

definition con_thread :: "Node \<Rightarrow> nat \<Rightarrow> main_error + table_line list" where
  "con_thread rep i =
     (case (nth_opt (n_parser rep) i, nth_opt (n_fsm rep) i) of
        (Some p, Some f) \<Rightarrow>
          Inr [T_row (parser_row (''FzParser #'' @ dec i) p), T_row (fsm_row f), T_text ''---'']
      | _ \<Rightarrow> Inl M_report)"

fun con_threads :: "Node \<Rightarrow> nat list \<Rightarrow> main_error + table_line list" where
  "con_threads rep [] = Inr []"
| "con_threads rep (i # is) = bindE (con_thread rep i) (\<lambda>t. bindE (con_threads rep is) (\<lambda>ts. Inr (t @ ts)))"

definition con_compute :: "nodemgr \<Rightarrow> main_error + table_line list" where
  "con_compute n =
     (if computes n
      then bindE (con_threads (get_nodereport n) [0 ..< length (nm_psr n)]) (\<lambda>ts.
             Inr (map T_text table_head @
                  [T_row (reader_row (get_or new_ReaderReport (n_reader (get_nodereport n)))), T_text ''---''] @ ts))
      else Inr [])"

definition con_storage :: "nodemgr \<Rightarrow> main_error + table_line list" where
  "con_storage n =
     (if stores n
      then (case nm_wr n of
              None \<Rightarrow> Inl (M_null NullWriter)
            | Some w \<Rightarrow> Inr [T_row (writer_row (get_or new_WriterReport (n_writer (get_nodereport n)))),
                T_text (''event write: '' @ (if get_store w then ''ON'' else ''OFF'')), T_text ''---''])
      else Inr [])"

definition con_stats :: "console \<Rightarrow> main_error + out list" where
  "con_stats m =
     (if \<not> has_data (cs_nm m)
      then Inr [Out_text ''FzNodeManager is collecting statistics... try later'']
      else bindE (con_compute (cs_nm m)) (\<lambda>a. bindE (con_storage (cs_nm m)) (\<lambda>b.
             case table_text (T_text [] # a @ b) of
               None \<Rightarrow> Inl M_units
             | Some ls \<Rightarrow> Inr (map Out_text ls))))"

definition con_help :: "console \<Rightarrow> out list" where
  "con_help m = map Out_text (
     [[], ''help:   '' @ tab @ ''print usage'', ''status: '' @ tab @ ''print acquisition status''] @
     (if nm_rc_mode (cs_nm m) = RC_MODE_LOCAL then
        [''configure:  '' @ tab @ ''configure acquisition'',
         ''start:  '' @ tab @ ''configure and start acquisition'',
         ''stop:   '' @ tab @ ''stop acquisition'', ''reset:   '' @ tab @ ''reset acquisition'',
         ''store:   '' @ tab @ '' enable write events on disk'',
         ''nostore:   '' @ tab @ '' disable write events on disk'']
      else []) @
     [''stats:  '' @ tab @ ''print event data acquisition statistics'',
      ''r:      '' @ tab @ ''repeat last command'', ''rec:    '' @ tab @ ''record raw data to files'',
      ''quit:   '' @ tab @ ''quit from FzDAQ'', []])"

text \<open>A command that is known: what it prints and the state after it, \<open>None\<close> if it is not.\<close>

definition con_command :: "world \<Rightarrow> string \<Rightarrow> console \<Rightarrow> (main_error + (out list \<times> console)) option" where
  "con_command env line m =
     (let local = (nm_rc_mode (cs_nm m) = RC_MODE_LOCAL) in
      if line = ''help'' then Some (Inr (con_help m, m))
      else if line = ''status'' then Some (Inr (con_status m, m))
      else if local \<and> line = ''configure'' then
        Some (con_rc env [Configure] ''Fazia DAQ configured'' ''configure RC command failed'' m)
      else if local \<and> line = ''start'' then
        Some (con_rc env [Configure, Start] ''Fazia DAQ configured and started''
                ''configure/start RC command failed'' m)
      else if local \<and> line = ''stop'' then
        Some (con_rc env [Stop] ''Fazia DAQ stopped'' ''stop RC command failed'' m)
      else if local \<and> line = ''reset'' then Some (con_reset env m)
      else if local \<and> line = ''store'' \<and> stores (cs_nm m) then Some (con_store True m)
      else if local \<and> line = ''nostore'' \<and> stores (cs_nm m) then Some (con_store False m)
      else if line = ''stats'' then Some (bindE (con_stats m) (\<lambda>os. Inr (os, m)))
      else if line = ''rec'' then Some (con_rec m)
      else if line = ''quit'' then Some (Inr ([], m))
      else None)"

text \<open>One line: the outputs, whether the loop ends, and the state. \<open>r\<close> stands for the last
  command that was known; with none it does nothing.\<close>

definition con_line :: "world \<Rightarrow> string \<Rightarrow> console \<Rightarrow> main_error + (out list \<times> bool \<times> console)" where
  "con_line env line0 m =
     (if line0 = [] then Inr ([], False, m)
      else let line = (if line0 = ''r'' then cs_last m else line0)
           in case con_command env line m of
                None \<Rightarrow> if line0 = ''r'' then Inr ([], False, m\<lparr>cs_last := line\<rparr>)
                        else Inr ([Out_err ''command not found''], False, m)
              | Some res \<Rightarrow> bindE res (\<lambda>(os, m').
                  if line = ''quit'' then Inr (os, True, m') else Inr (os, False, m'\<lparr>cs_last := line\<rparr>)))"

fun con_loop :: "world \<Rightarrow> string list \<Rightarrow> console \<Rightarrow> main_error + (out list \<times> console)" where
  "con_loop env [] m = Inr ([], m)"
| "con_loop env (line # ls) m =
     bindE (con_line env line m) (\<lambda>(os, stop, m').
       if stop then Inr (os, m')
       else bindE (con_loop env ls m') (\<lambda>(os', m''). Inr (os @ os', m'')))"

text \<open>After the loop the run control is stopped.\<close>

definition con_end :: "world \<Rightarrow> console \<Rightarrow> main_error + nodemgr" where
  "con_end env m =
     (case nm_rc_process env Stop (cs_nm m) of Inl e \<Rightarrow> Inl (M_null e) | Inr (e, n) \<Rightarrow> Inr n)"

subsection \<open>The URL\<close>

lemma takeWhile_before: "c \<notin> set s \<Longrightarrow> takeWhile (\<lambda>x. x \<noteq> c) (s @ c # r) = s"
  by (induction s) auto

lemma digit_not_sign: "is_digit c \<Longrightarrow> c \<noteq> CHR ''-'' \<and> c \<noteq> CHR ''+'' \<and> \<not> is_blank c"
  by (auto simp: is_digit_def is_blank_def)

lemma scan_int_dec:
  assumes "n < 2 ^ 31"
  shows "scan_int (dec n) = Some (int n)"
proof -
  obtain c s where cs: "dec n = c # s" by (cases "dec n") auto
  then have c: "is_digit c" using is_digit_dec [of n] by simp
  have "length (dec n) \<le> 10" by (rule dec_length) (use assms in simp_all)
  then have t: "take 99 (dropWhile is_blank (dec n)) = dec n"
    using digit_not_sign [OF c] cs by simp
  have "takeWhile is_digit (dec n) = dec n"
    using is_digit_dec [of n] by (simp add: takeWhile_eq_all_conv list_all_iff)
  then show ?thesis
    using t digit_not_sign [OF c] cs num_of_dec [of n] by (simp add: scan_int_def Let_def)
qed

text \<open>C38. A reader URL is parsed back into the device and the port it was written with, for
  every device name of one to 15 characters without a colon and every port that is an int;
  a longer name overruns its buffer.\<close>

theorem urlparse_roundtrip:
  assumes "dev \<noteq> []" "CHR '':'' \<notin> set dev" "port < 2 ^ 31"
  shows "urlparse (''udp://'' @ dev @ '':'' @ dec port) =
    (if length dev \<le> 15 then Inr (Some (dev, of_nat port)) else Inl Name_overflow)"
proof -
  have w: "takeWhile (\<lambda>c. c \<noteq> CHR '':'') (dev @ '':'' @ dec port) = dev"
    using takeWhile_before [OF assms(2), of "dec port"] by simp
  show ?thesis
  proof (cases "length dev \<le> 15")
    case True
    then have n: "take 99 dev = dev" by simp
    have "of_int (int port) = (of_nat port :: u32)" by simp
    then show ?thesis using True assms(1,3) scan_int_dec [OF assms(3)] n w
      by (simp add: urlparse_def Let_def)
  next
    case False
    then have "15 < length (take 99 dev)" by simp
    with w show ?thesis using False assms(1) by (simp add: urlparse_def Let_def)
  qed
qed

theorem urlparse_roundtrip_witness:
  "urlparse (''udp://'' @ ''eth0'' @ '':'' @ dec 50000) = Inr (Some (''eth0'', 50000))"
  using urlparse_roundtrip [of "''eth0''" 50000] by simp

subsection \<open>What the program builds\<close>

lemma writer_rcstate_dirid: "ww_rcstate (w\<lparr>ww_dirid := i\<rparr>) = ww_rcstate w"
  by simp

lemma setup_newdir_rcstate: "setup_newdir b env w = Inr (st, w') \<Longrightarrow> ww_rcstate w' = ww_rcstate w"
proof -
  assume h: "setup_newdir b env w = Inr (st, w')"
  have "\<exists>i. alloc_dir env (w\<lparr>ww_dirid := i\<rparr>) = (st, w')"
  proof (cases b)
    case True
    with h show ?thesis by (auto simp: setup_newdir_def bindE_Inr_iff split: if_splits)
  next
    case False
    with h have "alloc_dir env (w\<lparr>ww_dirid := ww_dirid w\<rparr>) = (st, w')" by (simp add: setup_newdir_def)
    then show ?thesis ..
  qed
  then obtain i where "alloc_dir env (w\<lparr>ww_dirid := i\<rparr>) = (st, w')" ..
  then show ?thesis using alloc_dir_frame(4) [of env "w\<lparr>ww_dirid := i\<rparr>"] by (metis snd_conv writer_rcstate_dirid)
qed

lemma new_writer_idle: "new_writer a b c env base files d e f = Inr w \<Longrightarrow> ww_rcstate w = IDLE"
  by (auto simp: new_writer_def bindE_Inr_iff dest: setup_newdir_rcstate)

lemma u32_scale: "x < 4295 \<Longrightarrow> unat (ucast (x * 1000000 :: u32) :: u64) = unat x * 1000000" for x :: u32
proof -
  assume "x < 4295"
  then have "unat x < 4295" by (simp add: word_less_nat_alt)
  then show ?thesis by (simp add: unsigned_ucast_eq unat_word_ariths take_bit_nat_eq_self)
qed

lemma main_limits_result:
  "main_limits s w = Inr w' \<Longrightarrow> st_esize s < st_dsize s \<and> ww_rcstate w' = ww_rcstate w \<and>
    (st_esize s < 4295 \<longrightarrow> unat (ww_event_file_size w') = unat (st_esize s) * 1000000) \<and>
    (st_dsize s < 4295 \<longrightarrow> unat (ww_event_dir_size w') = unat (st_dsize s) * 1000000)"
  by (auto simp: main_limits_def set_eventdirsize_def set_eventfilesize_def u32_scale split: if_splits)

lemma main_build_result:
  assumes "main_build s cfg host mem env base files = Inr n"
  shows "\<exists>wr. n = new_nodemgr host (st_profile s) (cf_str cfg ''fzdaq.fznodemanager.runcontrol_mode'') (m_state mem)
      (if is_compute (st_profile s) then Some (new_reader (m_rec mem)) else None)
      (if is_compute (st_profile s) then replicate (unat (st_nthreads s)) (new_parser (st_evformat s) (m_fsm mem)) else [])
      wr \<and>
    (if is_storage (st_profile s)
     then \<exists>w w'. wr = Some w' \<and> main_limits s w = Inr w' \<and> ww_rcstate w = IDLE
     else wr = None)"
proof (cases "is_storage (st_profile s)")
  case True
  with assms obtain w w' where "new_writer (st_subdir s) (st_runtag s) (st_runid s) env base files
      (m_fileid mem) (m_esize mem) (m_dsize mem) = Inr w" "main_limits s w = Inr w'"
    "n = new_nodemgr host (st_profile s) (cf_str cfg ''fzdaq.fznodemanager.runcontrol_mode'') (m_state mem)
      (if is_compute (st_profile s) then Some (new_reader (m_rec mem)) else None)
      (if is_compute (st_profile s) then replicate (unat (st_nthreads s)) (new_parser (st_evformat s) (m_fsm mem)) else [])
      (Some w')"
    by (auto simp: main_build_def Let_def bindE_Inr_iff split: sum.splits)
  with True new_writer_idle show ?thesis by fastforce
next
  case False
  with assms show ?thesis by (auto simp: main_build_def Let_def)
qed

text \<open>C29. The program builds a node on which run control is safe: when the construction
  completes, the node has the components of its profile, all of them idle, so that
  everything proved of the nodes reachable from such a node holds for it; and the limits of
  its writer are the configured megabytes, as long as these are below 4295.\<close>

theorem main_builds_node:
  assumes "main_build s cfg host mem env base files = Inr n"
  shows "fresh_node n \<and> nm_profile n = st_profile s \<and>
    (is_compute (st_profile s) \<longrightarrow> length (nm_psr n) = unat (st_nthreads s)) \<and>
    (\<forall>w. nm_wr n = Some w \<longrightarrow>
       (st_esize s < 4295 \<longrightarrow> unat (ww_event_file_size w) = unat (st_esize s) * 1000000) \<and>
       (st_dsize s < 4295 \<longrightarrow> unat (ww_event_dir_size w) = unat (st_dsize s) * 1000000))"
proof -
  let ?rd = "if is_compute (st_profile s) then Some (new_reader (m_rec mem)) else None"
  let ?ps = "if is_compute (st_profile s) then replicate (unat (st_nthreads s)) (new_parser (st_evformat s) (m_fsm mem)) else []"
  obtain wr where n: "n = new_nodemgr host (st_profile s) (cf_str cfg ''fzdaq.fznodemanager.runcontrol_mode'') (m_state mem) ?rd ?ps wr"
    and w: "if is_storage (st_profile s)
     then \<exists>w w'. wr = Some w' \<and> main_limits s w = Inr w' \<and> ww_rcstate w = IDLE else wr = None"
    using main_build_result [OF assms] by blast
  have "wired n" using w
    by (auto simp: n wired_def new_nodemgr_def computes_def stores_def is_compute_def is_storage_def)
  moreover have "\<forall>r. ?rd = Some r \<longrightarrow> rd_rcstate r = IDLE" by (simp add: new_reader_def)
  moreover have "\<forall>p\<in>set ?ps. ps_rcstate p = IDLE" by (auto simp: new_parser_def)
  moreover have "\<forall>x. wr = Some x \<longrightarrow> ww_rcstate x = IDLE"
    using w main_limits_result by (auto split: if_splits)
  ultimately have "fresh_node n" unfolding fresh_node_def using n by blast
  moreover have "nm_wr n = wr" "nm_profile n = st_profile s" "nm_psr n = ?ps"
    by (simp_all add: n new_nodemgr_def)
  ultimately show ?thesis using w main_limits_result by (auto split: if_splits)
qed

theorem main_builds_node_witness:
  "\<exists>n. main_build \<lparr>st_profile = ''compute'', st_basedir = [], st_evformat = 1, st_neturl = [], st_nthreads = 2,
       st_subdir = [], st_runtag = [], st_runid = 0, st_esize = 10, st_dsize = 100\<rparr>
     \<lparr>cf_str = \<lambda>_. None, cf_uint = \<lambda>_. None\<rparr> ''n1'' \<lparr>m_rec = False, m_fsm = fsm_zero, m_state = IDLE,
       m_fileid = 0, m_esize = 0, m_dsize = 0\<rparr> \<lparr>w_time = 0, w_mkdir = True\<rparr> None (\<lambda>_. None) = Inr n \<and>
     fresh_node n \<and> length (nm_psr n) = 2"
  (is "\<exists>n. main_build ?s ?c ?h ?m ?e ?b ?f = Inr n \<and> _")
proof -
  have "\<exists>n. main_build ?s ?c ?h ?m ?e ?b ?f = Inr n"
    by (simp add: main_build_def is_compute_def is_storage_def)
  then obtain n where n: "main_build ?s ?c ?h ?m ?e ?b ?f = Inr n" ..
  from main_builds_node [OF n] have "fresh_node n" "length (nm_psr n) = 2" by (simp_all add: is_compute_def)
  with n show ?thesis by blast
qed

subsection \<open>What the commands do\<close>

text \<open>The node under the commands: what it consists of and the report are the same.\<close>

definition same_report :: "nodemgr \<Rightarrow> nodemgr \<Rightarrow> bool" where
  "same_report n n' \<longleftrightarrow> same_node n n' \<and> report_part n' = report_part n"

lemma same_report_refl [simp]: "same_report n n"
  by (simp add: same_report_def same_node_refl)

lemma same_report_trans: "same_report a b \<Longrightarrow> same_report b c \<Longrightarrow> same_report a c"
  unfolding same_report_def using same_node_trans by auto

lemma command_in_step:
  assumes "in_step n"
  shows "\<exists>e n'. nm_rc_process env c n = Inr (e, n') \<and> in_step n' \<and> same_report n n'"
  using nm_rc_process_in_step [OF assms, of env c] nm_rc_process_report [of env c n]
  unfolding same_report_def by blast

text \<open>A command that completes, with the node still in step.\<close>

definition completes :: "console \<Rightarrow> main_error + (out list \<times> console) \<Rightarrow> bool" where
  "completes m res \<longleftrightarrow> (\<exists>os m'. res = Inr (os, m') \<and> in_step (cs_nm m') \<and> same_report (cs_nm m) (cs_nm m'))"

lemma con_rc_in_step:
  assumes "in_step (cs_nm m)"
  shows "completes m (con_rc env cmds msg_ok msg_err m)"
proof -
  have "\<exists>e n'. fold (\<lambda>c r. bindE r (\<lambda>(e, n). nm_rc_process env c n)) cmds (Inr (e0, n)) = Inr (e, n') \<and>
      in_step n' \<and> same_report n n'" if "in_step n" for e0 n
    using that
  proof (induction cmds arbitrary: e0 n)
    case (Cons c cs)
    from command_in_step [OF Cons.prems, of env c] obtain e n1 where
      n1: "nm_rc_process env c n = Inr (e, n1)" "in_step n1" "same_report n n1" by blast
    from Cons.IH [OF n1(2), of e] n1 same_report_trans [OF n1(3)] show ?case by auto
  qed simp
  from this [OF assms, of RCERROR] show ?thesis by (auto simp: con_rc_def completes_def)
qed

lemma con_reset_in_step:
  assumes "in_step (cs_nm m)"
  shows "completes m (con_reset env m)"
  using command_in_step [OF assms, of env Reset] by (auto simp: con_reset_def completes_def)

lemma con_store_in_step:
  assumes "in_step (cs_nm m)" "stores (cs_nm m)"
  shows "completes m (con_store b m)"
proof -
  obtain w where w: "nm_wr (cs_nm m) = Some w" using assms by (auto simp: in_step_def wired_def)
  from set_store_in_step [OF assms, of b new_Response] w show ?thesis
    by (auto simp: con_store_def nm_set_store_def same_report_def completes_def)
qed

lemma con_rec_in_step:
  assumes "in_step (cs_nm m)" "nm_rd (cs_nm m) = Some r"
  shows "completes m (con_rec m)"
proof -
  let ?n = "(cs_nm m)\<lparr>nm_rd := Some (rd_record (\<not> cs_rec m) r)\<rparr>"
  have s: "same_node (cs_nm m) ?n" using assms(2) by (simp add: same_node_def)
  have "all_in (nm_rc_state (cs_nm m)) ?n"
    using assms by (simp add: in_step_def all_in_def computes_def stores_def rd_record_def)
  from in_step_component [OF assms(1) this s] s assms(2) show ?thesis by (simp add: con_rec_def same_report_def completes_def)
qed

text \<open>The report has an entry for each thread, and every number has a unit.\<close>

lemma con_threads_ok:
  "\<forall>i\<in>set is. i < length (n_parser rep) \<and> i < length (n_fsm rep) \<Longrightarrow> \<exists>ts. con_threads rep is = Inr ts"
  by (induction "is") (auto simp: con_thread_def nth_opt_def)

lemma con_stats_ok:
  assumes "in_step (cs_nm m)" "report_full (cs_nm m)"
  shows "\<exists>os. con_stats m = Inr os"
proof (cases "has_data (cs_nm m)")
  case True
  let ?n = "cs_nm m"
  have "computes ?n \<Longrightarrow> \<exists>ts. con_threads (get_nodereport ?n) [0 ..< length (nm_psr ?n)] = Inr ts"
    using assms(2) True by (intro con_threads_ok) (simp add: report_full_def get_nodereport_def)
  then have a: "\<exists>a. con_compute ?n = Inr a" by (auto simp: con_compute_def)
  have b: "\<exists>b. con_storage ?n = Inr b" using assms(1) by (auto simp: con_storage_def in_step_def wired_def)
  from a b obtain a b where ab: "con_compute ?n = Inr a" "con_storage ?n = Inr b" by blast
  obtain ls where "table_text (T_text [] # a @ b) = Some ls" using table_text_some by blast
  with ab True show ?thesis by (simp add: con_stats_def)
qed (simp add: con_stats_def)

lemma con_command_in_step:
  assumes "in_step (cs_nm m)" "report_full (cs_nm m)" "nm_rd (cs_nm m) \<noteq> None" "con_command env line m = Some res"
  shows "completes m res"
proof -
  obtain r where r: "nm_rd (cs_nm m) = Some r" using assms(3) by blast
  have stay: "completes m (Inr (os, m))" for os using assms(1) by (simp add: completes_def)
  obtain os where "con_stats m = Inr os" using con_stats_ok [OF assms(1,2)] ..
  then have stats: "completes m (bindE (con_stats m) (\<lambda>os. Inr (os, m)))" using stay by simp
  show ?thesis
    using assms(4) con_rc_in_step [OF assms(1)] con_reset_in_step [OF assms(1)] con_store_in_step [OF assms(1)]
      con_rec_in_step [OF assms(1) r] stats stay
    unfolding con_command_def Let_def by (simp split: if_splits) blast+
qed

lemma con_line_in_step:
  assumes "in_step (cs_nm m)" "report_full (cs_nm m)" "nm_rd (cs_nm m) \<noteq> None"
  shows "\<exists>os b m'. con_line env line m = Inr (os, b, m') \<and> in_step (cs_nm m') \<and>
    report_full (cs_nm m') \<and> nm_rd (cs_nm m') \<noteq> None"
proof -
  let ?l = "if line = ''r'' then cs_last m else line"
  have keep: "report_full (cs_nm m') \<and> nm_rd (cs_nm m') \<noteq> None" if "same_report (cs_nm m) (cs_nm m')" for m'
  proof -
    have "report_part (cs_nm m') = report_part (cs_nm m)" "same_node (cs_nm m) (cs_nm m')"
      using that by (simp_all add: same_report_def)
    then show ?thesis using assms(2,3) report_part_full [of "cs_nm m'" "cs_nm m"] by (simp add: same_node_def)
  qed
  show ?thesis
  proof (cases "con_command env ?l m")
    case None
    then show ?thesis using assms by (auto simp: con_line_def Let_def)
  next
    case (Some res)
    with con_command_in_step [OF assms] obtain os m' where
      "res = Inr (os, m')" "in_step (cs_nm m')" "same_report (cs_nm m) (cs_nm m')"
      unfolding completes_def by blast
    note res = this keep [OF this(3)]
    show ?thesis
    proof (cases "line = []")
      case True
      with assms show ?thesis by (auto simp: con_line_def)
    next
      case False
      with Some res(1) have "con_line env line m =
          (if ?l = ''quit'' then Inr (os, True, m') else Inr (os, False, m'\<lparr>cs_last := ?l\<rparr>))"
        by (simp add: con_line_def Let_def del: split_paired_Ex)
      with res(2,4) show ?thesis by (cases "?l = ''quit''") auto
    qed
  qed
qed

lemma con_loop_in_step:
  "in_step (cs_nm m) \<Longrightarrow> report_full (cs_nm m) \<Longrightarrow> nm_rd (cs_nm m) \<noteq> None \<Longrightarrow>
    \<exists>os m'. con_loop env ls m = Inr (os, m') \<and> in_step (cs_nm m')"
proof (induction ls arbitrary: m)
  case (Cons l ls)
  from con_line_in_step [OF Cons.prems, of env l] obtain os b m1 where
    m1: "con_line env l m = Inr (os, b, m1)" "in_step (cs_nm m1)" "report_full (cs_nm m1)"
      "nm_rd (cs_nm m1) \<noteq> None" by blast
  with Cons.IH [OF m1(2,3,4)] show ?case by (cases b) auto
qed simp

text \<open>C35. The command line of a node: on a node with a reader no sequence of lines makes the
  program use a missing component or a missing entry of a report, and status and threads
  stay in step; on a node that only
  stores events the command \<open>rec\<close> uses the reader it does not have.\<close>

theorem console_outcome:
  assumes "node_step\<^sup>*\<^sup>* n0 (cs_nm m)" "fresh_node n0"
  shows "if nm_rd (cs_nm m) \<noteq> None
    then \<exists>os m'. con_loop env ls m = Inr (os, m') \<and> all_in (nm_rc_state (cs_nm m')) (cs_nm m')
    else con_line env ''rec'' m = Inl (M_null NullReader)"
proof (cases "nm_rd (cs_nm m) = None")
  case True
  then show ?thesis by (simp add: con_line_def con_command_def con_rec_def Let_def)
next
  case False
  from con_loop_in_step [OF reachable_in_step [OF assms] reachable_report_full [OF assms] False, of env ls] False show ?thesis
    by (auto simp: in_step_def)
qed

text \<open>C33. The local start command: from any state of a node in local mode one line starts the
  acquisition, the node reports RUNNING and so do all its threads; it is reported as failed
  only when the acquisition was running already.\<close>

theorem local_start_runs:
  assumes "node_step\<^sup>*\<^sup>* n0 (cs_nm m)" "fresh_node n0" "nm_rcmode (cs_nm m) = RC_MODE_LOCAL"
  shows "\<exists>os m'. con_line env ''start'' m = Inr (os, False, m') \<and>
    nm_rc_state (cs_nm m') = RUNNING \<and> all_in RUNNING (cs_nm m') \<and>
    (os = [Out_info ''Fazia DAQ configured and started''] \<longleftrightarrow> nm_rc_state (cs_nm m) \<noteq> RUNNING)"
proof -
  let ?n = "cs_nm m"
  have i: "in_step ?n" by (rule reachable_in_step [OF assms(1,2)])
  from nm_rc_process_in_step [OF i, of env Configure] obtain e1 n1 where
    n1: "nm_rc_process env Configure ?n = Inr (e1, n1)" "in_step n1" "same_node ?n n1"
      "nm_rc n1 = snd (rc_process Configure (nm_rc ?n))" by blast
  from nm_rc_process_in_step [OF n1(2), of env Start] obtain e2 n2 where
    n2: "nm_rc_process env Start n1 = Inr (e2, n2)" "in_step n2" "same_node n1 n2"
      "e2 = fst (rc_process Start (nm_rc n1))" "nm_rc n2 = snd (rc_process Start (nm_rc n1))" by blast
  have l: "nm_rc_state n2 = rc_state (nm_rc n2)" "nm_rc_state ?n = rc_state (nm_rc ?n)"
    using assms(3) n1(3) n2(3) by (simp_all add: nm_rc_state_def same_node_def)
  have s: "rc_state (nm_rc n2) = RUNNING" "e2 = RCOK \<longleftrightarrow> rc_state (nm_rc ?n) \<noteq> RUNNING"
    by (cases "rc_curstate (nm_rc ?n)"; simp add: n2(4,5) n1(4) rc_state_def)+
  have "con_line env ''start'' m = Inr ([if e2 = RCOK then Out_info ''Fazia DAQ configured and started''
      else Out_err ''configure/start RC command failed''], False, m\<lparr>cs_nm := n2, cs_last := ''start''\<rparr>)"
    using n1(1) n2(1) assms(3) by (simp add: con_line_def con_command_def con_rc_def nm_rc_mode_def Let_def)
  moreover have "all_in RUNNING n2" using n2(2) l(1) s(1) by (simp add: in_step_def)
  ultimately show ?thesis using l s by auto
qed

definition local_node :: nodemgr where
  "local_node = new_nodemgr ''n1'' ''compute'' None IDLE (Some (new_reader False)) [new_parser FMT_TAG fsm_zero] None"

definition store_node :: nodemgr where
  "store_node = new_nodemgr ''n2'' ''storage'' None IDLE None [] (Some (writer_zero\<lparr>ww_rcstate := IDLE\<rparr>))"

lemma fresh_local_node: "fresh_node local_node" "fresh_node store_node"
  unfolding fresh_node_def local_node_def store_node_def
  by (intro conjI exI, rule refl,
      auto simp: new_reader_def new_parser_def wired_def computes_def stores_def new_nodemgr_def)+

lemma local_node_mode: "nm_rcmode local_node = RC_MODE_LOCAL" "nm_rc_state local_node = IDLE"
  by (simp_all add: local_node_def new_nodemgr_def nm_mode_def nm_rc_state_def new_RCFSM_def rc_state_def)

definition con0 :: "nodemgr \<Rightarrow> console" where
  "con0 n = \<lparr>cs_nm = n, cs_rec = False, cs_last = []\<rparr>"

theorem console_outcome_witness:
  "con_line \<lparr>w_time = 0, w_mkdir = True\<rparr> ''rec'' (con0 store_node) = Inl (M_null NullReader)"
proof -
  have "node_step\<^sup>*\<^sup>* store_node (cs_nm (con0 store_node))" "nm_rd (cs_nm (con0 store_node)) = None"
    by (simp_all add: con0_def store_node_def new_nodemgr_def)
  with console_outcome [OF this(1) fresh_local_node(2), of "\<lparr>w_time = 0, w_mkdir = True\<rparr>"] show ?thesis by simp
qed

theorem local_start_runs_witness:
  "\<exists>m'. con_line \<lparr>w_time = 0, w_mkdir = True\<rparr> ''start'' (con0 local_node) =
      Inr ([Out_info ''Fazia DAQ configured and started''], False, m') \<and> nm_rc_state (cs_nm m') = RUNNING"
proof -
  have "node_step\<^sup>*\<^sup>* local_node (cs_nm (con0 local_node))" "cs_nm (con0 local_node) = local_node"
    by (simp_all add: con0_def)
  with local_start_runs [OF this(1) fresh_local_node(1), of "\<lparr>w_time = 0, w_mkdir = True\<rparr>"] local_node_mode
  show ?thesis by auto
qed

end
