(* ===== verification/FzCli.thy ===== *)
theory FzCli
  imports FzController FzMain FzTable
begin

section \<open>The command line of the controller\<close>

text \<open>
  \<open>controller/cli.cpp\<close>: each command sends requests to the run control of the same program
  and prints the answer. \<open>send\<close> is the round trip of a request, on the state \<open>'c\<close> of what
  answers; \<open>None\<close> when it fails.
\<close>

subsection \<open>Tables\<close>

datatype cli_error = Unparsed | Fsm_missing | Units

definition host_lines :: "Node \<Rightarrow> table_line list" where
  "host_lines n = map T_text
     ([''== Host: '' @ n_hostname n @ '' - Profile: '' @ n_profile n @ '' - Status: '' @ n_status n, []] @ table_head)"

definition print_reader_status :: "ReaderReport \<Rightarrow> table_line list" where
  "print_reader_status r = [T_row (reader_row r), T_text ''---'']"

definition print_parser_status :: "ParserReport \<Rightarrow> table_line list" where
  "print_parser_status r = [T_row (parser_row ''FzParser'' r)]"

definition print_fsm_status :: "NodeFsm \<Rightarrow> table_line list" where
  "print_fsm_status r = [T_row (fsm_row r), T_text ''---'']"

definition print_writer_status :: "WriterReport \<Rightarrow> table_line list" where
  "print_writer_status r = [T_row (writer_row r), T_text ''---'']"

definition total :: "(NodeFsm \<Rightarrow> u64) \<Rightarrow> NodeFsm list \<Rightarrow> u64" where
  "total f rs = sum_list (map f rs)"

definition event_totals :: "NodeFsm list \<Rightarrow> string" where
  "event_totals fs = ''Event statistics '' @ tab @ ''empty: '' @ dec (unat (total nf_events_empty fs)) @
     tab @ ''good: '' @ dec (unat (total nf_events_good fs)) @
     tab @ tab @ ''bad: '' @ dec (unat (total nf_events_bad fs))"

definition compute_block :: "Node \<Rightarrow> cli_error + table_line list" where
  "compute_block n =
     (if n_profile n = ''compute'' \<or> n_profile n = ''all''
      then (let k = length (n_parser n); fs = take k (n_fsm n)
            in if length (n_fsm n) < k then Inl Fsm_missing
               else Inr (host_lines n @ print_reader_status (get_or new_ReaderReport (n_reader n)) @
                         concat (map2 (\<lambda>p f. print_parser_status p @ print_fsm_status f) (n_parser n) fs) @
                         [T_text (event_totals fs)]))
      else Inr [])"

definition storage_block :: "Node \<Rightarrow> table_line list" where
  "storage_block n =
     (if n_profile n = ''all'' then print_writer_status (get_or new_WriterReport (n_writer n))
      else if n_profile n = ''storage''
      then host_lines n @ print_writer_status (get_or new_WriterReport (n_writer n))
      else [])"

fun compute_blocks :: "Node list \<Rightarrow> cli_error + table_line list" where
  "compute_blocks [] = Inr []"
| "compute_blocks (n # ns) =
     bindE (compute_block n) (\<lambda>b. bindE (compute_blocks ns) (\<lambda>bs. Inr (b @ bs)))"

definition print_status_table :: "Node list \<Rightarrow> cli_error + string list" where
  "print_status_table ns = bindE (compute_blocks ns) (\<lambda>bs.
     case table_text ([T_text []] @ bs @ [T_text []] @ concat (map storage_block ns) @ [T_text []]) of
       None \<Rightarrow> Inl Units
     | Some ls \<Rightarrow> Inr ls)"

subsection \<open>Requests and answers\<close>

type_synonym 'c send = "Request \<Rightarrow> 'c \<Rightarrow> ctl_reply option \<times> 'c"
type_synonym 'c cli = "'c \<Rightarrow> cli_error + (out list \<times> 'c)"

definition info :: "string \<Rightarrow> out" where "info s = Out_info s"
definition failure :: "string \<Rightarrow> out" where "failure s = Out_err s"
definition plain :: "string \<Rightarrow> out" where "plain s = Out_text s"

text \<open>The run control answers these requests with a response; anything else is not parsed here.\<close>

definition to_rcsres :: "ctl_reply \<Rightarrow> cli_error + Response" where
  "to_rcsres m = (case m of Ct_response r \<Rightarrow> Inr r | Ct_forward (Rep_response r) \<Rightarrow> Inr r | _ \<Rightarrow> Inl Unparsed)"

definition to_nodeset :: "ctl_reply \<Rightarrow> cli_error + Node list" where
  "to_nodeset m = (case m of Ct_nodeset ns \<Rightarrow> Inr ns | _ \<Rightarrow> Inl Unparsed)"

definition prepare_rcwrite :: "string \<Rightarrow> string \<Rightarrow> Request" where
  "prepare_rcwrite host v = \<lparr>rq_channel = Some Ch_RC, rq_operation = Some WRITE, rq_module = Some CNT,
     rq_hostname = Some host, rq_variable = Some ''event'', rq_value = Some v\<rparr>"

definition cli_query :: "string \<Rightarrow> string \<Rightarrow> Request" where
  "cli_query host v = \<lparr>rq_channel = Some Ch_RC, rq_operation = Some READ, rq_module = Some CNT,
     rq_hostname = Some host, rq_variable = Some v, rq_value = None\<rparr>"

definition cli_setup :: "string \<Rightarrow> string \<Rightarrow> Request" where
  "cli_setup host v = \<lparr>rq_channel = Some Ch_SETUP, rq_operation = Some WRITE, rq_module = Some NM,
     rq_hostname = Some host, rq_variable = Some v, rq_value = None\<rparr>"

text \<open>A request whose answer is looked at: \<open>bad\<close> when it fails, else \<open>k\<close> on the response.\<close>

definition ask :: "'c send \<Rightarrow> Request \<Rightarrow> string \<Rightarrow> (Response \<Rightarrow> 'c cli) \<Rightarrow> 'c cli" where
  "ask send q lost k c =
     (case send q c of
        (None, c') \<Rightarrow> Inr ([failure lost], c')
      | (Some m, c') \<Rightarrow> bindE (to_rcsres m) (\<lambda>res. k res c'))"

definition tell :: "string \<Rightarrow> Response \<Rightarrow> 'c cli" where
  "tell done res c = Inr ([if rs_errorcode res = OK then info done else failure (rs_reason res)], c)"

definition cli_configure :: "'c send \<Rightarrow> string \<Rightarrow> 'c cli" where
  "cli_configure send host =
     ask send (prepare_rcwrite host ''configure'') ''send of configure RC command failed'' (tell ''Fazia DAQ configured'')"

definition cli_start :: "'c send \<Rightarrow> string \<Rightarrow> 'c cli" where
  "cli_start send host =
     ask send (prepare_rcwrite host ''configure'') ''send of configure RC command failed'' (\<lambda>res.
       if rs_errorcode res = OK
       then ask send (prepare_rcwrite host ''start'') ''send of start RC command failed''
              (tell ''Fazia DAQ configured and started'')
       else (\<lambda>c. Inr ([failure (rs_reason res)], c)))"

definition cli_stop :: "'c send \<Rightarrow> string \<Rightarrow> 'c cli" where
  "cli_stop send host =
     ask send (prepare_rcwrite host ''stop'') ''send of stop RC command failed'' (tell ''Fazia DAQ stopped'')"

definition cli_reset :: "'c send \<Rightarrow> string \<Rightarrow> 'c cli" where
  "cli_reset send host =
     ask send (prepare_rcwrite host ''reset'') ''send of reset RC command failed'' (tell ''Fazia DAQ reset'')"

definition rs_text :: "Response \<Rightarrow> string" where
  "rs_text res = get_or [] (rs_value res)"

definition node_text :: "string \<Rightarrow> RcsNode \<Rightarrow> out list" where
  "node_text daqstatus n = [
     plain (''hostname: '' @ tab @ rn_hostname n), plain (''profile: '' @ tab @ rn_profile n),
     plain (''status: '' @ tab @ rn_status n @
       (if rn_status n \<noteq> daqstatus then ''  <== Run Control sync problem !!! reset FzDAQ !!!'' else [])),
     plain ''----------'']"

text \<open>\<open>status\<close>: the state of the controller, then the nodes, marked where they differ from it
  (from the empty text when the first answer did not come).\<close>

definition cli_status :: "'c send \<Rightarrow> string \<Rightarrow> 'c cli" where
  "cli_status send host c =
     (case send (cli_query host ''status'') c of
        (m, c1) \<Rightarrow>
          bindE (case m of None \<Rightarrow> Inr ([], [failure ''send of reset RC command failed''])
                 | Some m \<Rightarrow> bindE (to_rcsres m) (\<lambda>res.
                     if rs_errorcode res = OK
                     then Inr (rs_text res, [info (''Fazia DAQ Controller status: '' @ rs_text res)])
                     else Inr ([], [failure (rs_reason res)])))
            (\<lambda>(daqstatus, os).
              bindE (ask send (cli_query host ''nodestatus'') ''send of status RC command failed'' (\<lambda>res c2.
                       if rs_errorcode res = OK then Inr (concat (map (node_text daqstatus) (rs_node res)), c2)
                       else Inr ([failure (rs_reason res)], c2)) c1)
                (\<lambda>(os', c2). Inr (plain [] # os @ plain [] # os', c2))))"

definition cli_stats :: "'c send \<Rightarrow> string \<Rightarrow> 'c cli" where
  "cli_stats send host c =
     (case send (cli_query host ''perfdata'') c of
        (None, c') \<Rightarrow> Inr ([failure ''send of stats RC command failed''], c')
      | (Some m, c') \<Rightarrow> bindE (to_nodeset m) (\<lambda>ns. bindE (print_status_table ns) (\<lambda>t. Inr (map plain t, c'))))"

text \<open>The answer to \<open>store\<close> and \<open>nostore\<close> is not parsed: the error code looked at is that of
  the cleared message, which is the first of the enumeration.\<close>

definition cleared_errorcode :: ErrorCode where
  "cleared_errorcode = OK"

definition cli_store :: "'c send \<Rightarrow> string \<Rightarrow> 'c cli" where
  "cli_store send host c =
     (case send (cli_setup host ''store'') c of
        (None, c') \<Rightarrow> Inr ([failure ''send of SETUP command failed''], c')
      | (Some m, c') \<Rightarrow>
          Inr (if cleared_errorcode = OK then [plain ''Fzwriter set to write events on disk''] else [], c'))"

definition cli_nostore :: "'c send \<Rightarrow> string \<Rightarrow> 'c cli" where
  "cli_nostore send host c =
     (case send (cli_setup host ''nostore'') c of
        (None, c') \<Rightarrow> Inr ([failure ''send of SETUP command failed''], c')
      | (Some m, c') \<Rightarrow>
          Inr (if cleared_errorcode = OK then [plain ''Fzwriter set to NOT write events on disk''] else [], c'))"

definition cli_help :: "out list" where
  "cli_help = map plain [[],
     ''configure:'' @ tab @ ''configure acquisition'', ''start:'' @ tab @ tab @ ''configure and start acquisition'',
     ''stop:'' @ tab @ tab @ ''stop acquisition'', ''reset:'' @ tab @ tab @ ''reset acquisition'',
     ''stats:'' @ tab @ tab @ ''print acquisition statistics'', ''status:'' @ tab @ tab @ ''print acquisition status'',
     ''store:'' @ tab @ tab @ ''enable write events on disk'',
     ''nostore:'' @ tab @ tab @ ''disable write events on disk'', ''help:'' @ tab @ tab @ ''print usage'',
     ''quit:'' @ tab @ tab @ ''quit from FzController'', []]"

definition cli_command :: "'c send \<Rightarrow> string \<Rightarrow> string \<Rightarrow> 'c cli option" where
  "cli_command send host line =
     (if line = ''help'' then Some (\<lambda>c. Inr (cli_help, c))
      else if line = ''configure'' then Some (cli_configure send host)
      else if line = ''start'' then Some (cli_start send host)
      else if line = ''stop'' then Some (cli_stop send host)
      else if line = ''reset'' then Some (cli_reset send host)
      else if line = ''status'' then Some (cli_status send host)
      else if line = ''stats'' then Some (cli_stats send host)
      else if line = ''store'' then Some (cli_store send host)
      else if line = ''nostore'' then Some (cli_nostore send host)
      else if line = ''quit'' then Some (\<lambda>c. Inr ([], c))
      else None)"

text \<open>One line, on the last known command: outputs, the end of the loop, the new last
  command and the state.\<close>

definition cli_line ::
  "'c send \<Rightarrow> string \<Rightarrow> string \<Rightarrow> string \<Rightarrow> 'c \<Rightarrow> cli_error + (out list \<times> bool \<times> string \<times> 'c)" where
  "cli_line send host line0 lastcmd c =
     (if line0 = [] then Inr ([], False, lastcmd, c)
      else let line = (if line0 = ''r'' then lastcmd else line0)
           in case cli_command send host line of
                None \<Rightarrow> if line0 = ''r'' then Inr ([], False, line, c)
                        else Inr ([failure ''command not found''], False, lastcmd, c)
              | Some cmd \<Rightarrow> bindE (cmd c) (\<lambda>(os, c').
                  if line = ''quit'' then Inr (os, True, lastcmd, c') else Inr (os, False, line, c')))"

fun cli_loop :: "'c send \<Rightarrow> string \<Rightarrow> string list \<Rightarrow> string \<Rightarrow> 'c \<Rightarrow> cli_error + (out list \<times> bool \<times> 'c)" where
  "cli_loop send host [] lastcmd c = Inr ([], False, c)"
| "cli_loop send host (line # ls) lastcmd c =
     bindE (cli_line send host line lastcmd c) (\<lambda>(os, stop, lastcmd', c').
       if stop then Inr (os, True, c')
       else bindE (cli_loop send host ls lastcmd' c') (\<lambda>(os', q, c''). Inr (os @ os', q, c'')))"

subsection \<open>With the run control of the controller\<close>

definition direct :: "'w unicast \<Rightarrow> (controller \<times> 'w) send" where
  "direct unicast q s =
     (let (r, c', w') = ct_handle_request unicast (Some q) (fst s) (snd s) in (Some r, (c', w')))"

lemma prepare_fields [simp]: "is_event (prepare_rcwrite host v)" "req_value (prepare_rcwrite host v) = v"
  by (simp_all add: prepare_rcwrite_def is_event_def channel_def operation_def variable_def req_value_def)

lemma event_next_names [simp]:
  "event_next ''configure'' rc = rc_process Configure rc" "event_next ''start'' rc = rc_process Start rc"
  "event_next ''stop'' rc = rc_process Stop rc" "event_next ''reset'' rc = rc_process Reset rc"
  by (simp_all add: event_next_def event_command_def)

text \<open>An event sent from the command line and answered in the same program.\<close>

lemma direct_event:
  assumes "nt_map (ct_table c) \<noteq> []" "event_next v (ct_rc c) = rc_process cmd (ct_rc c)"
  shows "\<exists>r c'. direct u (prepare_rcwrite host v) (c, w) = (Some (Ct_response r), (c', w)) \<and>
    nt_map (ct_table c') = nt_map (ct_table c) \<and> ct_rc c' = snd (rc_process cmd (ct_rc c)) \<and>
    (if fst (rc_process cmd (ct_rc c)) = RCOK then rs_errorcode r = OK
     else rs_errorcode r = ERR \<and> rs_reason r = ''wrong requested RC transition'')"
proof -
  have n: "rs_errorcode new_Response = ERR" by (simp add: new_Response_def)
  have "RCERROR \<noteq> RCOK" by simp
  then show ?thesis
    using assms(2) n
    by (cases "fst (rc_process cmd (ct_rc c))")
       (simp_all add: direct_def handle_event ct_event_result [OF assms(1)] case_prod_unfold Let_def
         del: rc_process_result)
qed

lemma direct_no_node:
  assumes "nt_map (ct_table c) = []"
  shows "direct u (prepare_rcwrite host v) (c, w) =
    (Some (Ct_response (new_Response\<lparr>rs_reason := ''no DAQ node available''\<rparr>)), (c, w))"
  using assms by (simp add: direct_def handle_event ct_event_def)

lemma ask_answered: "send q c = (Some (Ct_response r), c') \<Longrightarrow> ask send q lost k c = k r c'"
  by (simp add: ask_def to_rcsres_def)

lemma start_line:
  "cli_line send host ''start'' prev s =
    bindE (cli_start send host s) (\<lambda>(os, s'). Inr (os, False, ''start'', s'))"
  by (simp add: cli_line_def cli_command_def)

lemma start_without_nodes:
  assumes "nt_map (ct_table c) = []"
  shows "cli_start (direct u) host (c, w) = Inr ([failure ''no DAQ node available''], (c, w))"
  unfolding cli_start_def ask_answered [of "direct u", OF direct_no_node [OF assms]]
  by (simp add: new_Response_def)

lemma start_with_nodes:
  assumes "nt_map (ct_table c) \<noteq> []"
  shows "\<exists>os c'. cli_start (direct u) host (c, w) = Inr (os, (c', w)) \<and>
    (if rc_state (ct_rc c) = IDLE \<or> rc_state (ct_rc c) = PAUSED
     then os = [info ''Fazia DAQ configured and started''] \<and> rc_state (ct_rc c') = RUNNING
     else os = [failure ''wrong requested RC transition''] \<and> rc_state (ct_rc c') = rc_state (ct_rc c))"
proof -
  obtain r1 c1 where 1: "direct u (prepare_rcwrite host ''configure'') (c, w) = (Some (Ct_response r1), (c1, w))"
    "nt_map (ct_table c1) = nt_map (ct_table c)" "ct_rc c1 = snd (rc_process Configure (ct_rc c))"
    "if fst (rc_process Configure (ct_rc c)) = RCOK then rs_errorcode r1 = OK
     else rs_errorcode r1 = ERR \<and> rs_reason r1 = ''wrong requested RC transition''"
    using direct_event [OF assms event_next_names(1), of u host w] by blast
  have "nt_map (ct_table c1) \<noteq> []" using 1(2) assms by simp
  from direct_event [OF this event_next_names(2), of u host w] obtain r2 c2 where
    2: "direct u (prepare_rcwrite host ''start'') (c1, w) = (Some (Ct_response r2), (c2, w))"
    "ct_rc c2 = snd (rc_process Start (ct_rc c1))"
    "if fst (rc_process Start (ct_rc c1)) = RCOK then rs_errorcode r2 = OK
     else rs_errorcode r2 = ERR \<and> rs_reason r2 = ''wrong requested RC transition''" by blast
  have s: "cli_start (direct u) host (c, w) =
      (if rs_errorcode r1 = OK then tell ''Fazia DAQ configured and started'' r2 (c2, w)
       else Inr ([failure (rs_reason r1)], (c1, w)))"
    unfolding cli_start_def ask_answered [of "direct u", OF 1(1)]
    by (simp add: ask_answered [of "direct u", OF 2(1)])
  show ?thesis
    using 1(3,4) 2(2,3) s by (cases "rc_curstate (ct_rc c)") (auto simp: rc_state_def tell_def)
qed

text \<open>C34. The start command of the controller, by the state of its run control. With no node
  in the table it prints that no node is available and changes nothing, whatever the state.
  With at least one node it configures first and gives up when that is refused: it starts
  an acquisition that is idle or paused, but on one that is configured (after the command
  configure) or running it prints the refusal of the run control and leaves the state as
  it was, unlike the start command of a node.\<close>

theorem cli_start_outcome:
  "\<exists>os lastcmd c'. cli_line (direct u) host ''start'' prev (c, w) = Inr (os, False, lastcmd, (c', w)) \<and>
    (if nt_map (ct_table c) = [] then os = [failure ''no DAQ node available''] \<and> c' = c
     else if rc_state (ct_rc c) = IDLE \<or> rc_state (ct_rc c) = PAUSED
     then os = [info ''Fazia DAQ configured and started''] \<and> rc_state (ct_rc c') = RUNNING
     else os = [failure ''wrong requested RC transition''] \<and> rc_state (ct_rc c') = rc_state (ct_rc c))"
proof (cases "nt_map (ct_table c) = []")
  case True
  then show ?thesis by (simp add: start_line start_without_nodes)
next
  case False
  obtain os c' where s: "cli_start (direct u) host (c, w) = Inr (os, (c', w))"
    and r: "if rc_state (ct_rc c) = IDLE \<or> rc_state (ct_rc c) = PAUSED
     then os = [info ''Fazia DAQ configured and started''] \<and> rc_state (ct_rc c') = RUNNING
     else os = [failure ''wrong requested RC transition''] \<and> rc_state (ct_rc c') = rc_state (ct_rc c)"
    using start_with_nodes [OF False, of u host w] by blast
  have "cli_line (direct u) host ''start'' prev (c, w) = Inr (os, False, ''start'', (c', w))"
    by (simp add: start_line s)
  with r False show ?thesis by (intro exI [of _ os] exI [of _ "''start''"] exI [of _ c']) simp
qed

theorem cli_start_outcome_witness:
  "\<exists>lastcmd c'. cli_line (direct (\<lambda>_ _ w. (None, w))) ''h'' ''start'' [] (one_node, ()) =
     Inr ([info ''Fazia DAQ configured and started''], False, lastcmd, (c', ())) \<and> rc_state (ct_rc c') = RUNNING"
proof -
  have "nt_map (ct_table one_node) \<noteq> []" "rc_state (ct_rc one_node) = IDLE"
    by (simp_all add: one_node_def new_controller_def rc_state_def new_RCFSM_def)
  with cli_start_outcome [of "\<lambda>_ _ w. (None, w)" "''h''" "[]" one_node "()"] show ?thesis by auto
qed

text \<open>Whatever the answer to a request to store, success is printed.\<close>

lemma store_answer_ignored:
  "send (cli_setup host ''nostore'') c = (Some m, c') \<Longrightarrow>
    cli_nostore send host c = Inr ([plain ''Fzwriter set to NOT write events on disk''], c')"
  "send (cli_setup host ''store'') c = (Some m, c') \<Longrightarrow>
    cli_store send host c = Inr ([plain ''Fzwriter set to write events on disk''], c')"
  by (simp_all add: cli_nostore_def cli_store_def cleared_errorcode_def)

end
