(* ===== verification/FzTransmitter.thy ===== *)
theory FzTransmitter
  imports FzWire FzEventSet FzText
begin

section \<open>The FDT transmitter\<close>

text \<open>
  \<open>transmitter/Tcp.cpp\<close>, \<open>fdtTransmitter.cpp\<close> and \<open>main.cpp\<close>: events taken from the spy
  port are wrapped in a frame with an MFM header and written to a TCP connection. What the
  kernel answers to the calls that open a connection is a record \<open>tcp_net\<close>; reading and writing
  meet a list of outcomes: a ready socket that takes or gives up to \<open>k\<close> bytes, a timeout of
  \<open>select\<close>, a failure. The descriptors the process has open are a list. Protobuf is a
  parameter (\<open>parse\<close>, \<open>byte_size\<close>).
\<close>

subsection \<open>Reading and writing a connection\<close>

definition TcpWind :: nat where "TcpWind = 32768"

definition R_OK :: int where "R_OK = 0"
definition R_TCP_SOCKET :: int where "R_TCP_SOCKET = 1"
definition R_TCP_BIND :: int where "R_TCP_BIND = 2"
definition R_TCP_LISTEN :: int where "R_TCP_LISTEN = 3"
definition R_TCP_TIMEOUT :: int where "R_TCP_TIMEOUT = 4"
definition R_TCP_ACCEPT :: int where "R_TCP_ACCEPT = 5"
definition R_TCP_DNS :: int where "R_TCP_DNS = 6"
definition R_TCP_CONNECT :: int where "R_TCP_CONNECT = 7"
definition R_TCP_READ :: int where "R_TCP_READ = 8"
definition R_TCP_WRITE :: int where "R_TCP_WRITE = 9"

datatype sock = Ready nat | Timeout | Failure

text \<open>The bytes of one call: at most the window.\<close>

definition at_once :: "nat \<Rightarrow> nat" where
  "at_once lg = (if lg > TcpWind then TcpWind else lg)"

text \<open>
  \<open>TcpWrite\<close>: the result code, the bytes written and the sockets left, \<open>None\<close> when the
  list ends before the loop does. A timeout is possible only when one was asked for.
\<close>

fun TcpWrite :: "bool \<Rightarrow> sock list \<Rightarrow> bytes \<Rightarrow> (int \<times> bytes \<times> sock list) option" where
  "TcpWrite timed [] buf = None"
| "TcpWrite timed (Timeout # os) buf =
     (if timed then Some (R_TCP_TIMEOUT, [], os) else TcpWrite timed os buf)"
| "TcpWrite timed (Failure # os) buf = Some (R_TCP_WRITE, [], os)"
| "TcpWrite timed (Ready k # os) buf =
     (let n = min k (at_once (length buf))
      in if drop n buf = [] then Some (R_OK, take n buf, os)
         else map_option (\<lambda>(r, w, rest). (r, take n buf @ w, rest)) (TcpWrite timed os (drop n buf)))"

text \<open>\<open>TcpRead\<close> of \<open>lg\<close> bytes from what the peer sends: an empty read is an error.\<close>

fun TcpRead :: "bool \<Rightarrow> sock list \<Rightarrow> bytes \<Rightarrow> nat \<Rightarrow> (int \<times> bytes) option" where
  "TcpRead timed [] stream lg = None"
| "TcpRead timed (Timeout # os) stream lg =
     (if timed then Some (R_TCP_TIMEOUT, []) else TcpRead timed os stream lg)"
| "TcpRead timed (Failure # os) stream lg = Some (R_TCP_READ, [])"
| "TcpRead timed (Ready k # os) stream lg =
     (let got = take (min k (at_once lg)) stream
      in if got = [] then Some (R_TCP_READ, [])
         else if lg = length got then Some (R_OK, got)
         else map_option (\<lambda>(r, w). (r, got @ w))
                (TcpRead timed os (drop (length got) stream) (lg - length got)))"

lemma at_once_le: "at_once n \<le> n"
  by (simp add: at_once_def)

lemma TcpWrite_prefix:
  "TcpWrite timed os buf = Some (r, w, rest) \<Longrightarrow>
    w = take (length w) buf \<and> (r = R_OK \<longrightarrow> w = buf) \<and> (r \<in> {R_OK, R_TCP_TIMEOUT, R_TCP_WRITE})"
proof (induction timed os buf arbitrary: w rule: TcpWrite.induct)
  case (4 timed k os buf)
  let ?n = "min k (at_once (length buf))"
  show ?case
  proof (cases "drop ?n buf = []")
    case True
    with 4(2) show ?thesis by (auto simp: Let_def)
  next
    case False
    with 4(2) obtain w' where w': "TcpWrite timed os (drop ?n buf) = Some (r, w', rest)" "w = take ?n buf @ w'"
      by (auto simp: Let_def simp del: drop_eq_Nil drop_eq_Nil2)
    have i: "w' = take (length w') (drop ?n buf)" "r = R_OK \<longrightarrow> w' = drop ?n buf"
        "r \<in> {R_OK, R_TCP_TIMEOUT, R_TCP_WRITE}"
      using 4(1) [OF refl False w'(1)] by simp_all
    have "at_once (length buf) \<le> length buf" by (rule at_once_le)
    then have l: "length (take ?n buf) = ?n" by simp
    have "take (length w) buf = take ?n buf @ take (length w') (drop ?n buf)"
      using w'(2) l by (simp add: take_add)
    with i w'(2) show ?thesis by auto
  qed
qed (auto split: if_splits simp: R_TCP_TIMEOUT_def R_TCP_WRITE_def R_OK_def)

lemma TcpWrite_finishes:
  "list_all (\<lambda>a. \<exists>k>0. a = Ready k) os \<Longrightarrow> length buf \<le> length os \<Longrightarrow> os \<noteq> [] \<Longrightarrow>
    \<exists>rest. TcpWrite timed os buf = Some (R_OK, buf, rest)"
proof (induction os arbitrary: buf)
  case (Cons a os)
  then obtain k where k: "a = Ready k" "0 < k" by auto
  let ?n = "min k (at_once (length buf))"
  show ?case
  proof (cases "drop ?n buf = []")
    case True
    with k show ?thesis by (simp add: Let_def)
  next
    case False
    have "0 < ?n" using k(2) False by (auto simp: at_once_def TcpWind_def)
    then have l: "length (drop ?n buf) \<le> length os" using Cons.prems(2) by auto
    moreover from this False have "os \<noteq> []" by auto
    ultimately obtain rest where "TcpWrite timed os (drop ?n buf) = Some (R_OK, drop ?n buf, rest)"
      using Cons.IH [of "drop ?n buf"] Cons.prems(1) by auto
    with k False show ?thesis by (simp add: Let_def del: drop_eq_Nil drop_eq_Nil2)
  qed
qed simp

lemma TcpRead_prefix:
  "TcpRead timed os stream lg = Some (R_OK, w) \<Longrightarrow> w = take lg stream \<and> length w = lg"
proof (induction timed os stream lg arbitrary: w rule: TcpRead.induct)
  case (4 timed k os stream lg)
  define got where "got = take (min k (at_once lg)) stream"
  have g: "take (length got) stream = got"
    unfolding got_def by (metis append_eq_conv_conj append_take_drop_id)
  have le: "length got \<le> lg" using at_once_le [of lg] by (simp add: got_def)
  have e: "(if got = [] then Some (R_TCP_READ, [])
      else if lg = length got then Some (R_OK, got)
      else map_option (\<lambda>(r, w). (r, got @ w)) (TcpRead timed os (drop (length got) stream) (lg - length got)))
      = Some (R_OK, w)"
    using 4(2) unfolding TcpRead.simps Let_def got_def [symmetric] .
  have ne: "got \<noteq> []" using e by (auto simp: R_OK_def R_TCP_READ_def split: if_splits)
  show ?case
  proof (cases "lg = length got")
    case True
    then show ?thesis using e ne g by simp
  next
    case False
    with e ne obtain w' where w': "TcpRead timed os (drop (length got) stream) (lg - length got) = Some (R_OK, w')"
      "w = got @ w'" by auto
    note i = conjunct1 [OF 4(1) [OF got_def ne False w'(1)]] conjunct2 [OF 4(1) [OF got_def ne False w'(1)]]
    have "take lg stream = take (length got) stream @ take (lg - length got) (drop (length got) stream)"
      using le by (metis le_add_diff_inverse take_add)
    with i(1) g have "w = take lg stream" using w'(2) by metis
    moreover have "length w = lg" using w'(2) i(2) le by simp
    ultimately show ?thesis by blast
  qed
qed (auto split: if_splits simp: R_TCP_TIMEOUT_def R_TCP_READ_def R_OK_def)

subsection \<open>Opening and closing a connection\<close>

text \<open>\<open>SERVEUR\<close>, \<open>CLONE\<close> and \<open>CLIENT\<close>: a listening socket, a connection it accepts, a
  connection to a server.\<close>

datatype tcp_mode = SERVEUR | CLONE | CLIENT

text \<open>A turn of the loop of \<open>CLONE\<close>: \<open>select\<close> fails or times out, or \<open>accept\<close> would
  block, fails, or gives a descriptor.\<close>

datatype accept_try = Not_ready | Would_block | Accept_error | Accepted int

text \<open>The answers to one call of \<open>TcpOpen\<close>.\<close>

record tcp_net =
  nt_socket :: int
  nt_bind :: "u16 \<Rightarrow> bool"
  nt_listen :: bool
  nt_accepts :: "accept_try list"
  nt_inet_addr :: "string \<Rightarrow> u32"
  nt_hostbyname :: "string \<Rightarrow> u32 option"
  nt_connect :: "u32 \<Rightarrow> u16 \<Rightarrow> bool"

definition tcp_mode :: "string option \<Rightarrow> int \<Rightarrow> tcp_mode" where
  "tcp_mode ip sid = (if ip \<noteq> None then CLIENT else if sid \<noteq> 0 then CLONE else SERVEUR)"

text \<open>The number at the beginning of a text, 0 when there is none.\<close>

definition is_space :: "char \<Rightarrow> bool" where
  "is_space c = (of_char c \<in> {9 :: nat, 10, 11, 12, 13, 32})"

definition atoi :: "string \<Rightarrow> int" where
  "atoi s =
     (case dropWhile is_space s of
        [] \<Rightarrow> 0
      | c # cs \<Rightarrow>
          if c = CHR ''-'' then - int (num_of (takeWhile is_digit cs))
          else if c = CHR ''+'' then int (num_of (takeWhile is_digit cs))
          else int (num_of (takeWhile is_digit (c # cs))))"

definition tcp_address :: "tcp_net \<Rightarrow> string \<Rightarrow> u32 option" where
  "tcp_address nt ip = (if atoi ip > 0 then Some (nt_inet_addr nt ip) else nt_hostbyname nt ip)"

definition tcp_serve :: "tcp_net \<Rightarrow> int \<Rightarrow> int list \<Rightarrow> int \<times> int \<times> int list" where
  "tcp_serve nt SourcePort fds =
     (let s = nt_socket nt in
      if s < 0 then (R_TCP_SOCKET, s, fds)
      else let fds1 = s # fds in
        if \<not> nt_bind nt (word_of_int SourcePort) then (R_TCP_BIND, s, remove1 s fds1)
        else if \<not> nt_listen nt then (R_TCP_LISTEN, s, remove1 s fds1)
        else (R_OK, s, fds1))"

text \<open>\<open>None\<close> when the list of tries ends before the loop does.\<close>

fun tcp_clone :: "bool \<Rightarrow> accept_try list \<Rightarrow> int \<Rightarrow> int list \<Rightarrow> (int \<times> int \<times> int list) option" where
  "tcp_clone timed [] sid fds = None"
| "tcp_clone timed (Not_ready # as) sid fds =
     (if timed then Some (R_TCP_TIMEOUT, sid, fds) else tcp_clone timed as sid fds)"
| "tcp_clone timed (Would_block # as) sid fds = tcp_clone timed as sid fds"
| "tcp_clone timed (Accept_error # as) sid fds = Some (R_TCP_ACCEPT, sid, fds)"
| "tcp_clone timed (Accepted s # as) sid fds = Some (R_OK, s, s # fds)"

definition tcp_client :: "tcp_net \<Rightarrow> string \<Rightarrow> int \<Rightarrow> int \<Rightarrow> int list \<Rightarrow> int \<times> int \<times> int list" where
  "tcp_client nt ip DestPort sid fds =
     (case tcp_address nt ip of
        None \<Rightarrow> (R_TCP_DNS, sid, fds)
      | Some addr \<Rightarrow>
          (let s = nt_socket nt in
           if s < 0 then (R_TCP_SOCKET, s, fds)
           else let fds1 = s # fds in
             if \<not> nt_connect nt addr (word_of_int DestPort) then (R_TCP_CONNECT, s, remove1 s fds1)
             else (R_OK, s, fds1)))"

definition TcpOpen ::
  "tcp_net \<Rightarrow> int \<Rightarrow> string option \<Rightarrow> int \<Rightarrow> int \<Rightarrow> int \<Rightarrow> int list \<Rightarrow> (int \<times> int \<times> int list) option" where
  "TcpOpen nt sid ip SourcePort DestPort timeout fds =
     (case tcp_mode ip sid of
        SERVEUR \<Rightarrow> Some (tcp_serve nt SourcePort fds)
      | CLONE \<Rightarrow> tcp_clone (timeout \<noteq> 0) (nt_accepts nt) sid fds
      | CLIENT \<Rightarrow> Some (tcp_client nt (the ip) DestPort sid fds))"

definition TcpClose :: "int \<Rightarrow> int list \<Rightarrow> int \<times> int list" where
  "TcpClose sid fds = (-1, remove1 sid fds)"

subsection \<open>The transmitter\<close>

record fdtTransmitter =
  ConnectionSocket :: int
  fdt_Timeout :: int

definition new_fdt :: fdtTransmitter where
  "new_fdt = \<lparr>ConnectionSocket = -1, fdt_Timeout = 20\<rparr>"

definition setTimeout :: "int \<Rightarrow> fdtTransmitter \<Rightarrow> fdtTransmitter" where
  "setTimeout t f = f\<lparr>fdt_Timeout := t\<rparr>"

definition getTimeout :: "fdtTransmitter \<Rightarrow> int" where
  "getTimeout f = fdt_Timeout f"

definition getConnectionSocket :: "fdtTransmitter \<Rightarrow> int" where
  "getConnectionSocket f = ConnectionSocket f"

definition isConnected :: "fdtTransmitter \<Rightarrow> bool" where
  "isConnected f = (ConnectionSocket f \<noteq> -1)"

definition fdt_disconnect :: "fdtTransmitter \<times> int list \<Rightarrow> fdtTransmitter \<times> int list" where
  "fdt_disconnect st =
     (let (f, fds) = st;
          (s, fds1) = (if isConnected f then TcpClose (ConnectionSocket f) fds else (ConnectionSocket f, fds))
      in (f\<lparr>ConnectionSocket := -1\<rparr>, fds1))"

text \<open>\<open>s0\<close> is what the uninitialised local of \<open>connect\<close> holds; a client does not read it.\<close>

definition fdt_connect ::
  "tcp_net \<Rightarrow> int \<Rightarrow> string \<Rightarrow> int \<Rightarrow> fdtTransmitter \<times> int list \<Rightarrow> (int \<times> fdtTransmitter \<times> int list) option" where
  "fdt_connect nt s0 receiver port st =
     (let (f1, fds1) = fdt_disconnect st in
      map_option (\<lambda>(err, s, fds2). (err, if err = R_OK then f1\<lparr>ConnectionSocket := s\<rparr> else f1, fds2))
        (TcpOpen nt s0 (Some receiver) 0 port 0 fds1))"

text \<open>
  The timeout of a socket call is five times that of the transmitter, in fifths of a second.
  With a timeout the descriptor -1 of a transmitter that is not connected is put into a
  descriptor set (\<open>FD_SET\<close>), a write outside the set; without, \<open>send\<close> refuses it.
\<close>

datatype tx_error = No_event | Over_read | Buffer_overflow | Bad_socket

definition fdt_send :: "sock list \<Rightarrow> bytes \<Rightarrow> fdtTransmitter \<Rightarrow> tx_error + (int \<times> bytes \<times> sock list) option" where
  "fdt_send os buf f =
     (if isConnected f then Inr (TcpWrite (fdt_Timeout f * 5 \<noteq> 0) os buf)
      else if fdt_Timeout f * 5 \<noteq> 0 then Inl Bad_socket
      else Inr (Some (R_TCP_WRITE, [], os)))"

definition FDT_HELLO :: u32 where "FDT_HELLO = 0"
definition FDT_DISCONNECT :: u32 where "FDT_DISCONNECT = 0xFFFFFFFF"

definition sendCmd :: "sock list \<Rightarrow> u32 \<Rightarrow> fdtTransmitter \<Rightarrow> tx_error + (int \<times> bytes \<times> sock list) option" where
  "sendCmd os c f = fdt_send os (le32 c) f"

definition sendHELLO :: "sock list \<Rightarrow> fdtTransmitter \<Rightarrow> tx_error + (int \<times> bytes \<times> sock list) option" where
  "sendHELLO os = sendCmd os FDT_HELLO"

definition sendDISCONNECT :: "sock list \<Rightarrow> fdtTransmitter \<Rightarrow> tx_error + (int \<times> bytes \<times> sock list) option" where
  "sendDISCONNECT os = sendCmd os FDT_DISCONNECT"

subsection \<open>The frame\<close>

definition MFM_BUFFER :: nat where "MFM_BUFFER = 0x400000"

definition mfm_size :: "nat \<Rightarrow> nat" where
  "mfm_size n = (let m = 20 + 4 + n in if m mod 2 = 1 then m + 1 else m)"

text \<open>\<open>mfmevent[i] = v\<close> and \<open>mfmevent[i] |= v\<close>.\<close>

definition put :: "nat \<Rightarrow> u64 \<Rightarrow> bytes \<Rightarrow> bytes" where
  "put i v h = h[i := ucast v]"

definition put_or :: "nat \<Rightarrow> u64 \<Rightarrow> bytes \<Rightarrow> bytes" where
  "put_or i v h = h[i := ucast (or (ucast (h ! i)) v)]"

definition mfm_start :: "nat \<Rightarrow> bytes" where
  "mfm_start sz =
     (let s = of_nat (sz div 2) :: u64
      in [0x41, ucast (drop_bit 16 (and s 0xFF0000)), ucast (drop_bit 8 (and s 0x00FF00)),
          ucast (and s 0x0000FF), 0, 0, 0x40, 0] @ replicate 12 0)"

definition mfm_trinfo :: "FzTrigInfo \<Rightarrow> bytes \<Rightarrow> bytes" where
  "mfm_trinfo t h =
     (let n = get_or 0 (ti_id t); v = get_or 0 (ti_value t)
      in if n = 0x200 then put_or 8 (push_bit 2 (and v 0x3F)) h
         else if n = 0x201 then
           put_or 12 (push_bit 4 (and v 0xF)) (put 11 (and (drop_bit 4 v) 0xFF)
             (put 10 (and (drop_bit 12 v) 0xFF) (put 9 (and (drop_bit 20 v) 0xFF)
               (put_or 8 (drop_bit 28 v) h))))
         else if n = 0x202 then
           put_or 16 (push_bit 6 (and v 0x3)) (put 15 (and (drop_bit 2 v) 0xFF)
             (put 14 (and (drop_bit 10 v) 0xFF) (put 13 (and (drop_bit 18 v) 0xFF)
               (put_or 12 (drop_bit 26 v) h))))
         else if n = 0x203 then
           put 19 (and v 0xFF) (put 18 (and (drop_bit 8 v) 0xFF)
             (put 17 (and (drop_bit 16 v) 0xFF) (put_or 16 (drop_bit 24 v) h)))
         else h)"

definition mfm_length :: "nat \<Rightarrow> bytes" where
  "mfm_length n = (let s = of_nat n :: u32
     in [ucast (and s 0x000000FF), ucast (drop_bit 8 (and s 0x0000FF00)),
         ucast (drop_bit 16 (and s 0x00FF0000)), ucast (drop_bit 24 (and s 0xFF000000))])"

text \<open>
  The frame of the message \<open>msg\<close> with the events \<open>evs\<close>; \<open>past\<close> is the memory behind the
  message, of which one byte is copied when the length is odd.
\<close>

definition mfm_frame :: "(FzEvent list \<Rightarrow> nat) \<Rightarrow> bytes \<Rightarrow> bytes \<Rightarrow> FzEvent list \<Rightarrow> tx_error + bytes" where
  "mfm_frame byte_size past msg evs =
     (let sz = mfm_size (byte_size evs)
      in case evs of [] \<Rightarrow> Inl No_event
         | e # es \<Rightarrow>
             let header = fold mfm_trinfo (e_trinfo e) (mfm_start sz)
             in if sz > MFM_BUFFER then Inl Buffer_overflow
                else if sz - 24 > length (msg @ past) then Inl Over_read
                else Inr (header @ mfm_length (byte_size evs) @ take (sz - 24) (msg @ past)))"

subsection \<open>The program\<close>

text \<open>The options, once boost has read them; \<open>None\<close> when it refused them.\<close>

record tx_options =
  tx_help :: bool
  tx_sh :: "string option"
  tx_sp :: "string option"
  tx_fh :: "string option"
  tx_fp :: "u16 option"

datatype tx_exit = Option_error | Usage | No_spy_host | No_spy_socket | No_spy_connection | No_fdt_server | Fdt_failed int string

definition spy_endpoint :: "string \<Rightarrow> string option \<Rightarrow> string" where
  "spy_endpoint sh sp = ''tcp://'' @ sh @ '':'' @ (case sp of Some p \<Rightarrow> p | None \<Rightarrow> ''5563'')"

definition tcp_error_name :: "int \<Rightarrow> string" where
  "tcp_error_name err =
     (if err = R_TCP_DNS then '' (R_TCP_DNS)''
      else if err = R_TCP_SOCKET then '' (R_TCP_SOCKET)''
      else if err = R_TCP_BIND then '' (R_TCP_BIND)''
      else if err = R_TCP_CONNECT then '' (R_TCP_CONNECT)''
      else '' (UNKNOWN)'')"

text \<open>The receiver, the port and the connected transmitter; \<open>sub\<close> and \<open>spy\<close> say whether the
  subscriber socket can be created and connected.\<close>

type_synonym tx_state = "fdtTransmitter \<times> int list"

definition tx_start ::
  "tx_options option \<Rightarrow> bool \<Rightarrow> (string \<Rightarrow> bool) \<Rightarrow> tcp_net \<Rightarrow> int \<Rightarrow> int list \<Rightarrow>
     tx_exit + (string \<times> u16 \<times> tx_state) option" where
  "tx_start opts sub spy nt s0 fds =
     (case opts of
        None \<Rightarrow> Inl Option_error
      | Some opt \<Rightarrow>
          if tx_help opt then Inl Usage
          else (case tx_sh opt of
             None \<Rightarrow> Inl No_spy_host
           | Some sh \<Rightarrow>
               if \<not> sub then Inl No_spy_socket
               else if \<not> spy (spy_endpoint sh (tx_sp opt)) then Inl No_spy_connection
               else (case (tx_fh opt, tx_fp opt) of
                  (Some fh, Some fp) \<Rightarrow>
                    (case fdt_connect nt s0 fh (uint fp) (setTimeout 10 new_fdt, fds) of
                       None \<Rightarrow> Inr None
                     | Some (err, st) \<Rightarrow>
                         if err \<noteq> R_OK then Inl (Fdt_failed err (tcp_error_name err)) else Inr (Some (fh, fp, st)))
                | _ \<Rightarrow> Inl No_fdt_server)))"

text \<open>What one turn of the loop meets: the message, the memory behind it, the sockets and the
  answers to an attempt to connect again.\<close>

record tx_input =
  in_msg :: bytes
  in_past :: bytes
  in_socks :: "sock list"
  in_net :: tcp_net
  in_s0 :: int

text \<open>One turn of the loop: the error code, the bytes that reach the wire and the
  transmitter, reconnected after a failure (the rest of the event is dropped).\<close>

definition tx_round ::
  "(bytes \<Rightarrow> FzEvent list option) \<Rightarrow> (FzEvent list \<Rightarrow> nat) \<Rightarrow> string \<Rightarrow> u16 \<Rightarrow> tx_input \<Rightarrow> tx_state \<Rightarrow>
     tx_error + (int \<times> bytes \<times> tx_state) option" where
  "tx_round parse byte_size fh fp i st =
     (case parse (in_msg i) of
        None \<Rightarrow> Inr (Some (R_OK, [], st))
      | Some evs \<Rightarrow>
          bindE (mfm_frame byte_size (in_past i) (in_msg i) evs) (\<lambda>frame.
          bindE (fdt_send (in_socks i) frame (fst st)) (\<lambda>sent.
            Inr (case sent of
                   None \<Rightarrow> None
                 | Some (err, w, rest) \<Rightarrow>
                     if err \<noteq> R_OK
                     then map_option (\<lambda>(err', st'). (err', w, st'))
                            (fdt_connect (in_net i) (in_s0 i) fh (uint fp) st)
                     else Some (err, w, st)))))"

inductive tx_reach ::
  "(bytes \<Rightarrow> FzEvent list option) \<Rightarrow> (FzEvent list \<Rightarrow> nat) \<Rightarrow> string \<Rightarrow> u16 \<Rightarrow> tx_state \<Rightarrow> tx_state \<Rightarrow> bool"
  for parse byte_size fh fp st0 where
  start: "tx_reach parse byte_size fh fp st0 st0"
| round: "tx_reach parse byte_size fh fp st0 st \<Longrightarrow> tx_round parse byte_size fh fp i st = Inr (Some (err, w, st')) \<Longrightarrow>
    tx_reach parse byte_size fh fp st0 st'"

subsection \<open>What the header says\<close>

definition cent :: "u32 \<Rightarrow> FzTrigInfo list \<Rightarrow> u64" where
  "cent n ts = (case filter (\<lambda>t. get_or 0 (ti_id t) = n) ts of [] \<Rightarrow> 0 | t # _ \<Rightarrow> get_or 0 (ti_value t))"

definition mfm_words :: "u64 \<Rightarrow> u64 \<Rightarrow> u64 \<Rightarrow> u64 \<Rightarrow> bytes" where
  "mfm_words a b c d = [
     ucast (or (push_bit 2 (and a 0x3F)) (drop_bit 28 b)), ucast (drop_bit 20 b), ucast (drop_bit 12 b),
     ucast (drop_bit 4 b), ucast (or (push_bit 4 (and b 0xF)) (drop_bit 26 c)), ucast (drop_bit 18 c),
     ucast (drop_bit 10 c), ucast (drop_bit 2 c), ucast (or (push_bit 6 (and c 0x3)) (drop_bit 24 d)),
     ucast (drop_bit 16 d), ucast (drop_bit 8 d), ucast d]"

definition mfm_lead :: "nat \<Rightarrow> bytes" where
  "mfm_lead sz = take 8 (mfm_start sz)"

lemma mfm_start_words: "mfm_start sz = mfm_lead sz @ mfm_words 0 0 0 0"
  by (simp add: mfm_start_def mfm_lead_def mfm_words_def Let_def numeral_eq_Suc)

lemma length_mfm_lead [simp]: "length (mfm_lead sz) = 8"
  by (simp add: mfm_lead_def mfm_start_def Let_def)

text \<open>Adding the word of one id to a header that does not have it.\<close>

lemma mfm_trinfo_words:
  assumes "length l = 8"
  shows "get_or 0 (ti_id t) = 0x200 \<Longrightarrow> mfm_trinfo t (l @ mfm_words 0 b c d) = l @ mfm_words (get_or 0 (ti_value t)) b c d"
    "get_or 0 (ti_id t) = 0x201 \<Longrightarrow> mfm_trinfo t (l @ mfm_words a 0 c d) = l @ mfm_words a (get_or 0 (ti_value t)) c d"
    "get_or 0 (ti_id t) = 0x202 \<Longrightarrow> mfm_trinfo t (l @ mfm_words a b 0 d) = l @ mfm_words a b (get_or 0 (ti_value t)) d"
    "get_or 0 (ti_id t) = 0x203 \<Longrightarrow> mfm_trinfo t (l @ mfm_words a b c 0) = l @ mfm_words a b c (get_or 0 (ti_value t))"
proof -
  have ff: "(0xFF :: u64) = mask 8" by (simp add: mask_eq_exp_minus_1)
  have lo: "ucast (and x 0xFF) = (ucast x :: u8)" for x :: u64
    unfolding ff by (rule bit_word_eqI) (auto simp: bit_simps)
  have jn: "ucast (or (ucast (ucast x :: u8)) y) = (ucast (or x y) :: u8)" for x y :: u64
    by (rule bit_word_eqI) (auto simp: bit_simps)
  have jn2: "ucast (or y (ucast (ucast x :: u8))) = (ucast (or y x) :: u8)" for x y :: u64
    using jn [of x y] by (simp add: or.commute)
  note defs = mfm_trinfo_def put_def put_or_def mfm_words_def Let_def assms nth_append list_update_append lo jn jn2
  show "get_or 0 (ti_id t) = 0x200 \<Longrightarrow> mfm_trinfo t (l @ mfm_words 0 b c d) = l @ mfm_words (get_or 0 (ti_value t)) b c d"
    by (simp add: defs or.commute)
  show "get_or 0 (ti_id t) = 0x201 \<Longrightarrow> mfm_trinfo t (l @ mfm_words a 0 c d) = l @ mfm_words a (get_or 0 (ti_value t)) c d"
    by (simp add: defs or.commute)
  show "get_or 0 (ti_id t) = 0x202 \<Longrightarrow> mfm_trinfo t (l @ mfm_words a b 0 d) = l @ mfm_words a b (get_or 0 (ti_value t)) d"
    by (simp add: defs or.commute)
  show "get_or 0 (ti_id t) = 0x203 \<Longrightarrow> mfm_trinfo t (l @ mfm_words a b c 0) = l @ mfm_words a b c (get_or 0 (ti_value t))"
    by (simp add: defs or.commute)
qed

text \<open>Every centrum id at most once: the header holds the four words, 0 for a missing one.\<close>

definition centrum_once :: "FzTrigInfo list \<Rightarrow> bool" where
  "centrum_once ts = distinct (filter (\<lambda>n. n \<in> {0x200, 0x201, 0x202, 0x203}) (map (\<lambda>t. get_or 0 (ti_id t)) ts))"

lemma cent_absent: "n \<notin> set (map (\<lambda>t. get_or 0 (ti_id t)) ts) \<Longrightarrow> cent n ts = 0"
  by (induction ts) (auto simp: cent_def)

lemma cent_snoc: "n \<notin> set (map (\<lambda>t. get_or 0 (ti_id t)) ts) \<Longrightarrow>
    cent n (ts @ [t]) = (if get_or 0 (ti_id t) = n then get_or 0 (ti_value t) else 0)"
  by (induction ts) (auto simp: cent_def)

lemma cent_other: "get_or 0 (ti_id t) \<noteq> n \<Longrightarrow> cent n (ts @ [t]) = cent n ts"
  by (simp add: cent_def)

lemma mfm_trinfo_other:
  "get_or 0 (ti_id t) \<notin> {0x200, 0x201, 0x202, 0x203} \<Longrightarrow> mfm_trinfo t h = h"
  by (simp add: mfm_trinfo_def Let_def)

lemma mfm_header:
  assumes "length l = 8" "centrum_once ts"
  shows "fold mfm_trinfo ts (l @ mfm_words 0 0 0 0) =
    l @ mfm_words (cent 0x200 ts) (cent 0x201 ts) (cent 0x202 ts) (cent 0x203 ts)"
  using assms(2)
proof (induction ts rule: rev_induct)
  case Nil
  then show ?case by (simp add: cent_def)
next
  case (snoc t ts)
  let ?n = "get_or 0 (ti_id t)"
  have i: "fold mfm_trinfo ts (l @ mfm_words 0 0 0 0) =
    l @ mfm_words (cent 0x200 ts) (cent 0x201 ts) (cent 0x202 ts) (cent 0x203 ts)"
    using snoc by (simp add: centrum_once_def)
  show ?case
  proof (cases "?n \<in> {0x200, 0x201, 0x202, 0x203}")
    case False
    then show ?thesis using i mfm_trinfo_other [OF False] by (simp add: cent_other)
  next
    case True
    then have n: "?n \<notin> set (map (\<lambda>t. get_or 0 (ti_id t)) ts)"
      using snoc.prems by (force simp: centrum_once_def)
    consider "?n = 0x200" | "?n = 0x201" | "?n = 0x202" | "?n = 0x203" using True by blast
    then show ?thesis
      by cases (use n i mfm_trinfo_words [OF assms(1)] in \<open>simp_all add: cent_other cent_snoc cent_absent del: set_map\<close>)
  qed
qed

text \<open>The reader of the header: the four words from the bytes 8 to 19.\<close>

definition byte_at :: "bytes \<Rightarrow> nat \<Rightarrow> u64" where
  "byte_at h i = ucast (h ! i)"

definition mfm_centrum :: "bytes \<Rightarrow> u64 \<times> u64 \<times> u64 \<times> u64" where
  "mfm_centrum h =
     (drop_bit 2 (byte_at h 8),
      or (push_bit 28 (and (byte_at h 8) 3)) (or (push_bit 20 (byte_at h 9)) (or (push_bit 12 (byte_at h 10))
        (or (push_bit 4 (byte_at h 11)) (drop_bit 4 (byte_at h 12))))),
      or (push_bit 26 (and (byte_at h 12) 15)) (or (push_bit 18 (byte_at h 13)) (or (push_bit 10 (byte_at h 14))
        (or (push_bit 2 (byte_at h 15)) (drop_bit 6 (byte_at h 16))))),
      or (push_bit 24 (and (byte_at h 16) 63)) (or (push_bit 16 (byte_at h 17)) (or (push_bit 8 (byte_at h 18))
        (byte_at h 19))))"

lemma small_bits: "x < 2 ^ m \<Longrightarrow> m \<le> n \<Longrightarrow> \<not> bit x n" for x :: u64
  using bit_take_bit_iff [of m x n] less_mask_eq [of x m] by (simp add: take_bit_eq_mask)

lemma two_back: "2 \<le> n \<Longrightarrow> Suc (Suc (n - 2)) = n" for n :: nat
  by simp

lemma centrum0_bits:
  fixes a b :: u64
  assumes "b < 2 ^ 30"
  shows "drop_bit 2 (ucast (ucast (or (push_bit 2 (and a (mask 6))) (drop_bit 28 b)) :: u8)) = and a (mask 6)"
    (is "?l = ?r")
proof (rule bit_word_eqI)
  fix n assume "n < LENGTH(64)"
  then show "bit ?l n = bit ?r n"
    using small_bits [OF assms, of "30 + n"] by (cases "n < 6") (simp_all add: bit_simps add.commute)
qed

lemma centrum1_bits:
  fixes a b c :: u64
  assumes "b < 2 ^ 30" "c < 2 ^ 30"
  shows "or (push_bit 28 (and (ucast (ucast (or (push_bit 2 (and a (mask 6))) (drop_bit 28 b)) :: u8)) (mask 2)))
      (or (push_bit 20 (ucast (ucast (drop_bit 20 b) :: u8))) (or (push_bit 12 (ucast (ucast (drop_bit 12 b) :: u8)))
        (or (push_bit 4 (ucast (ucast (drop_bit 4 b) :: u8)))
          (drop_bit 4 (ucast (ucast (or (push_bit 4 (and b (mask 4))) (drop_bit 26 c)) :: u8)))))) = b"
    (is "?l = b")
proof (rule bit_word_eqI)
  fix n assume n: "n < LENGTH(64)"
  note nb = small_bits [OF assms(1)] small_bits [OF assms(2)]
  consider "n < 4" | "4 \<le> n" "n < 12" | "12 \<le> n" "n < 20" | "20 \<le> n" "n < 28" | "28 \<le> n" "n < 30" | "30 \<le> n"
    by linarith
  then show "bit ?l n = bit b n" using n by cases (auto simp: bit_simps nb two_back)
qed

lemma centrum2_bits:
  fixes b c d :: u64
  assumes "c < 2 ^ 30" "d < 2 ^ 30"
  shows "or (push_bit 26 (and (ucast (ucast (or (push_bit 4 (and b (mask 4))) (drop_bit 26 c)) :: u8)) (mask 4)))
      (or (push_bit 18 (ucast (ucast (drop_bit 18 c) :: u8))) (or (push_bit 10 (ucast (ucast (drop_bit 10 c) :: u8)))
        (or (push_bit 2 (ucast (ucast (drop_bit 2 c) :: u8)))
          (drop_bit 6 (ucast (ucast (or (push_bit 6 (and c (mask 2))) (drop_bit 24 d)) :: u8)))))) = c"
    (is "?l = c")
proof (rule bit_word_eqI)
  fix n assume n: "n < LENGTH(64)"
  note nb = small_bits [OF assms(1)] small_bits [OF assms(2)]
  consider "n < 2" | "2 \<le> n" "n < 10" | "10 \<le> n" "n < 18" | "18 \<le> n" "n < 26" | "26 \<le> n" "n < 30" | "30 \<le> n"
    by linarith
  then show "bit ?l n = bit c n" using n by cases (auto simp: bit_simps nb two_back)
qed

lemma centrum3_bits:
  fixes c d :: u64
  assumes "d < 2 ^ 30"
  shows "or (push_bit 24 (and (ucast (ucast (or (push_bit 6 (and c (mask 2))) (drop_bit 24 d)) :: u8)) (mask 6)))
      (or (push_bit 16 (ucast (ucast (drop_bit 16 d) :: u8))) (or (push_bit 8 (ucast (ucast (drop_bit 8 d) :: u8)))
        (ucast (ucast d :: u8)))) = d"
    (is "?l = d")
proof (rule bit_word_eqI)
  fix n assume n: "n < LENGTH(64)"
  note nb = small_bits [OF assms(1)]
  consider "n < 8" | "8 \<le> n" "n < 16" | "16 \<le> n" "n < 24" | "24 \<le> n" "n < 30" | "30 \<le> n" by linarith
  then show "bit ?l n = bit d n" using n by cases (auto simp: bit_simps nb two_back)
qed

lemma length_mfm_words: "length (mfm_words a b c d) = 12"
  by (simp add: mfm_words_def)

lemma mfm_words_decode:
  assumes "length l = 8" "b < 2 ^ 30" "c < 2 ^ 30" "d < 2 ^ 30"
  shows "mfm_centrum (l @ mfm_words a b c d @ r) = (and a 0x3F, b, c, d)"
proof -
  have m: "(0x3F :: u64) = mask 6" "(0xF :: u64) = mask 4" "(3 :: u64) = mask 2"
    by (simp_all add: mask_eq_exp_minus_1)
  have i: "byte_at (l @ mfm_words a b c d @ r) (8 + k) = ucast (mfm_words a b c d ! k)" if "k < 12" for k
    using that nth_append_length_plus [of l "mfm_words a b c d @ r" k] assms(1)
      nth_append [of "mfm_words a b c d" r k] length_mfm_words [of a b c d]
    by (simp add: byte_at_def)
  show ?thesis
    unfolding mfm_centrum_def m
    using i [of 0] i [of 1] i [of 2] i [of 3] i [of 4] i [of 5] i [of 6] i [of 7] i [of 8] i [of 9] i [of 10] i [of 11]
      centrum0_bits [OF assms(2)] centrum1_bits [OF assms(2,3)] centrum2_bits [OF assms(3,4)] centrum3_bits [OF assms(4)]
    by (simp add: mfm_words_def m)
qed

subsection \<open>The properties\<close>

lemma mfm_length_le32: "mfm_length n = le32 (of_nat n)"
proof -
  have "(0xFF :: u32) = mask 8" "(0xFF00 :: u32) = push_bit 8 (mask 8)" "(0xFF0000 :: u32) = push_bit 16 (mask 8)"
    "(0xFF000000 :: u32) = push_bit 24 (mask 8)" by (simp_all add: mask_eq_exp_minus_1)
  moreover have "ucast (and x (mask 8)) = (ucast x :: u8)"
    "ucast (drop_bit 8 (and x (push_bit 8 (mask 8)))) = (ucast (drop_bit 8 x) :: u8)"
    "ucast (drop_bit 16 (and x (push_bit 16 (mask 8)))) = (ucast (drop_bit 16 x) :: u8)"
    "ucast (drop_bit 24 (and x (push_bit 24 (mask 8)))) = (ucast (drop_bit 24 x) :: u8)" for x :: u32
    by (rule bit_word_eqI, auto simp: bit_simps)+
  ultimately show ?thesis by (simp only: mfm_length_def le32_def Let_def)
qed

text \<open>The frame size in 16-bit units: the three bytes after the first.\<close>

definition mfm_units :: "bytes \<Rightarrow> nat" where
  "mfm_units h = unat (h ! 1) * 65536 + unat (h ! 2) * 256 + unat (h ! 3)"

lemma unat_byte:
  assumes "n < 2 ^ 64"
  shows "unat (ucast (drop_bit k (of_nat n :: u64)) :: u8) = n div 2 ^ k mod 256"
proof -
  have "unat (of_nat n :: u64) = n" using assms by (simp add: unsigned_of_nat take_bit_nat_eq_self)
  then have "unat (drop_bit k (of_nat n :: u64)) = n div 2 ^ k"
    by (metis unat_drop_bit_eq drop_bit_nat_def)
  then show ?thesis by (simp add: unsigned_ucast_eq take_bit_eq_mod)
qed

lemma base256: "x < 16777216 \<Longrightarrow> x div 65536 mod 256 * 65536 + x div 256 mod 256 * 256 + x mod 256 = x" for x :: nat
proof -
  assume "x < 16777216"
  then have "x div 65536 mod 256 = x div 256 div 256" by (simp add: div_mult2_eq [symmetric])
  moreover have "x div 256 div 256 * 256 + x div 256 mod 256 = x div 256" "x div 256 * 256 + x mod 256 = x"
    by (rule div_mult_mod_eq)+
  ultimately show ?thesis by linarith
qed

lemma mfm_start_units:
  assumes "sz < 2 ^ 24"
  shows "mfm_units (mfm_start sz @ r) = sz div 2"
proof -
  let ?s = "of_nat (sz div 2) :: u64"
  have "(0xFF :: u64) = mask 8" "(0xFF00 :: u64) = push_bit 8 (mask 8)" "(0xFF0000 :: u64) = push_bit 16 (mask 8)"
    by (simp_all add: mask_eq_exp_minus_1)
  moreover have "ucast (and x (mask 8)) = (ucast (drop_bit 0 x) :: u8)"
    "ucast (drop_bit 8 (and x (push_bit 8 (mask 8)))) = (ucast (drop_bit 8 x) :: u8)"
    "ucast (drop_bit 16 (and x (push_bit 16 (mask 8)))) = (ucast (drop_bit 16 x) :: u8)" for x :: u64
    by (rule bit_word_eqI, auto simp: bit_simps)+
  ultimately have s: "mfm_start sz = [0x41, ucast (drop_bit 16 ?s), ucast (drop_bit 8 ?s), ucast (drop_bit 0 ?s), 0, 0, 0x40, 0]
      @ replicate 12 0" by (simp only: mfm_start_def Let_def)
  define x where "x = sz div 2"
  have x: "x < 2 ^ 24" "x < 2 ^ 64" using assms by (simp_all add: x_def)
  have "mfm_units (mfm_start sz @ r) = x div 2 ^ 16 mod 256 * 65536 + x div 2 ^ 8 mod 256 * 256 + x div 2 ^ 0 mod 256"
    unfolding s mfm_units_def x_def [symmetric] using unat_byte [OF x(2), of 16] unat_byte [OF x(2), of 8] unat_byte [OF x(2), of 0]
    by simp
  also have "\<dots> = x" using base256 [of x] x(1) by simp
  finally show ?thesis by (simp add: x_def)
qed

lemma mfm_size_bounds: "24 + n \<le> mfm_size n" "mfm_size n \<le> 25 + n" "2 * (mfm_size n div 2) = mfm_size n"
  by (auto simp: mfm_size_def Let_def) presburger

text \<open>C20. A frame can be taken apart again, if the coder gives the length of the event message
  as its size, no trigger box word is present twice (\<open>centrum_once\<close>) and the second to fourth
  of them fit 30 bits: its length is even and is twice the size in the
  header, the event message and its length are behind the header, and the bytes 8 to 19
  are the trigger box words of the first event, six bits of the first and 30 of the
  others, whatever their order among the other trigger values.\<close>

theorem mfm_frame_decodes:
  assumes "mfm_frame byte_size past msg (e # es) = Inr frame" "byte_size (e # es) = length msg"
    and "centrum_once (e_trinfo e)"
    and "cent 0x201 (e_trinfo e) < 2 ^ 30" "cent 0x202 (e_trinfo e) < 2 ^ 30" "cent 0x203 (e_trinfo e) < 2 ^ 30"
  shows "length frame = 2 * mfm_units frame \<and> take 4 (drop 20 frame) = le32 (of_nat (length msg)) \<and>
    take (length msg) (drop 24 frame) = msg \<and>
    mfm_centrum frame = (and (cent 0x200 (e_trinfo e)) 0x3F, cent 0x201 (e_trinfo e),
       cent 0x202 (e_trinfo e), cent 0x203 (e_trinfo e))"
proof -
  let ?ts = "e_trinfo e" and ?sz = "mfm_size (length msg)"
  let ?w = "mfm_words (cent 0x200 ?ts) (cent 0x201 ?ts) (cent 0x202 ?ts) (cent 0x203 ?ts)"
  let ?d = "take (?sz - 24) (msg @ past)"
  note b = mfm_size_bounds [of "length msg"]
  have f: "frame = mfm_lead ?sz @ ?w @ le32 (of_nat (length msg)) @ ?d"
    and z: "?sz \<le> MFM_BUFFER" "?sz - 24 \<le> length (msg @ past)"
    using assms(1,2) mfm_header [OF length_mfm_lead assms(3), of ?sz]
    by (auto simp: mfm_frame_def Let_def mfm_start_words mfm_length_le32 split: if_splits)
  have l: "length frame = ?sz" using f z b by (simp add: length_mfm_words)
  have "mfm_units frame = mfm_units (mfm_start ?sz @ [])"
    unfolding f mfm_start_words mfm_units_def by (simp add: nth_append)
  also have "\<dots> = ?sz div 2" using z by (intro mfm_start_units) (simp add: MFM_BUFFER_def)
  finally have "length frame = 2 * mfm_units frame" using l b(3) by simp
  moreover have "take (length msg) ?d = msg" using b(1) by (simp add: min_def)
  then have "take 4 (drop 20 frame) = le32 (of_nat (length msg))" "take (length msg) (drop 24 frame) = msg"
    unfolding f by (simp_all add: length_mfm_words)
  moreover have "mfm_centrum frame = (and (cent 0x200 ?ts) 0x3F, cent 0x201 ?ts, cent 0x202 ?ts, cent 0x203 ?ts)"
    unfolding f by (rule mfm_words_decode [OF length_mfm_lead assms(4-6)])
  ultimately show ?thesis by blast
qed

text \<open>C37. The connection carries frames whole: what \<open>TcpWrite\<close> puts on the wire is always a
  beginning of the buffer, all of it when the result is OK, which it is when the socket is
  ready for at least a byte as often as there are bytes; and what the peer reads back with
  \<open>TcpRead\<close>, in whatever pieces, is the buffer.\<close>

theorem tcp_carries:
  assumes "buf \<noteq> []"
  shows "(\<forall>r w rest. TcpWrite timed os buf = Some (r, w, rest) \<longrightarrow>
      w = take (length w) buf \<and> (r = R_OK \<longrightarrow> w = buf)) \<and>
    (list_all (\<lambda>a. \<exists>k>0. a = Ready k) os \<and> length buf \<le> length os \<longrightarrow>
      (\<exists>rest. TcpWrite timed os buf = Some (R_OK, buf, rest))) \<and>
    (\<forall>os' w more. TcpRead timed os' (buf @ more) (length buf) = Some (R_OK, w) \<longrightarrow> w = buf)"
proof (intro conjI allI impI)
  fix r w rest assume "TcpWrite timed os buf = Some (r, w, rest)"
  from TcpWrite_prefix [OF this] show "w = take (length w) buf" "r = R_OK \<Longrightarrow> w = buf" by blast+
next
  assume "list_all (\<lambda>a. \<exists>k>0. a = Ready k) os \<and> length buf \<le> length os"
  then show "\<exists>rest. TcpWrite timed os buf = Some (R_OK, buf, rest)"
    using TcpWrite_finishes assms by (cases os) auto
next
  fix os' w more assume "TcpRead timed os' (buf @ more) (length buf) = Some (R_OK, w)"
  from TcpRead_prefix [OF this] show "w = buf" by simp
qed

definition trig_event :: FzEvent where
  "trig_event = new_FzEvent\<lparr>e_trinfo := [
     \<lparr>ti_id = Some 0x203, ti_attr = None, ti_value = Some 7\<rparr>,
     \<lparr>ti_id = Some 0x100, ti_attr = None, ti_value = Some 9\<rparr>,
     \<lparr>ti_id = Some 0x201, ti_attr = None, ti_value = Some 0x3FFFFFFF\<rparr>]\<rparr>"

theorem mfm_frame_decodes_witness:
  "\<exists>frame. mfm_frame (\<lambda>_. 3) [0] [1, 2, 3] [trig_event] = Inr frame \<and> length frame = 28 \<and>
     mfm_centrum frame = (0, 0x3FFFFFFF, 0, 7)"
proof -
  have s: "mfm_size 3 = 28" by (simp add: mfm_size_def)
  have c: "cent 0x200 (e_trinfo trig_event) = 0" "cent 0x201 (e_trinfo trig_event) = 0x3FFFFFFF"
    "cent 0x202 (e_trinfo trig_event) = 0" "cent 0x203 (e_trinfo trig_event) = 7"
    and o: "centrum_once (e_trinfo trig_event)"
    by (simp_all add: trig_event_def new_FzEvent_def cent_def centrum_once_def)
  have d: "\<exists>frame. mfm_frame (\<lambda>_. 3) [0] [1, 2, 3] [trig_event] = Inr frame"
    by (simp add: mfm_frame_def s MFM_BUFFER_def)
  then obtain frame where f: "mfm_frame (\<lambda>_. 3) [0] [1, 2, 3] [trig_event] = Inr frame" by blast
  have "length frame = 28"
    using f mfm_header [OF length_mfm_lead o, of 28]
    by (auto simp: mfm_frame_def s MFM_BUFFER_def mfm_start_words length_mfm_words mfm_length_le32)
  moreover have "mfm_centrum frame = (0, 0x3FFFFFFF, 0, 7)"
    using mfm_frame_decodes [OF f _ o] by (simp add: c)
  ultimately show ?thesis using f by blast
qed

theorem tcp_carries_witness:
  "\<exists>rest. TcpWrite True [Ready 2, Ready 5, Timeout, Ready 1] [1, 2, 3] = Some (R_OK, [1, 2, 3], rest)"
proof -
  have "\<exists>rest. TcpWrite True [Ready 2, Ready 5, Ready 1] [1, 2, 3] = Some (R_OK, [1, 2, 3], rest)"
    using tcp_carries [of "[1, 2, 3]" True "[Ready 2, Ready 5, Ready 1]"] by simp
  then show ?thesis by (simp add: at_once_def TcpWind_def)
qed

subsection \<open>The descriptors of the transmitter\<close>

lemma TcpOpen_balance:
  assumes "TcpOpen nt sid ip sport dport tmo fds = Some (err, s, fds')"
  shows "fds' = (if err = R_OK then s # fds else fds)"
  using assms
proof (cases "tcp_mode ip sid")
  case CLONE
  have "tcp_clone timed as sid fds = Some (err, s, fds') \<Longrightarrow> fds' = (if err = R_OK then s # fds else fds)" for timed as
    by (induction timed as sid fds rule: tcp_clone.induct)
       (auto simp: R_OK_def R_TCP_TIMEOUT_def R_TCP_ACCEPT_def split: if_splits)
  with assms CLONE show ?thesis by (simp add: TcpOpen_def)
qed (auto simp: TcpOpen_def tcp_serve_def tcp_client_def Let_def R_OK_def R_TCP_SOCKET_def R_TCP_BIND_def
    R_TCP_LISTEN_def R_TCP_DNS_def R_TCP_CONNECT_def split: if_splits option.splits)

text \<open>The descriptor of a connection among those of the process.\<close>

definition own_sockets :: "fdtTransmitter \<Rightarrow> int list" where
  "own_sockets f = (if isConnected f then [ConnectionSocket f] else [])"

lemma disconnect_closes:
  "fdt_disconnect (f, own_sockets f @ fds) = (f\<lparr>ConnectionSocket := -1\<rparr>, fds)"
  by (simp add: fdt_disconnect_def own_sockets_def TcpClose_def)

lemma connect_outcome:
  assumes "fdt_connect nt s0 fh port (f, own_sockets f @ fds) = Some (err, f', fds')"
  shows "fds' = own_sockets f' @ fds \<and> fdt_Timeout f' = fdt_Timeout f \<and> (isConnected f' \<longleftrightarrow> err = R_OK)"
proof -
  obtain s where o: "TcpOpen nt s0 (Some fh) 0 port 0 fds = Some (err, s, fds')"
    and f': "f' = (if err = R_OK then f\<lparr>ConnectionSocket := s\<rparr> else f\<lparr>ConnectionSocket := -1\<rparr>)"
    using assms by (auto simp: fdt_connect_def disconnect_closes)
  have "s \<ge> 0" if "err = R_OK"
    using o that by (auto simp: TcpOpen_def tcp_mode_def tcp_client_def Let_def R_OK_def R_TCP_SOCKET_def
        R_TCP_DNS_def R_TCP_CONNECT_def split: if_splits option.splits)
  with TcpOpen_balance [OF o] f' show ?thesis by (auto simp: own_sockets_def isConnected_def)
qed

lemma connect_returns: "fdt_connect nt s0 fh port st \<noteq> None"
  by (simp add: fdt_connect_def case_prod_unfold Let_def TcpOpen_def tcp_mode_def)

definition tx_ok :: "int list \<Rightarrow> tx_state \<Rightarrow> bool" where
  "tx_ok fds st \<longleftrightarrow> snd st = own_sockets (fst st) @ fds \<and> fdt_Timeout (fst st) = 10"

lemma tx_round_ok:
  assumes "tx_round parse byte_size fh fp i st = Inr (Some (err, w, st'))" "tx_ok fds st"
  shows "tx_ok fds st' \<and> (isConnected (fst st) \<longrightarrow> (isConnected (fst st') \<longleftrightarrow> err = R_OK))"
proof (cases "parse (in_msg i)")
  case None
  then show ?thesis using assms by (simp add: tx_round_def)
next
  case (Some evs)
  obtain f where f: "st = (f, own_sockets f @ fds)" "fdt_Timeout f = 10"
    using assms(2) by (cases st) (simp add: tx_ok_def)
  obtain frame os e' w' where s: "fdt_send (in_socks i) frame f = Inr (Some (e', w', os))"
    "(if e' \<noteq> R_OK then map_option (\<lambda>(err', st'). (err', w', st')) (fdt_connect (in_net i) (in_s0 i) fh (uint fp) st)
      else Some (e', w', st)) = Some (err, w, st')"
    using assms(1) Some f(1) by (auto simp: tx_round_def bindE_Inr_iff split: option.splits)
  show ?thesis
  proof (cases "e' = R_OK")
    case True
    with s(2) f show ?thesis by (auto simp: tx_ok_def)
  next
    case False
    then have "fdt_connect (in_net i) (in_s0 i) fh (uint fp) (f, own_sockets f @ fds) = Some (err, st')"
      using s(2) f(1) by auto
    then obtain f' fds' where "st' = (f', fds')"
      "fdt_connect (in_net i) (in_s0 i) fh (uint fp) (f, own_sockets f @ fds) = Some (err, f', fds')" by (cases st') auto
    with connect_outcome [OF this(2)] f(2) show ?thesis by (simp add: tx_ok_def)
  qed
qed

text \<open>
  C21. The transmitter never has more than one descriptor of its own, closes it before it opens
  another and leaks none, however often the connection fails. Once an attempt to reconnect has
  failed, though, the next event that is taken is sent to the descriptor -1, which no check
  keeps from the descriptor set of \<open>select\<close>.
\<close>

theorem tx_descriptors:
  assumes "tx_start opts sub spy nt s0 fds = Inr (Some (fh, fp, st0))" "tx_reach parse byte_size fh fp st0 st"
  shows "snd st = own_sockets (fst st) @ fds \<and>
    (\<forall>i err w st'. tx_round parse byte_size fh fp i st = Inr (Some (err, w, st')) \<and> isConnected (fst st) \<longrightarrow>
       (isConnected (fst st') \<longleftrightarrow> err = R_OK)) \<and>
    (\<not> isConnected (fst st) \<longrightarrow> (\<forall>i evs frame. parse (in_msg i) = Some evs \<and>
       mfm_frame byte_size (in_past i) (in_msg i) evs = Inr frame \<longrightarrow>
       tx_round parse byte_size fh fp i st = Inl Bad_socket))"
proof -
  have "fdt_connect nt s0 fh (uint fp) (setTimeout 10 new_fdt, own_sockets (setTimeout 10 new_fdt) @ fds) = Some (R_OK, st0)"
    using assms(1) by (auto simp: tx_start_def own_sockets_def isConnected_def setTimeout_def new_fdt_def
        split: option.splits if_splits)
  with connect_outcome [of nt s0 fh "uint fp" "setTimeout 10 new_fdt" fds R_OK "fst st0" "snd st0"]
  have 0: "tx_ok fds st0" by (simp add: tx_ok_def setTimeout_def)
  from assms(2) have k: "tx_ok fds st"
    by (induction rule: tx_reach.induct) (use 0 tx_round_ok in blast)+
  have "isConnected (fst st') \<longleftrightarrow> err = R_OK"
    if "tx_round parse byte_size fh fp i st = Inr (Some (err, w, st'))" "isConnected (fst st)" for i err w st'
    using tx_round_ok [OF that(1) k] that(2) by blast
  moreover have "tx_round parse byte_size fh fp i st = Inl Bad_socket"
    if "\<not> isConnected (fst st)" "parse (in_msg i) = Some evs" "mfm_frame byte_size (in_past i) (in_msg i) evs = Inr frame"
    for i evs frame
    using that k by (simp add: tx_round_def fdt_send_def tx_ok_def)
  ultimately show ?thesis using k by (auto simp: tx_ok_def)
qed

definition fdt_net :: "bool \<Rightarrow> tcp_net" where
  "fdt_net up = \<lparr>nt_socket = 7, nt_bind = \<lambda>_. True, nt_listen = True, nt_accepts = [], nt_inet_addr = \<lambda>_. 1,
     nt_hostbyname = \<lambda>_. None, nt_connect = \<lambda>_ _. up\<rparr>"

text \<open>The server takes the connection, then goes away: the first event fails and leaves -1.\<close>

theorem tx_descriptors_witness:
  "\<exists>st0 st i. tx_start (Some \<lparr>tx_help = False, tx_sh = Some ''a'', tx_sp = None, tx_fh = Some ''1.2.3.4'', tx_fp = Some 80\<rparr>)
      True (\<lambda>ep. ep = ''tcp://a:5563'') (fdt_net True) 0 [0, 1, 2] = Inr (Some (''1.2.3.4'', 80, st0)) \<and>
     snd st0 = [7, 0, 1, 2] \<and> snd st = [0, 1, 2] \<and>
     tx_round (\<lambda>_. Some [new_FzEvent]) (\<lambda>_. 2) ''1.2.3.4'' 80 i st = Inl Bad_socket"
proof -
  let ?parse = "\<lambda>_ :: bytes. Some [new_FzEvent]" and ?size = "\<lambda>_ :: FzEvent list. 2 :: nat"
  let ?opt = "Some \<lparr>tx_help = False, tx_sh = Some ''a'', tx_sp = None, tx_fh = Some ''1.2.3.4'', tx_fp = Some 80\<rparr>"
  let ?i = "\<lparr>in_msg = [1, 2], in_past = [], in_socks = [Failure], in_net = fdt_net False, in_s0 = 0\<rparr>"
  let ?up = "(new_fdt\<lparr>ConnectionSocket := 7, fdt_Timeout := 10\<rparr>, [7, 0, 1, 2])"
  let ?st = "(new_fdt\<lparr>fdt_Timeout := 10\<rparr>, [0, 1, 2])"
  have a: "tcp_address (fdt_net b) ''1.2.3.4'' = Some 1" for b
    by (simp add: tcp_address_def fdt_net_def) code_simp
  have s: "tx_start ?opt True (\<lambda>ep. ep = ''tcp://a:5563'') (fdt_net True) 0 [0, 1, 2] = Inr (Some (''1.2.3.4'', 80, ?up))"
    by (simp add: tx_start_def spy_endpoint_def fdt_connect_def fdt_disconnect_def isConnected_def setTimeout_def
        new_fdt_def TcpOpen_def tcp_mode_def tcp_client_def a) (simp add: fdt_net_def R_OK_def)
  obtain frame where m: "mfm_frame ?size [] [1, 2] [new_FzEvent] = Inr frame"
    by (simp add: mfm_frame_def mfm_size_def MFM_BUFFER_def)
  have r: "tx_round ?parse ?size ''1.2.3.4'' 80 ?i ?up = Inr (Some (R_TCP_CONNECT, [], ?st))"
    by (simp add: tx_round_def m fdt_send_def fdt_connect_def fdt_disconnect_def isConnected_def new_fdt_def
        TcpOpen_def tcp_mode_def tcp_client_def a TcpClose_def)
      (simp add: fdt_net_def R_OK_def R_TCP_WRITE_def R_TCP_CONNECT_def)
  have "tx_reach ?parse ?size ''1.2.3.4'' 80 ?up ?st" by (rule tx_reach.round [OF tx_reach.start r])
  from tx_descriptors [OF s this] have "tx_round ?parse ?size ''1.2.3.4'' 80 ?i ?st = Inl Bad_socket"
    using m by (simp add: isConnected_def new_fdt_def)
  with s show ?thesis by (intro exI [of _ ?up] exI [of _ ?st] exI [of _ ?i]) simp
qed

end
