(* ===== verification/FzPipeline.thy ===== *)
theory FzPipeline
  imports FzParser FzWriter "HOL-Library.Multiset" "HOL-Library.Sublist"
begin

section \<open>From packets to files\<close>

text \<open>
  The threads of one node joined by their sockets. The reader pushes each event to one of the
  parsers, whichever the socket chooses; each parser pushes its messages to the writer, which
  takes them in any interleaving, those of one parser in order. A round of a thread happens
  only while it is running; the node manager sets the state of each thread on its own.
  \<open>ln_parsed\<close> and the list of packets of \<open>pl_run\<close> record the past for the proofs.
\<close>

subsection \<open>The steps\<close>

record lane =
  ln_psr :: parser
  ln_queue :: "bytes list"
  ln_taken :: nat
  ln_parsed :: "bytes list"

record pipeline =
  pl_rd :: reader
  pl_routed :: nat
  pl_lanes :: "lane list"
  pl_wr :: writer

type_synonym coder = "FzEvent list \<Rightarrow> bool \<times> bytes"

text \<open>A round of a parser: a message of its queue, or a timeout.\<close>

inductive lane_step :: "coder \<Rightarrow> lane \<Rightarrow> lane \<Rightarrow> bool" for ser where
  parse: "ps_rcstate (ln_psr l) = RUNNING \<Longrightarrow> ln_queue l = m # q \<Longrightarrow>
    parser_round ser (Got m) (ln_psr l) = Some (Inr ps) \<Longrightarrow>
    lane_step ser l (l\<lparr>ln_psr := ps, ln_queue := q, ln_parsed := ln_parsed l @ [m]\<rparr>)"
| wait: "parser_round ser Timeout (ln_psr l) = Some (Inr ps) \<Longrightarrow> lane_step ser l (l\<lparr>ln_psr := ps\<rparr>)"

text \<open>The disk takes new directories, and the file number does not wrap around.\<close>

definition disk_ok :: "world \<Rightarrow> writer \<Rightarrow> bool" where
  "disk_ok env w \<longleftrightarrow> w_mkdir env \<and> unat (ww_fileid w) + 1 < 2 ^ 32"

definition route_to :: "bytes \<Rightarrow> lane \<Rightarrow> lane" where
  "route_to m l = l\<lparr>ln_queue := ln_queue l @ [m]\<rparr>"

definition take_one :: "lane \<Rightarrow> lane" where
  "take_one l = l\<lparr>ln_taken := ln_taken l + 1\<rparr>"

definition lane_set_rcstate :: "RCstate \<Rightarrow> lane \<Rightarrow> lane" where
  "lane_set_rcstate s l = l\<lparr>ln_psr := ps_set_rcstate s (ln_psr l)\<rparr>"

inductive pl_step :: "coder \<Rightarrow> pipeline \<Rightarrow> pipeline \<Rightarrow> bool" for ser where
  route: "pl_lanes p = as @ l # bs \<Longrightarrow> pl_routed p < length (rd_sent (pl_rd p)) \<Longrightarrow>
    pl_step ser p (p\<lparr>pl_routed := pl_routed p + 1,
      pl_lanes := as @ route_to (rd_sent (pl_rd p) ! pl_routed p) l # bs\<rparr>)"
| parser: "pl_lanes p = as @ l # bs \<Longrightarrow> lane_step ser l l' \<Longrightarrow> pl_step ser p (p\<lparr>pl_lanes := as @ l' # bs\<rparr>)"
| store: "pl_lanes p = as @ l # bs \<Longrightarrow> ln_taken l < length (ps_sent (ln_psr l)) \<Longrightarrow>
    ww_rcstate (pl_wr p) = RUNNING \<Longrightarrow> disk_ok env (pl_wr p) \<Longrightarrow>
    pl_step ser p (p\<lparr>pl_lanes := as @ take_one l # bs,
      pl_wr := writer_round env (Some (ps_sent (ln_psr l) ! ln_taken l)) (pl_wr p)\<rparr>)"
| idle: "pl_step ser p (p\<lparr>pl_wr := writer_round env None (pl_wr p)\<rparr>)"
| control_reader: "pl_step ser p (p\<lparr>pl_rd := rd_set_rcstate s (pl_rd p)\<rparr>)"
| control_parser: "pl_lanes p = as @ l # bs \<Longrightarrow> pl_step ser p (p\<lparr>pl_lanes := as @ lane_set_rcstate s l # bs\<rparr>)"
| control_writer: "disk_ok env (pl_wr p) \<Longrightarrow> pl_step ser p (p\<lparr>pl_wr := wr_set_rcstate env s (pl_wr p)\<rparr>)"

inductive pl_run :: "coder \<Rightarrow> pipeline \<Rightarrow> bytes list \<Rightarrow> pipeline \<Rightarrow> bool" for ser p0 where
  start: "pl_run ser p0 [] p0"
| packet: "pl_run ser p0 pkts p \<Longrightarrow> rd_rcstate (pl_rd p) = RUNNING \<Longrightarrow>
    reader_round (Some (stale, pkt)) (pl_rd p) = Inr rd \<Longrightarrow> pl_run ser p0 (pkts @ [pkt]) (p\<lparr>pl_rd := rd\<rparr>)"
| step: "pl_run ser p0 pkts p \<Longrightarrow> pl_step ser p p' \<Longrightarrow> pl_run ser p0 pkts p'"

definition new_lane :: "int \<Rightarrow> fsm \<Rightarrow> lane" where
  "new_lane evf sm = \<lparr>ln_psr = new_parser evf sm, ln_queue = [], ln_taken = 0, ln_parsed = []\<rparr>"

definition pl_start :: "int \<Rightarrow> fsm list \<Rightarrow> writer \<Rightarrow> pipeline" where
  "pl_start evf mems wr = \<lparr>pl_rd = new_reader False, pl_routed = 0, pl_lanes = map (new_lane evf) mems, pl_wr = wr\<rparr>"

text \<open>Nothing is left on the way.\<close>

definition drained :: "pipeline \<Rightarrow> bool" where
  "drained p \<longleftrightarrow> pl_routed p = length (rd_sent (pl_rd p)) \<and>
     (\<forall>l\<in>set (pl_lanes p). ln_queue l = [] \<and> ln_taken l = length (ps_sent (ln_psr l)))"

subsection \<open>The reader\<close>

definition good_datagram :: "bytes \<Rightarrow> bool" where
  "good_datagram pkt \<longleftrightarrow> even (length pkt) \<and> 6 \<le> length pkt \<and> length pkt \<le> NS_UDP_RECEIVE_BUFFER_SIZE"

definition words_in :: "bytes list \<Rightarrow> u16 list" where
  "words_in pkts = concat (map (\<lambda>pkt. payload (pkt, length pkt)) pkts)"

text \<open>No event in the stream reaches the size limit before it is closed.\<close>

definition open_small :: "bytes list \<Rightarrow> bool" where
  "open_small pkts \<longleftrightarrow> (\<forall>k\<le>length pkts. length (snd (cut (words_in (take k pkts)))) < MAX_EVENT_SIZE)"

definition reader_at :: "bytes list \<Rightarrow> reader \<Rightarrow> bool" where
  "reader_at pkts r \<longleftrightarrow> \<not> rd_rec r \<and> rd_sent r = map bytes_of (fst (cut (words_in pkts))) \<and>
     rd_chunk r = snd (cut (words_in pkts))"

lemma words_in_snoc: "words_in (pkts @ [pkt]) = words_in pkts @ payload (pkt, length pkt)"
  by (simp add: words_in_def)

lemma cut_append: "cut (ws @ vs) =
    (fst (cut ws) @ fst (fold cut_word vs ([], snd (cut ws))), snd (fold cut_word vs ([], snd (cut ws))))"
  using fold_cut_word [of vs "fst (cut ws)" "snd (cut ws)"] by (simp add: cut_def)

lemma open_small_snoc:
  "open_small (pkts @ [pkt]) \<Longrightarrow> open_small pkts \<and> length (snd (cut (words_in (pkts @ [pkt])))) < MAX_EVENT_SIZE"
  unfolding open_small_def by (auto dest: spec [of _ "Suc (length pkts)"]) (metis le_SucI order_refl take_append diff_is_0_eq take0 append_Nil2)

text \<open>The bytes an earlier datagram left in the buffer do not matter.\<close>

lemma payload_stale:
  assumes "even (length pkt)" "6 \<le> length pkt"
  shows "payload (pkt @ x, length pkt) = payload (pkt, length pkt)"
proof -
  have w: "words_of (pkt @ x) = words_of pkt @ words_of x" using assms(1) by (rule words_of_append_even)
  have "3 \<le> length (words_of pkt)" using assms(2) by simp
  then have "word_at (pkt @ x) i = word_at pkt i" if "i < 3" for i
    using that by (simp add: word_at_words_of w nth_opt_def nth_append)
  then have "word_at (pkt @ x) 0 = word_at pkt 0" "word_at (pkt @ x) 1 = word_at pkt 1"
    "word_at (pkt @ x) 2 = word_at pkt 2" by simp_all
  then have "data_offset (pkt @ x) = data_offset pkt" by (simp only: data_offset_def)
  moreover have "take (length pkt div 2) (words_of (pkt @ x)) = take (length pkt div 2) (words_of pkt)" by (simp add: w)
  ultimately show ?thesis by (simp only: payload_def prod.case)
qed

lemma reader_packet:
  assumes "reader_at pkts r" "good_datagram pkt" "rd_rcstate r = RUNNING"
    and "length (snd (cut (words_in (pkts @ [pkt])))) < MAX_EVENT_SIZE"
    and "reader_round (Some (stale, pkt)) r = Inr r'"
  shows "reader_at (pkts @ [pkt]) r'"
proof -
  let ?n = "length pkt" and ?buf = "pkt @ drop (length pkt) stale"
  have n: "even ?n" "6 \<le> ?n" "?n \<le> NS_UDP_RECEIVE_BUFFER_SIZE" using assms(2) by (simp_all add: good_datagram_def)
  have pay: "payload (?buf, ?n) = payload (pkt, ?n)" by (rule payload_stale [OF n(1,2)])
  let ?c = "fold cut_word (payload (pkt, ?n)) ([], rd_chunk r)"
  have e: "cut (words_in (pkts @ [pkt])) = (fst (cut (words_in pkts)) @ fst ?c, snd ?c)"
    using assms(1) by (simp add: words_in_snoc cut_append reader_at_def)
  have "?n \<noteq> 0" using n(2) by linarith
  then have "udp_handler_recv ?buf ?n r = Inr r'"
    using assms(3,5) n(3) by (simp add: reader_round_def ns_handle_udp_def Let_def udp_handler_def)
  moreover obtain r1 where "udp_handler_recv ?buf ?n r = Inr r1" "\<not> rd_rec r1"
      "rd_sent r1 = rd_sent r @ map bytes_of (fst ?c)" "rd_chunk r1 = snd ?c"
    using udp_handler_recv_cut [OF n(1,2), of ?buf r] assms(1,4) e pay by (auto simp: reader_at_def)
  ultimately show ?thesis using assms(1) e by (simp add: reader_at_def)
qed

lemma event_size:
  assumes "\<forall>pkt\<in>set pkts. good_datagram pkt" "open_small pkts" "e \<in> set (fst (cut (words_in pkts)))"
  shows "length e < 2 ^ 32"
  using assms
proof (induction pkts rule: rev_induct)
  case Nil
  then show ?case by (simp add: words_in_def cut_def)
next
  case (snoc pkt pkts)
  let ?W = "words_in pkts" and ?P = "payload (pkt, length pkt)"
  have o: "open_small pkts" using open_small_snoc snoc.prems(2) by blast
  obtain es c where ec: "fold cut_word ?P ([], snd (cut ?W)) = (es, c)" by fastforce
  obtain es0 c0 where c0: "cut ?W = (es0, c0)" by fastforce
  then have "\<forall>w\<in>set c0. \<not> is_eoe w" using cut_split [of "[]" ?W es0 c0] by (simp add: cut_def)
  from cut_split [OF this, of ?P es c] ec c0 have "concat es @ c = c0 @ ?P" by simp
  from arg_cong [OF this, of length] have "length (concat es) \<le> length c0 + length ?P" by simp
  moreover have "length c0 < MAX_EVENT_SIZE" using o c0 unfolding open_small_def by (metis order_refl snd_conv take_all_iff)
  moreover have "length ?P \<le> 65000"
    using snoc.prems(1) by (auto simp: payload_def good_datagram_def NS_UDP_RECEIVE_BUFFER_SIZE_def split: sum.split)
  ultimately have "length (concat es) < 2 ^ 32" by (simp add: MAX_EVENT_SIZE_def)
  moreover have "length e \<le> length (concat es)" if "e \<in> set es"
    using split_list [OF that] by auto
  moreover have "e \<in> set es0 \<or> e \<in> set es"
    using snoc.prems(3) ec c0 by (simp add: words_in_snoc cut_append)
  moreover have "length e < 2 ^ 32" if "e \<in> set es0"
    using snoc.IH [OF _ o] snoc.prems(1) c0 that by simp
  ultimately show ?case by (meson le_less_trans)
qed

subsection \<open>The parsers\<close>

text \<open>What a parser makes of the words of an event, in some earlier state of its machine.\<close>

definition parsed_words :: "coder \<Rightarrow> int \<Rightarrow> u16 list \<Rightarrow> bytes list \<Rightarrow> bool" where
  "parsed_words ser fmt e os \<longleftrightarrow>
     (\<exists>s retval t. fsm_process (fsm_import e (fsm_init fmt s)) = Some (Inr (retval, t)) \<and>
        os = (if retval = PARSE_OK \<and> \<not> event_is_empty t then [snd (ser [ev t])] else []))"

definition lane_ok :: "coder \<Rightarrow> int \<Rightarrow> lane \<Rightarrow> bool" where
  "lane_ok ser fmt l \<longleftrightarrow> ps_evformat (ln_psr l) = fmt \<and> ln_taken l \<le> length (ps_sent (ln_psr l)) \<and>
     (\<exists>outs. list_all2 (\<lambda>m os. parsed_words ser fmt (event_words m) os) (ln_parsed l) outs \<and>
        ps_sent (ln_psr l) = concat outs)"

lemma parser_round_format:
  assumes "parser_round ser inp p = Some (Inr q)"
  shows "ps_evformat q = ps_evformat p"
  using assms
  by (auto simp: parser_round_def parser_recv_def parser_clear_def parser_emit_def parser_send_def count_in_def Let_def
      case_prod_unfold elim!: parser_message_Inr split: if_splits recv_result.splits)

lemma lane_step_ok:
  assumes "lane_step ser l l'" "lane_ok ser fmt l"
  shows "lane_ok ser fmt l' \<and> ln_parsed l' @ ln_queue l' = ln_parsed l @ ln_queue l \<and> ln_taken l' = ln_taken l \<and>
    take (ln_taken l) (ps_sent (ln_psr l')) = take (ln_taken l) (ps_sent (ln_psr l))"
  using assms
proof (induction rule: lane_step.induct)
  case (parse l m q ps)
  obtain outs where o: "ps_evformat (ln_psr l) = fmt" "ln_taken l \<le> length (ps_sent (ln_psr l))"
    "list_all2 (\<lambda>m os. parsed_words ser fmt (event_words m) os) (ln_parsed l) outs" "ps_sent (ln_psr l) = concat outs"
    using parse.prems by (auto simp: lane_ok_def)
  from parser_round_result [OF parse.hyps(1,3)] obtain retval t where
    r: "run_fsm m (ln_psr l) = Some (Inr (retval, t))"
    "ps_sent ps = ps_sent (ln_psr l) @ (if retval = PARSE_OK \<and> \<not> event_is_empty t then [snd (ser [ev t])] else [])"
    by (auto split: if_splits)
  let ?os = "if retval = PARSE_OK \<and> \<not> event_is_empty t then [snd (ser [ev t])] else []"
  have "parsed_words ser fmt (event_words m) ?os"
    unfolding parsed_words_def using r(1) o(1) by (auto simp: run_fsm_def)
  then have "list_all2 (\<lambda>m os. parsed_words ser fmt (event_words m) os) (ln_parsed l @ [m]) (outs @ [?os])"
    using o(3) by (simp add: list_all2_appendI)
  moreover have "ps_sent ps = concat (outs @ [?os])" using r(2) o(4) by simp
  moreover have "ps_evformat ps = fmt" using parser_round_format [OF parse.hyps(3)] o(1) by simp
  ultimately show ?case using o(2) r(2) parse.hyps(2) unfolding lane_ok_def by (auto intro!: exI [of _ "outs @ [?os]"])
next
  case (wait l ps)
  have "ps_sent ps = ps_sent (ln_psr l)" "ps_evformat ps = ps_evformat (ln_psr l)"
    using wait.hyps by (auto simp: parser_round_def parser_recv_def split: if_splits)
  then show ?case using wait.prems by (simp add: lane_ok_def)
qed

subsection \<open>What every run keeps\<close>

text \<open>\<open>merged f ls xs\<close>: \<open>xs\<close> has the elements of the lists \<open>f l\<close>, each list in its order.\<close>

definition merged :: "('l \<Rightarrow> 'a list) \<Rightarrow> 'l list \<Rightarrow> 'a list \<Rightarrow> bool" where
  "merged f ls xs \<longleftrightarrow> mset xs = (\<Sum>l\<leftarrow>ls. mset (f l)) \<and> (\<forall>l\<in>set ls. subseq (f l) xs)"

lemma merged_Nil: "(\<And>l. l \<in> set ls \<Longrightarrow> f l = []) \<Longrightarrow> merged f ls []"
  unfolding merged_def by (induction ls) auto

lemma merged_same: "merged f (as @ l # bs) xs \<Longrightarrow> f l' = f l \<Longrightarrow> merged f (as @ l' # bs) xs"
  by (simp add: merged_def)

lemma merged_snoc:
  assumes "merged f (as @ l # bs) xs" "f l' = f l @ [x]"
  shows "merged f (as @ l' # bs) (xs @ [x])"
  using assms by (auto simp: merged_def subseq_rev_drop_many intro: list_emb_append2 subseq_append_iff [THEN iffD2])

lemma merged_single: "merged f [l] xs \<Longrightarrow> f l = xs"
  unfolding merged_def using mset_eq_length [of xs "f l"] subseq_same_length [of "f l" xs] by simp

definition arrived :: "lane \<Rightarrow> bytes list" where
  "arrived l = ln_parsed l @ ln_queue l"

definition written :: "lane \<Rightarrow> bytes list" where
  "written l = take (ln_taken l) (ps_sent (ln_psr l))"

lemma lane_frame [simp]:
  "arrived (route_to m l) = arrived l @ [m]" "written (route_to m l) = written l"
  "lane_ok ser fmt (route_to m l) = lane_ok ser fmt l"
  "arrived (take_one l) = arrived l"
  "arrived (lane_set_rcstate s l) = arrived l" "written (lane_set_rcstate s l) = written l"
  "lane_ok ser fmt (lane_set_rcstate s l) = lane_ok ser fmt l"
  by (simp_all add: arrived_def written_def route_to_def take_one_def lane_set_rcstate_def lane_ok_def ps_set_rcstate_def)

lemma take_one_written:
  "ln_taken l < length (ps_sent (ln_psr l)) \<Longrightarrow> written (take_one l) = written l @ [ps_sent (ln_psr l) ! ln_taken l]"
  "ln_taken l < length (ps_sent (ln_psr l)) \<Longrightarrow> lane_ok ser fmt l \<Longrightarrow> lane_ok ser fmt (take_one l)"
  by (simp_all add: written_def take_one_def take_Suc_conv_app_nth lane_ok_def)

text \<open>What was routed went to the parsers; what was written is in the files.\<close>

definition on_way :: "coder \<Rightarrow> int \<Rightarrow> pipeline \<Rightarrow> bool" where
  "on_way ser fmt p \<longleftrightarrow> pl_routed p \<le> length (rd_sent (pl_rd p)) \<and>
     merged arrived (pl_lanes p) (take (pl_routed p) (rd_sent (pl_rd p))) \<and> (\<forall>l\<in>set (pl_lanes p). lane_ok ser fmt l)"

text \<open>
  What the pipeline asks of its end: a store that keeps the messages it took, in their order. Fed
  from several lanes it holds a merge of what it took from each.
\<close>

locale message_store =
  fixes put :: "'e \<Rightarrow> 'm \<Rightarrow> 's \<Rightarrow> 's" and ready :: "'e \<Rightarrow> 's \<Rightarrow> bool" and holds :: "'m list \<Rightarrow> 's \<Rightarrow> bool"
  assumes put_holds: "ready env s \<Longrightarrow> holds ms s \<Longrightarrow> holds (ms @ [m]) (put env m s)"
begin

definition takes :: "('l \<Rightarrow> 'm list) \<Rightarrow> 'l list \<Rightarrow> 's \<Rightarrow> bool" where
  "takes f ls s \<longleftrightarrow> (\<exists>ms. holds ms s \<and> merged f ls ms)"

lemma takes_put:
  "takes f (as @ l # bs) s \<Longrightarrow> ready env s \<Longrightarrow> f l' = f l @ [m] \<Longrightarrow> takes f (as @ l' # bs) (put env m s)"
  unfolding takes_def by (elim exE conjE, rule exI, rule conjI [OF put_holds merged_snoc])

lemma takes_same: "takes f (as @ l # bs) s \<Longrightarrow> f l' = f l \<Longrightarrow> takes f (as @ l' # bs) s"
  unfolding takes_def by (elim exE conjE, rule exI, rule conjI [OF _ merged_same])

lemma takes_keep: "takes f ls s \<Longrightarrow> (\<And>ms. holds ms s \<Longrightarrow> holds ms s') \<Longrightarrow> takes f ls s'"
  unfolding takes_def by blast

lemma takes_start: "holds [] s \<Longrightarrow> (\<And>l. l \<in> set ls \<Longrightarrow> f l = []) \<Longrightarrow> takes f ls s"
  unfolding takes_def using merged_Nil by blast

end

text \<open>The writer is one: its files hold the messages, it stores and its directories are sound.\<close>

definition wr_holds :: "bytes list \<Rightarrow> writer \<Rightarrow> bool" where
  "wr_holds ms w \<longleftrightarrow> dirs_ok w \<and> ww_store w \<and> (\<exists>hist. stored hist w \<and> concat (map snd hist) = ms)"

definition wr_ready :: "world \<Rightarrow> writer \<Rightarrow> bool" where
  "wr_ready env w \<longleftrightarrow> ww_rcstate w = RUNNING \<and> disk_ok env w"

lemma writer_round_holds:
  assumes "wr_ready env w" "wr_holds ms w"
  shows "wr_holds (ms @ [m]) (writer_round env (Some m) w)"
proof -
  obtain hist where hist: "stored hist w" "concat (map snd hist) = ms" using assms(2) by (auto simp: wr_holds_def)
  then obtain h f xs where h: "hist = h @ [(f, xs)]" by (cases hist rule: rev_cases) (auto simp: stored_def)
  from assms have w: "dirs_ok w" "ww_rcstate w = RUNNING" "ww_store w" "disk_ok env w"
    by (simp_all add: wr_holds_def wr_ready_def)
  obtain hist' where "stored hist' (writer_round env (Some m) w)" "concat (map snd hist') = ms @ [m]"
    "dirs_ok (writer_round env (Some m) w)" "ww_store (writer_round env (Some m) w)"
    using round_stored [OF hist(1) [unfolded h] w(1-3), of env m] w(3,4) hist(2) h
    by (auto simp: same_setup_def disk_ok_def)
  then show ?thesis unfolding wr_holds_def by blast
qed

lemma set_rcstate_holds:
  assumes "disk_ok env w" "wr_holds ms w"
  shows "wr_holds ms (wr_set_rcstate env s w)"
proof -
  obtain hist where h: "stored hist w" "concat (map snd hist) = ms" "dirs_ok w" "ww_store w"
    using assms(2) by (auto simp: wr_holds_def)
  obtain hist' where "stored hist' (wr_set_rcstate env s w)" "concat (map snd hist') = ms"
    "dirs_ok (wr_set_rcstate env s w)" "ww_store (wr_set_rcstate env s w)"
    using set_rcstate_stored [OF h(1,3), of env s] h(2,4) assms(1) by (auto simp: disk_ok_def)
  then show ?thesis unfolding wr_holds_def by blast
qed

interpretation ws: message_store "\<lambda>env m. writer_round env (Some m)" wr_ready wr_holds
  by unfold_locales (rule writer_round_holds)

definition in_files :: "pipeline \<Rightarrow> bool" where
  "in_files p \<longleftrightarrow> ws.takes written (pl_lanes p) (pl_wr p)"

lemma pl_step_keeps:
  assumes "pl_step ser p p'" "on_way ser fmt p" "in_files p"
  shows "on_way ser fmt p' \<and> in_files p' \<and> rd_sent (pl_rd p') = rd_sent (pl_rd p) \<and>
    rd_chunk (pl_rd p') = rd_chunk (pl_rd p) \<and> rd_rec (pl_rd p') = rd_rec (pl_rd p) \<and>
    length (pl_lanes p') = length (pl_lanes p)"
  using assms
proof (induction rule: pl_step.induct)
  case (route p as l bs)
  let ?m = "rd_sent (pl_rd p) ! pl_routed p"
  have "merged arrived (as @ route_to ?m l # bs) (take (pl_routed p) (rd_sent (pl_rd p)) @ [?m])"
    using route by (intro merged_snoc [where l = l]) (simp_all add: on_way_def)
  moreover have "ws.takes written (as @ route_to ?m l # bs) (pl_wr p)"
    by (rule ws.takes_same [where l = l]) (use route in \<open>simp_all add: in_files_def\<close>)
  ultimately show ?case using route by (auto simp: on_way_def in_files_def take_Suc_conv_app_nth)
next
  case (parser p as l bs l')
  have l: "lane_ok ser fmt l" using parser by (simp add: on_way_def)
  from lane_step_ok [OF parser.hyps(2) l] have l': "lane_ok ser fmt l'" "arrived l' = arrived l" "written l' = written l"
    by (simp_all add: arrived_def written_def)
  have "ws.takes written (as @ l' # bs) (pl_wr p)"
    by (rule ws.takes_same [where l = l]) (use parser l' in \<open>simp_all add: in_files_def\<close>)
  moreover have "merged arrived (as @ l' # bs) xs" if "merged arrived (as @ l # bs) xs" for xs
    using that l'(2) by (rule merged_same)
  ultimately show ?case using l' parser by (auto simp: on_way_def in_files_def)
next
  case (store p as l bs env)
  let ?m = "ps_sent (ln_psr l) ! ln_taken l"
  have "ws.takes written (as @ take_one l # bs) (writer_round env (Some ?m) (pl_wr p))"
    by (rule ws.takes_put [where l = l])
       (use store take_one_written(1) in \<open>simp_all add: in_files_def wr_ready_def\<close>)
  moreover have "merged arrived (as @ take_one l # bs) xs" if "merged arrived (as @ l # bs) xs" for xs
    using that by (rule merged_same) simp
  ultimately show ?case using store take_one_written(2) [OF store.hyps(2)] by (auto simp: on_way_def in_files_def)
next
  case (idle p env)
  have "writer_round env None (pl_wr p) = pl_wr p" by (simp add: writer_round_def)
  with idle show ?case by simp
next
  case (control_reader p s)
  then show ?case by (simp add: on_way_def in_files_def rd_set_rcstate_def)
next
  case (control_parser p as l bs s)
  have "ws.takes written (as @ lane_set_rcstate s l # bs) (pl_wr p)"
    by (rule ws.takes_same [where l = l]) (use control_parser in \<open>simp_all add: in_files_def\<close>)
  moreover have "merged arrived (as @ lane_set_rcstate s l # bs) xs" if "merged arrived (as @ l # bs) xs" for xs
    using that by (rule merged_same) simp
  ultimately show ?case using control_parser by (auto simp: on_way_def in_files_def)
next
  case (control_writer env p s)
  then have "ws.takes written (pl_lanes p) (wr_set_rcstate env s (pl_wr p))"
    using ws.takes_keep [of written "pl_lanes p" "pl_wr p"] set_rcstate_holds by (simp add: in_files_def)
  with control_writer show ?case by (simp add: on_way_def in_files_def)
qed

lemma reader_at_grows:
  assumes "reader_at pkts r" "reader_at (pkts @ [pkt]) r'"
  shows "\<exists>xs. rd_sent r' = rd_sent r @ xs"
  using assms by (simp add: reader_at_def words_in_snoc cut_append)

lemma pl_run_keeps:
  assumes "pl_run ser p0 pkts p" "reader_at [] (pl_rd p0)" "on_way ser fmt p0" "in_files p0"
    and "\<forall>pkt\<in>set pkts. good_datagram pkt" "open_small pkts"
  shows "reader_at pkts (pl_rd p) \<and> on_way ser fmt p \<and> in_files p \<and> length (pl_lanes p) = length (pl_lanes p0)"
  using assms
proof (induction rule: pl_run.induct)
  case (packet pkts p stale pkt rd)
  have o: "open_small pkts" "length (snd (cut (words_in (pkts @ [pkt])))) < MAX_EVENT_SIZE"
    using open_small_snoc [OF packet.prems(5)] by simp_all
  have i: "reader_at pkts (pl_rd p)" "on_way ser fmt p" "in_files p" "length (pl_lanes p) = length (pl_lanes p0)"
    using packet.IH [OF packet.prems(1-3) _ o(1)] packet.prems(4) by simp_all
  have r: "reader_at (pkts @ [pkt]) rd"
    using reader_packet [OF i(1) _ packet.hyps(2) o(2) packet.hyps(3)] packet.prems(4) by simp
  with reader_at_grows [OF i(1)] obtain xs where "rd_sent rd = rd_sent (pl_rd p) @ xs" by blast
  with r i show ?case by (simp add: on_way_def in_files_def)
next
  case (step pkts p p')
  have i: "reader_at pkts (pl_rd p)" "on_way ser fmt p" "in_files p" "length (pl_lanes p) = length (pl_lanes p0)"
    using step.IH [OF step.prems] by simp_all
  from pl_step_keeps [OF step.hyps(2) i(2,3)] i show ?case by (simp add: reader_at_def)
qed simp

lemma pl_start_ok:
  assumes "stored [(f, [])] wr" "dirs_ok wr" "ww_store wr"
  shows "reader_at [] (pl_rd (pl_start fmt mems wr))" "on_way ser fmt (pl_start fmt mems wr)"
    "in_files (pl_start fmt mems wr)" "length (pl_lanes (pl_start fmt mems wr)) = length mems"
proof -
  have l: "arrived l = []" "written l = []" "lane_ok ser fmt l" if "l \<in> set (map (new_lane fmt) mems)" for l
    using that by (auto simp: arrived_def written_def lane_ok_def new_lane_def new_parser_def)
  show "reader_at [] (pl_rd (pl_start fmt mems wr))"
    by (simp add: pl_start_def reader_at_def new_reader_def words_in_def cut_def)
  show "on_way ser fmt (pl_start fmt mems wr)"
    using l merged_Nil [of "map (new_lane fmt) mems" arrived] by (simp add: pl_start_def on_way_def)
  have "wr_holds [] wr" using assms by (auto simp: wr_holds_def intro: exI [of _ "[(f, [])]"])
  then show "in_files (pl_start fmt mems wr)"
    using ws.takes_start [of wr "map (new_lane fmt) mems" written] l by (simp add: in_files_def pl_start_def)
  show "length (pl_lanes (pl_start fmt mems wr)) = length mems" by (simp add: pl_start_def)
qed

subsection \<open>The files hold the stream\<close>

text \<open>The events of a lane with what became of each.\<close>

lemma lane_results:
  assumes "lane_ok ser fmt l" "drained p" "l \<in> set (pl_lanes p)"
  shows "\<exists>res. map fst res = map event_words (arrived l) \<and> concat (map snd res) = written l \<and>
    (\<forall>(e, os)\<in>set res. parsed_words ser fmt e os)"
proof -
  obtain outs where o: "list_all2 (\<lambda>m os. parsed_words ser fmt (event_words m) os) (ln_parsed l) outs"
    "ps_sent (ln_psr l) = concat outs" using assms(1) by (auto simp: lane_ok_def)
  have len: "length (ln_parsed l) = length outs" using o(1) by (rule list_all2_lengthD)
  let ?res = "zip (map event_words (ln_parsed l)) outs"
  have "map fst ?res = map event_words (arrived l)" "concat (map snd ?res) = written l"
    using assms(2,3) len o(2) by (simp_all add: drained_def arrived_def written_def)
  moreover have "parsed_words ser fmt e os" if "(e, os) \<in> set ?res" for e os
    using that o(1) by (auto simp: zip_map1 list_all2_iff)
  ultimately show ?thesis by (intro exI [of _ ?res]) auto
qed

lemma sum_mset_concat: "(\<Sum>l\<leftarrow>ls. mset (f l)) = mset (concat (map f ls))"
  by (induction ls) simp_all

lemma drained_results:
  assumes "on_way ser fmt p" "drained p" "reader_at pkts (pl_rd p)"
    and "\<forall>e\<in>set (fst (cut (words_in pkts))). length e < 2 ^ 32" "merged written (pl_lanes p) D"
  shows "\<exists>res. mset (map fst res) = mset (fst (cut (words_in pkts))) \<and> (\<forall>(e, os)\<in>set res. parsed_words ser fmt e os) \<and>
    mset D = mset (concat (map snd res)) \<and>
    (length (pl_lanes p) = 1 \<longrightarrow> map fst res = fst (cut (words_in pkts)) \<and> D = concat (map snd res))"
proof -
  let ?es = "fst (cut (words_in pkts))" and ?ls = "pl_lanes p"
  have "\<forall>l\<in>set ?ls. \<exists>res. map fst res = map event_words (arrived l) \<and> concat (map snd res) = written l \<and>
      (\<forall>(e, os)\<in>set res. parsed_words ser fmt e os)"
    using lane_results [OF _ assms(2)] assms(1) by (auto simp: on_way_def)
  then obtain R where R: "\<And>l. l \<in> set ?ls \<Longrightarrow> map fst (R l) = map event_words (arrived l)"
    "\<And>l. l \<in> set ?ls \<Longrightarrow> concat (map snd (R l)) = written l"
    "\<And>l e os. l \<in> set ?ls \<Longrightarrow> (e, os) \<in> set (R l) \<Longrightarrow> parsed_words ser fmt e os" by (metis (no_types, lifting) case_prodD)
  have m: "merged arrived ?ls (map bytes_of ?es)"
    using assms(1-3) by (simp add: on_way_def drained_def reader_at_def)
  have w: "map event_words (map bytes_of ?es) = ?es"
    using assms(4) by (simp add: map_idI event_words_bytes_of)
  let ?res = "concat (map R ?ls)"
  have f: "map fst ?res = concat (map (\<lambda>l. map event_words (arrived l)) ?ls)"
    using R(1) by (simp add: map_concat o_def cong: map_cong)
  also have "\<dots> = map event_words (concat (map arrived ?ls))" by (simp add: map_concat o_def)
  finally have "mset (map fst ?res) = image_mset event_words (mset (concat (map arrived ?ls)))" by simp
  also have "\<dots> = image_mset event_words (mset (map bytes_of ?es))"
    using m by (simp add: merged_def sum_mset_concat)
  also have "\<dots> = mset ?es" using arg_cong [OF w, of mset] by (simp add: multiset.map_comp)
  finally have 1: "mset (map fst ?res) = mset ?es" .
  have g: "concat (map snd ?res) = concat (map written ?ls)"
  proof -
    have "concat (map snd (concat (map R xs))) = concat (map written xs)" if "set xs \<subseteq> set ?ls" for xs
      using that by (induction xs) (simp_all add: R(2))
    then show ?thesis by simp
  qed
  then have 2: "mset D = mset (concat (map snd ?res))" using assms(5) by (simp add: merged_def sum_mset_concat)
  have 3: "map fst ?res = ?es \<and> D = concat (map snd ?res)" if "length ?ls = 1"
  proof -
    obtain l where l: "?ls = [l]" using \<open>length ?ls = 1\<close> by (auto simp: length_Suc_conv)
    have "arrived l = map bytes_of ?es" "written l = D"
      using m assms(5) l merged_single by metis+
    then show ?thesis using f g w l by simp
  qed
  show ?thesis using 1 2 3 R(3) by (intro exI [of _ ?res]) auto
qed

lemma stored_sizes [simp]:
  "stored h (set_eventdirsize a w) = stored h w" "stored h (set_eventfilesize a w) = stored h w"
  "dirs_ok (set_eventdirsize a w) = dirs_ok w" "dirs_ok (set_eventfilesize a w) = dirs_ok w"
  "ww_store (set_eventdirsize a w) = ww_store w" "ww_store (set_eventfilesize a w) = ww_store w"
  by (simp_all add: stored_def on_disk_def dirs_ok_def dir_there_def set_eventdirsize_def set_eventfilesize_def
      split: option.split)

text \<open>
  C3. From the wire to the disk. Take any run of the threads of a node, in any interleaving and
  with changes of run control at any time, on well-formed datagrams and without a receive that
  throws, after which nothing is left on the way. Then every event of the concatenated stream
  was parsed exactly once, and the files of the run hold exactly the messages these parses
  produced, each once, whatever the number of parsers and the limits of files and directories;
  with a single parser they are in the order of the stream.
\<close>

theorem pipeline_stores_stream:
  assumes "pl_run ser (pl_start fmt mems (set_eventdirsize ds (set_eventfilesize fs wr))) pkts p" "drained p"
    and "\<forall>pkt\<in>set pkts. good_datagram pkt" "open_small pkts"
    and "new_writer bdir run runid env (Some es) files n e0 d0 = Inr wr" "w_mkdir env"
    and "\<forall>k. (run_name run k, False) \<notin> set es" "unat n + 1 < 2 ^ 32"
  shows "\<exists>hist res. mset (map fst res) = mset (fst (cut (words_in pkts))) \<and>
    (\<forall>(e, os)\<in>set res. parsed_words ser fmt e os) \<and>
    mset (concat (map snd hist)) = mset (concat (map snd res)) \<and>
    (length mems = 1 \<longrightarrow> map fst res = fst (cut (words_in pkts)) \<and> concat (map snd hist) = concat (map snd res)) \<and>
    distinct (map fst hist) \<and> (\<forall>(g, ms)\<in>set hist. ww_files (pl_wr p) g = Some (records ms))"
proof -
  obtain f where f: "stored [(f, [])] wr" "dirs_ok wr" "ww_store wr"
    using new_writer_stored [OF assms(5,6) _ assms(8)] assms(7) by blast
  let ?wr = "set_eventdirsize ds (set_eventfilesize fs wr)"
  have "stored [(f, [])] ?wr" "dirs_ok ?wr" "ww_store ?wr" using f by simp_all
  note st = pl_start_ok [OF this]
  from pl_run_keeps [OF assms(1) st(1-3) assms(3,4)] st(4)
  have k: "reader_at pkts (pl_rd p)" "on_way ser fmt p" "in_files p" "length (pl_lanes p) = length mems" by simp_all
  then obtain hist where h: "stored hist (pl_wr p)" "merged written (pl_lanes p) (concat (map snd hist))"
    by (auto simp: in_files_def ws.takes_def wr_holds_def)
  have "\<forall>e\<in>set (fst (cut (words_in pkts))). length e < 2 ^ 32" using event_size [OF assms(3,4)] by blast
  from drained_results [OF k(2) assms(2) k(1) this h(2)] k(4) obtain res where
    "mset (map fst res) = mset (fst (cut (words_in pkts)))" "\<forall>(e, os)\<in>set res. parsed_words ser fmt e os"
    "mset (concat (map snd hist)) = mset (concat (map snd res))"
    "length mems = 1 \<longrightarrow> map fst res = fst (cut (words_in pkts)) \<and> concat (map snd hist) = concat (map snd res)"
    by auto
  moreover have "distinct (map fst hist)" "\<forall>(g, ms)\<in>set hist. ww_files (pl_wr p) g = Some (records ms)"
    using h(1) by (auto simp: stored_def on_disk_def)
  ultimately show ?thesis by blast
qed

text \<open>One event, one parser, from the constructors to the file.\<close>

lemma one_block_event_sent:
  "case fsm_process (fsm_import one_block_event (fsm_init FMT_TAG fsm_zero)) of
     Some (Inr (r, t)) \<Rightarrow> r = PARSE_OK \<and> \<not> event_is_empty t | _ \<Rightarrow> False"
  by code_simp

lemma one_block_round:
  "\<exists>q. parser_round (\<lambda>_. (True, [7])) (Got (bytes_of one_block_event))
      (ps_set_rcstate RUNNING (new_parser FMT_TAG fsm_zero)) = Some (Inr q) \<and> ps_sent q = [[7]]"
proof -
  let ?p = "ps_set_rcstate RUNNING (new_parser FMT_TAG fsm_zero)"
  have w: "event_words (bytes_of one_block_event) = one_block_event"
    by (rule event_words_bytes_of) (simp add: one_block_event_def)
  from one_block_event_sent obtain t where t:
    "fsm_process (fsm_import one_block_event (fsm_init FMT_TAG fsm_zero)) = Some (Inr (PARSE_OK, t))"
    "\<not> event_is_empty t" by (auto split: option.splits sum.splits)
  have i: "fsm_init FMT_TAG (fsm_init FMT_TAG fsm_zero) = fsm_init FMT_TAG fsm_zero" by (simp add: fsm_init_def)
  show ?thesis using t
    by (auto simp: parser_round_def parser_recv_def parser_message_def run_fsm_def w i ps_set_rcstate_def
        new_parser_def parser_clear_def parser_emit_def parser_send_def count_in_def Let_def)
qed

lemma pl_witness_run:
  assumes "ww_rcstate wr = IDLE" "ww_fileid wr = 1"
  shows "\<exists>p. pl_run (\<lambda>_. (True, [7])) (pl_start FMT_TAG [fsm_zero] (set_eventdirsize 9 (set_eventfilesize 9 wr)))
      [bytes_of ([0, 1] @ one_block_event)] p \<and> drained p"
proof -
  let ?ser = "\<lambda>_ :: FzEvent list. (True, [7 :: u8])" and ?env = "\<lparr>w_time = 1, w_mkdir = True\<rparr>"
  let ?pkt = "bytes_of ([0, 1] @ one_block_event)" and ?w = "set_eventdirsize 9 (set_eventfilesize 9 wr)"
  let ?m = "bytes_of one_block_event"
  let ?p0 = "pl_start FMT_TAG [fsm_zero] ?w" and ?run = "pl_run ?ser (pl_start FMT_TAG [fsm_zero] ?w)"
  let ?r1 = "rd_set_rcstate RUNNING (new_reader False)" and ?l1 = "lane_set_rcstate RUNNING (new_lane FMT_TAG fsm_zero)"
  let ?w1 = "wr_set_rcstate ?env RUNNING ?w"
  have w1: "ww_rcstate ?w1 = RUNNING" "disk_ok ?env ?w1"
    using assms by (simp_all add: wr_set_rcstate_def disk_ok_def set_eventdirsize_def set_eventfilesize_def)
  have p0: "?p0 = \<lparr>pl_rd = new_reader False, pl_routed = 0, pl_lanes = [new_lane FMT_TAG fsm_zero], pl_wr = ?w\<rparr>"
    by (simp add: pl_start_def)
  have d: "disk_ok ?env ?w" using assms by (simp add: disk_ok_def set_eventdirsize_def set_eventfilesize_def)
  have "?run [] \<lparr>pl_rd = ?r1, pl_routed = 0, pl_lanes = [new_lane FMT_TAG fsm_zero], pl_wr = ?w\<rparr>"
    using pl_run.step [OF pl_run.start pl_step.control_reader [of ?ser ?p0 RUNNING]] by (simp add: p0)
  from pl_run.step [OF this pl_step.control_parser [of _ "[]" "new_lane FMT_TAG fsm_zero" "[]" ?ser RUNNING]]
  have "?run [] \<lparr>pl_rd = ?r1, pl_routed = 0, pl_lanes = [?l1], pl_wr = ?w\<rparr>" by simp
  from pl_run.step [OF this pl_step.control_writer [of ?env _ ?ser RUNNING]] d
  have 1: "?run [] \<lparr>pl_rd = ?r1, pl_routed = 0, pl_lanes = [?l1], pl_wr = ?w1\<rparr>" by simp
  obtain rd where rd: "reader_round (Some ([], ?pkt)) ?r1 = Inr rd" "rd_sent rd = [?m]"
    using one_block_event_read by (auto simp: reader_do_def bindE_Inr_iff simp del: bytes_of_simps bytes_of_append)
  have "rd_rcstate ?r1 = RUNNING" by (simp add: rd_set_rcstate_def)
  then have 2: "?run [?pkt] \<lparr>pl_rd = rd, pl_routed = 0, pl_lanes = [?l1], pl_wr = ?w1\<rparr>"
    using pl_run.packet [OF 1, of "[]" ?pkt rd] rd(1) by (simp del: bytes_of_simps bytes_of_append)
  have 3: "?run [?pkt] \<lparr>pl_rd = rd, pl_routed = 1, pl_lanes = [route_to ?m ?l1], pl_wr = ?w1\<rparr>"
    using pl_run.step [OF 2 pl_step.route [of _ "[]" ?l1 "[]"]] rd(2) by (simp del: bytes_of_simps bytes_of_append)
  obtain q where q: "parser_round ?ser (Got ?m) (ps_set_rcstate RUNNING (new_parser FMT_TAG fsm_zero)) = Some (Inr q)"
    "ps_sent q = [[7]]" using one_block_round by blast
  let ?l3 = "\<lparr>ln_psr = q, ln_queue = [], ln_taken = 0, ln_parsed = [?m]\<rparr>"
  have "lane_step ?ser (route_to ?m ?l1) ?l3"
    using lane_step.parse [of "route_to ?m ?l1" ?m "[]" ?ser q] q(1)
    by (simp add: route_to_def lane_set_rcstate_def new_lane_def ps_set_rcstate_def)
  from pl_run.step [OF 3 pl_step.parser [of _ "[]" "route_to ?m ?l1" "[]" _ ?l3]] this
  have 4: "?run [?pkt] \<lparr>pl_rd = rd, pl_routed = 1, pl_lanes = [?l3], pl_wr = ?w1\<rparr>"
    by (simp del: bytes_of_simps bytes_of_append)
  let ?w5 = "writer_round ?env (Some [7]) ?w1"
  have 5: "?run [?pkt] \<lparr>pl_rd = rd, pl_routed = 1, pl_lanes = [take_one ?l3], pl_wr = ?w5\<rparr>"
    using pl_run.step [OF 4 pl_step.store [of _ "[]" ?l3 "[]" ?env]] w1 q(2) by (simp del: bytes_of_simps bytes_of_append)
  have "drained \<lparr>pl_rd = rd, pl_routed = 1, pl_lanes = [take_one ?l3], pl_wr = ?w5\<rparr>"
    using rd(2) q(2) by (simp add: drained_def take_one_def)
  with 5 show ?thesis by blast
qed

lemma pl_witness_writer:
  "\<exists>wr. new_writer ''/d'' ''run'' 0 \<lparr>w_time = 1, w_mkdir = True\<rparr> (Some []) (\<lambda>_. None) 0 0 0 = Inr wr \<and>
     ww_rcstate wr = IDLE \<and> ww_fileid wr = 1"
  by (simp add: new_writer_def setup_newdir_def get_max_runid_def alloc_dir_def setup_newfile_def bindE_def Let_def
      split: if_splits)

lemma pipeline_stores_stream_witness:
  "\<exists>p wr hist os. pl_run (\<lambda>_. (True, [7])) (pl_start FMT_TAG [fsm_zero] (set_eventdirsize 9 (set_eventfilesize 9 wr)))
      [bytes_of ([0, 1] @ one_block_event)] p \<and> drained p \<and>
     parsed_words (\<lambda>_. (True, [7])) FMT_TAG one_block_event os \<and> concat (map snd hist) = os \<and>
     (\<forall>(g, ms)\<in>set hist. ww_files (pl_wr p) g = Some (records ms))"
proof -
  let ?ser = "\<lambda>_ :: FzEvent list. (True, [7 :: u8])" and ?pkt = "bytes_of ([0, 1] @ one_block_event)"
  obtain wr where wr: "new_writer ''/d'' ''run'' 0 \<lparr>w_time = 1, w_mkdir = True\<rparr> (Some []) (\<lambda>_. None) 0 0 0 = Inr wr"
    "ww_rcstate wr = IDLE" "ww_fileid wr = 1" using pl_witness_writer by blast
  obtain p where p: "pl_run ?ser (pl_start FMT_TAG [fsm_zero] (set_eventdirsize 9 (set_eventfilesize 9 wr))) [?pkt] p"
    "drained p" using pl_witness_run [OF wr(2,3)] by blast
  have w: "words_in [?pkt] = one_block_event" using one_block_payload by (simp add: words_in_def)
  have c: "cut one_block_event = ([one_block_event], [])" using one_block_cut by (simp add: cut_def)
  have k: "take k [?pkt] = (if k = 0 then [] else [?pkt])" for k by (cases k) simp_all
  have z: "cut (words_in []) = ([], [])" by (simp add: words_in_def cut_def)
  have o: "open_small [?pkt]" unfolding open_small_def k
    by (simp only: if_distrib [of words_in] if_distrib [of cut] if_distrib [of snd] w c z) (simp add: MAX_EVENT_SIZE_def)
  have g: "\<forall>x\<in>set [?pkt]. good_datagram x"
    using one_block_payload(1) by (simp add: good_datagram_def NS_UDP_RECEIVE_BUFFER_SIZE_def)
  from pipeline_stores_stream [OF p g o wr(1), unfolded w c] obtain hist where
    "parsed_words ?ser FMT_TAG one_block_event (concat (map snd hist))"
    "\<forall>(g, ms)\<in>set hist. ww_files (pl_wr p) g = Some (records ms)"
    by auto
  with p show ?thesis by blast
qed

end
