(* ===== verification/FzLog.thy ===== *)
theory FzLog
  imports FzText
begin

section \<open>Logging\<close>

text \<open>
  \<open>logger/FzLogger.cpp\<close>. A logger is connected to a category of log4cpp, which has the files
  attached to it; what is asked of log4cpp is the list of the calls, oldest first. Reading the
  property file (\<open>ok\<close> says for which file it succeeds) throws an exception that nothing catches.
\<close>

datatype log_priority = EMERG | FATAL | ALERT | CRIT | ERROR | WARN | NOTICE | INFO | DEBUG | NOTSET

datatype log_call = Log_configure string | Log_attach string string | Log_line string log_priority string

text \<open>The static property file and the calls.\<close>

record logging =
  lg_propfile :: string
  lg_calls :: "log_call list"

text \<open>The category is a pointer, not set before \<open>has_filelog\<close>.\<close>

record logger =
  has_filelog :: bool
  log_category :: string

definition new_logger :: logger where
  "new_logger = \<lparr>has_filelog = False, log_category = []\<rparr>"

definition new_logging :: logging where
  "new_logging = \<lparr>lg_propfile = ''/etc/default/fazia/log4cpp.properties'', lg_calls = []\<rparr>"

definition setPropertyFile :: "string \<Rightarrow> logging \<Rightarrow> logging" where
  "setPropertyFile filename g = g\<lparr>lg_propfile := filename\<rparr>"

datatype log_error = Configure_failure

definition setFileConnection ::
  "(string \<Rightarrow> bool) \<Rightarrow> string \<Rightarrow> string \<Rightarrow> logging \<Rightarrow> log_error + (logger \<times> logging)" where
  "setFileConnection ok inst filename g =
     (if ok (lg_propfile g)
      then Inr (\<lparr>has_filelog = True, log_category = inst\<rparr>,
                g\<lparr>lg_calls := lg_calls g @ [Log_configure (lg_propfile g), Log_attach inst filename]\<rparr>)
      else Inl Configure_failure)"

definition log_write :: "log_priority \<Rightarrow> string \<Rightarrow> logger \<Rightarrow> logging \<Rightarrow> logging" where
  "log_write severity txt l g =
     (if has_filelog l then g\<lparr>lg_calls := lg_calls g @ [Log_line (log_category l) severity txt]\<rparr> else g)"

text \<open>The lines a category got.\<close>

definition lines_of :: "string \<Rightarrow> logging \<Rightarrow> string list" where
  "lines_of cat g = concat (map (\<lambda>c. case c of Log_line k p t \<Rightarrow> if k = cat then [t] else [] | _ \<Rightarrow> []) (lg_calls g))"

lemma lines_of_simps [simp]:
  "lines_of cat (setPropertyFile f g) = lines_of cat g"
  "lines_of cat (log_write p t l g) = lines_of cat g @ (if has_filelog l \<and> log_category l = cat then [t] else [])"
  "setFileConnection ok inst f g = Inr (l, g') \<Longrightarrow> lines_of cat g' = lines_of cat g"
  by (auto simp: lines_of_def setPropertyFile_def log_write_def setFileConnection_def split: if_splits)

end
