(* ===== verification/FzStart.thy ===== *)
theory FzStart
  imports FzMain FzController FzLog
begin

section \<open>The start of a node\<close>

text \<open>
  The sockets and log files the constructors of \<open>FzReader\<close>, \<open>FzParser\<close>, \<open>FzWriter\<close> and
  \<open>FzNodeManager\<close> open, in the order of \<open>main/FzDAQ-mt.cpp\<close>, and the options of that program.
  What ZeroMQ, log4cpp and the system answer is the record \<open>outside\<close>; a call of \<open>exit\<close> is an
  error with its message, the text of the exception left out.
\<close>

subsection \<open>Sockets\<close>

datatype zkind = Z_PUSH | Z_PULL | Z_PUB | Z_REP

text \<open>A socket that is bound or connected, with its timeouts and its linger time (milliseconds).\<close>

record zlink =
  zl_kind :: zkind
  zl_bound :: bool
  zl_ep :: string
  zl_rcvtimeo :: "int option"
  zl_sndtimeo :: "int option"
  zl_linger :: "int option"

definition zsock :: "zkind \<Rightarrow> bool \<Rightarrow> string \<Rightarrow> zlink" where
  "zsock k b ep = \<lparr>zl_kind = k, zl_bound = b, zl_ep = ep, zl_rcvtimeo = None, zl_sndtimeo = None, zl_linger = None\<rparr>"

text \<open>\<open>os_attach\<close> may look at what is open already; \<open>os_log\<close> says which property file can be read.\<close>

record outside =
  os_socket :: "zkind \<Rightarrow> bool"
  os_attach :: "zlink list \<Rightarrow> zlink \<Rightarrow> bool"
  os_log :: "string \<Rightarrow> bool"
  os_udp :: "string \<Rightarrow> bool"
  os_host :: "string option"

datatype start_error = S_exit string | S_log | S_literal | S_main main_error

text \<open>\<open>bt_own\<close> is the logger of the object under construction, \<open>bt_loggers\<close> those of the finished ones.\<close>

record boot =
  bt_links :: "zlink list"
  bt_log :: logging
  bt_own :: logger
  bt_loggers :: "logger list"

definition zmq_create :: "outside \<Rightarrow> string \<Rightarrow> zkind \<Rightarrow> (start_error, boot) stmt" where
  "zmq_create out msg k b = (if os_socket out k then Inr b else Inl (S_exit msg))"

definition zmq_attach :: "outside \<Rightarrow> string \<Rightarrow> zlink \<Rightarrow> (start_error, boot) stmt" where
  "zmq_attach out msg l b =
     (if os_attach out (bt_links b) l then Inr (b\<lparr>bt_links := bt_links b @ [l]\<rparr>) else Inl (S_exit (msg @ zl_ep l)))"

subsection \<open>Loggers\<close>

definition begin_object :: "(start_error, boot) stmt" where
  "begin_object = modify (\<lambda>b. b\<lparr>bt_own := new_logger\<rparr>)"

definition end_object :: "(start_error, boot) stmt" where
  "end_object = modify (\<lambda>b. b\<lparr>bt_loggers := bt_loggers b @ [bt_own b]\<rparr>)"

definition log_open :: "outside \<Rightarrow> string \<Rightarrow> string \<Rightarrow> (start_error, boot) stmt" where
  "log_open out inst filename b =
     (case setFileConnection (os_log out) inst filename (bt_log b) of
        Inl e \<Rightarrow> Inl S_log
      | Inr (l, g) \<Rightarrow> Inr (b\<lparr>bt_own := l, bt_log := g\<rparr>))"

definition log_say :: "log_priority \<Rightarrow> string \<Rightarrow> (start_error, boot) stmt" where
  "log_say p t = modify (\<lambda>b. b\<lparr>bt_log := log_write p t (bt_own b) (bt_log b)\<rparr>)"

text \<open>A literal plus a number is an address inside the literal, up to its end.\<close>

definition literal_at :: "string \<Rightarrow> nat \<Rightarrow> start_error + string" where
  "literal_at s i = (if i \<le> length s then Inr (drop i s) else Inl S_literal)"

definition fsm_initlog :: "outside \<Rightarrow> string \<Rightarrow> nat \<Rightarrow> (start_error, boot) stmt" where
  "fsm_initlog out logdir i b =
     bindE (literal_at ''fzfsm.'' i) (\<lambda>inst.
       seqE [log_open out inst (logdir @ ''/fzfsm.log.'' @ dec i),
             log_say DEBUG ''test from log pointer''] b)"

subsection \<open>The constructors\<close>

definition udp_bind :: "outside \<Rightarrow> string \<Rightarrow> (start_error, boot) stmt" where
  "udp_bind out url b = (if os_udp out url then Inr b else Inl (S_exit ''FzReader: unable to bind UDP socket''))"

definition start_reader :: "outside \<Rightarrow> config \<Rightarrow> string \<Rightarrow> string \<Rightarrow> (start_error, boot) stmt" where
  "start_reader out cfg url logdir = seqE [
     begin_object,
     log_open out ''fzreader'' (logdir @ ''/fzreader.log''),
     log_say INFO ''thread allocated'',
     zmq_create out ''FzReader: failed to start ZeroMQ producer'' Z_PUSH,
     zmq_attach out ''FzReader: failed to bind ZeroMQ endpoint ''
       ((zsock Z_PUSH True (reader_endpoint cfg))\<lparr>zl_linger := Some 0\<rparr>),
     udp_bind out url,
     end_object]"

definition parser_consumer :: "config \<Rightarrow> string" where
  "parser_consumer cfg = endpoint_or cfg ''fzdaq.fzparser.consumer'' ''inproc://fzreader''"

definition parser_producer :: "config \<Rightarrow> string" where
  "parser_producer cfg = endpoint_or cfg ''fzdaq.fzparser.producer'' ''inproc://fzwriter''"

definition start_parser :: "outside \<Rightarrow> config \<Rightarrow> string \<Rightarrow> nat \<Rightarrow> (start_error, boot) stmt" where
  "start_parser out cfg logdir i = seqE [
     begin_object,
     log_open out ''fzparser'' (logdir @ ''/fzparser.log.'' @ dec i),
     log_say INFO (''thread '' @ dec i @ '' allocated''),
     fsm_initlog out logdir i,
     zmq_create out ''FzParser: failed to start ZeroMQ consumer'' Z_PULL,
     zmq_attach out ''FzParser: failed to connect ZeroMQ endpoint ''
       ((zsock Z_PULL False (parser_consumer cfg))\<lparr>zl_rcvtimeo := Some 1000, zl_linger := Some 0\<rparr>),
     zmq_create out ''FzParser: failed to start ZeroMQ producer'' Z_PUSH,
     zmq_attach out ''FzParser: failed to connect ZeroMQ endpoint ''
       ((zsock Z_PUSH False (parser_producer cfg))\<lparr>zl_linger := Some 0\<rparr>),
     log_say INFO ''state machine started'',
     end_object]"

definition FZW_SPY_PORT :: nat where "FZW_SPY_PORT = 5563"

definition writer_consumer :: "config \<Rightarrow> string" where
  "writer_consumer cfg = endpoint_or cfg ''fzdaq.fzwriter.consumer'' ''inproc://fzwriter''"

definition writer_spy :: "config \<Rightarrow> string" where
  "writer_spy cfg = endpoint (get_default ''*'' (cf_str cfg ''fzdaq.fzwriter.spy.interface'')) FZW_SPY_PORT"

text \<open>The writer \<open>w\<close> as its directory and file were set up; \<open>DIR_FAIL\<close> is never the outcome
  (\<open>setup_newdir_never_fails\<close>).\<close>

definition start_writer :: "outside \<Rightarrow> config \<Rightarrow> string \<Rightarrow> writer \<Rightarrow> (start_error, boot) stmt" where
  "start_writer out cfg logdir w = seqE [
     begin_object,
     log_open out ''fzwriter'' (logdir @ ''/fzwriter.log''),
     log_say INFO (''directory '' @ ww_dirstr w @ '' successfully allocated for new event files''),
     log_say INFO ''thread allocated'',
     zmq_create out ''FzWriter: failed to start ZeroMQ consumer'' Z_PULL,
     zmq_attach out ''FzWriter: failed to bind ZeroMQ endpoint ''
       ((zsock Z_PULL True (writer_consumer cfg))\<lparr>zl_rcvtimeo := Some 1000\<rparr>),
     zmq_create out ''FzWriter: failed to start ZeroMQ event spy'' Z_PUB,
     zmq_attach out ''FzWriter: failed to bind ZeroMQ endpoint ''
       ((zsock Z_PUB True (writer_spy cfg))\<lparr>zl_linger := Some 0\<rparr>),
     end_object]"

definition FZC_COLLECTOR_PORT :: nat where "FZC_COLLECTOR_PORT = 7000"

definition nm_interface :: "config \<Rightarrow> string" where
  "nm_interface cfg = get_default ''eth0'' (cf_str cfg ''fzdaq.fznodemanager.interface'')"

definition nm_stats_ip :: "config \<Rightarrow> string" where
  "nm_stats_ip cfg = get_default [] (cf_str cfg ''fzdaq.fznodemanager.stats.ip'')"

definition require :: "bool \<Rightarrow> string \<Rightarrow> (start_error, boot) stmt" where
  "require ok msg b = (if ok then Inr b else Inl (S_exit msg))"

definition start_nodemanager :: "outside \<Rightarrow> config \<Rightarrow> (start_error, boot) stmt" where
  "start_nodemanager out cfg = seqE [
     begin_object,
     log_open out ''fznodemanager'' ''/var/log/fzdaq/fznodemanager.log'',
     require (os_host out \<noteq> None) ''FzNodeManager: failed to get hostname'',
     zmq_create out ''FzNodeManager: failed to start ZeroMQ report push'' Z_PUSH,
     require (nm_stats_ip cfg \<noteq> []) ''FzNodeManager: FzController collector IP not present in config file'',
     zmq_attach out ''FzNodeManager: failed to connect ZeroMQ endpoint ''
       ((zsock Z_PUSH False (endpoint (nm_stats_ip cfg) FZC_COLLECTOR_PORT))
          \<lparr>zl_sndtimeo := Some 1000, zl_linger := Some 0\<rparr>),
     zmq_create out ''FzNodeManager: failed to start ZeroMQ run control reply'' Z_REP,
     zmq_attach out ''FzNodeManager: failed to bind ZeroMQ req/rep endpoint ''
       ((zsock Z_REP True (endpoint (nm_interface cfg) FZNM_REP_PORT))\<lparr>zl_linger := Some 0\<rparr>),
     zmq_create out ''FzNodeManager: failed to start ZeroMQ run control pull'' Z_PULL,
     zmq_attach out ''FzNodeManager: failed to bind ZeroMQ pull endpoint ''
       ((zsock Z_PULL True (endpoint (nm_interface cfg) FZNM_PULL_PORT))\<lparr>zl_linger := Some 0\<rparr>),
     end_object]"

subsection \<open>The threads in the order of the program\<close>

definition start_compute :: "outside \<Rightarrow> settings \<Rightarrow> config \<Rightarrow> (start_error, boot) stmt" where
  "start_compute out s cfg =
     seqE (start_reader out cfg (st_neturl s) (st_basedir s) #
           map (start_parser out cfg (st_basedir s)) [0 ..< unat (st_nthreads s)])"

definition start_storage ::
  "outside \<Rightarrow> settings \<Rightarrow> config \<Rightarrow> memory \<Rightarrow> world \<Rightarrow> (string \<times> bool) list option \<Rightarrow> (string \<Rightarrow> bytes option) \<Rightarrow>
     boot \<Rightarrow> start_error + (writer \<times> boot)" where
  "start_storage out s cfg mem env base files b =
     (case new_writer (st_subdir s) (st_runtag s) (st_runid s) env base files
             (m_fileid mem) (m_esize mem) (m_dsize mem) of
        Inl e \<Rightarrow> Inl (S_main (M_writer e))
      | Inr w \<Rightarrow> bindE (start_writer out cfg (st_basedir s) w b) (\<lambda>b'.
          (case main_limits s w of Inl e \<Rightarrow> Inl (S_main e) | Inr w' \<Rightarrow> Inr (w', b'))))"

definition main_threads ::
  "outside \<Rightarrow> settings \<Rightarrow> config \<Rightarrow> memory \<Rightarrow> world \<Rightarrow> (string \<times> bool) list option \<Rightarrow> (string \<Rightarrow> bytes option) \<Rightarrow>
     boot \<Rightarrow> start_error + (nodemgr \<times> boot)" where
  "main_threads out s cfg mem env base files b =
     (let prof = st_profile s in
      bindE (if is_compute prof then start_compute out s cfg b else Inr b) (\<lambda>b1.
      bindE (if is_storage prof
             then bindE (start_storage out s cfg mem env base files b1) (\<lambda>(w, b2). Inr (Some w, b2))
             else Inr (None, b1)) (\<lambda>(wr, b2).
      bindE (start_nodemanager out cfg b2) (\<lambda>b3.
      Inr (new_nodemgr (get_default [] (os_host out)) prof (cf_str cfg ''fzdaq.fznodemanager.runcontrol_mode'') (m_state mem)
             (if is_compute prof then Some (new_reader (m_rec mem)) else None)
             (if is_compute prof then replicate (unat (st_nthreads s)) (new_parser (st_evformat s) (m_fsm mem)) else [])
             wr, b3)))))"

subsection \<open>The program\<close>

text \<open>The options, once boost has read them, and the outcomes of reading the configuration file.\<close>

record main_opts =
  mo_help :: bool
  mo_cfg :: "string option"
  mo_profile :: "string option"

datatype cfg_file = Cfg_read config | Cfg_syntax nat | Cfg_missing

definition no_config :: config where
  "no_config = \<lparr>cf_str = \<lambda>_. None, cf_uint = \<lambda>_. None\<rparr>"

definition main_options ::
  "main_opts option \<Rightarrow> (string \<Rightarrow> cfg_file) \<Rightarrow> start_error + (bool \<times> string option \<times> config)" where
  "main_options opts rd =
     (case opts of
        None \<Rightarrow> Inl (S_exit ''ERROR: '')
      | Some opt \<Rightarrow>
          if mo_help opt then Inl (S_exit ''help'')
          else (case mo_cfg opt of
             None \<Rightarrow> Inr (False, mo_profile opt, no_config)
           | Some f \<Rightarrow>
               (case rd f of
                  Cfg_read cfg \<Rightarrow> Inr (True, mo_profile opt, cfg)
                | Cfg_syntax n \<Rightarrow> Inl (S_exit (''configuration file line '' @ dec n))
                | Cfg_missing \<Rightarrow> Inl (S_exit (''cannot open configuration file '' @ f)))))"

datatype mkdir_result = Mk_created | Mk_exists | Mk_failed

definition main_mkdir :: "string \<Rightarrow> mkdir_result \<Rightarrow> string list" where
  "main_mkdir subdir r =
     (case r of
        Mk_created \<Rightarrow> [''FzWriter: '' @ subdir @ '' directory created'']
      | Mk_exists \<Rightarrow> [''FzWriter: '' @ subdir @ '' directory already exist'']
      | Mk_failed \<Rightarrow> [''FzWriter: ''])"

definition main_logging :: "config \<Rightarrow> logging \<Rightarrow> logging" where
  "main_logging cfg g =
     (case cf_str cfg ''fzdaq.global.logpropfile'' of Some f \<Rightarrow> setPropertyFile f g | None \<Rightarrow> g)"

definition main_start ::
  "outside \<Rightarrow> main_opts option \<Rightarrow> (string \<Rightarrow> cfg_file) \<Rightarrow> (string \<Rightarrow> string) \<Rightarrow> settings \<Rightarrow> memory \<Rightarrow> world \<Rightarrow>
     (string \<times> bool) list option \<Rightarrow> (string \<Rightarrow> bytes option) \<Rightarrow> start_error + (settings \<times> nodemgr \<times> boot)" where
  "main_start out opts rd dev_ip s0 mem env base files =
     bindE (main_options opts rd) (\<lambda>(hascfg, prof, cfg).
     case main_configure hascfg prof cfg dev_ip s0 of
       Inl e \<Rightarrow> Inl (S_main e)
     | Inr s \<Rightarrow> bindE (main_threads out s cfg mem env base files
                  \<lparr>bt_links = [], bt_log = main_logging cfg new_logging, bt_own = new_logger, bt_loggers = []\<rparr>)
                (\<lambda>(n, b). Inr (s, n, b)))"

text \<open>Without a configuration file the program gives up: there is no default event format.\<close>

lemma main_needs_config:
  assumes "mo_cfg opt = None"
  shows "\<exists>e. main_start out (Some opt) rd dev_ip s0 mem env base files = Inl e"
  using assms
  by (simp add: main_start_def main_options_def main_configure_def main_profile_def main_evformat_def no_config_def)

subsection \<open>What a start that succeeds has done\<close>

named_theorems boot

lemma boot_steps [boot]:
  "zmq_create out msg k b = Inr b' \<longleftrightarrow> os_socket out k \<and> b' = b"
  "zmq_attach out msg l b = Inr b' \<longleftrightarrow> os_attach out (bt_links b) l \<and> b' = b\<lparr>bt_links := bt_links b @ [l]\<rparr>"
  "udp_bind out url b = Inr b' \<longleftrightarrow> os_udp out url \<and> b' = b"
  "require ok msg b = Inr b' \<longleftrightarrow> ok \<and> b' = b"
  "literal_at t i = Inr inst \<longleftrightarrow> i \<le> length t \<and> inst = drop i t"
  by (auto simp: zmq_create_def zmq_attach_def udp_bind_def require_def literal_at_def)

lemma boot_log_steps [boot]:
  "begin_object b = Inr b' \<longleftrightarrow> b' = b\<lparr>bt_own := new_logger\<rparr>"
  "end_object b = Inr b' \<longleftrightarrow> b' = b\<lparr>bt_loggers := bt_loggers b @ [bt_own b]\<rparr>"
  "log_say p t b = Inr b' \<longleftrightarrow> b' = b\<lparr>bt_log := log_write p t (bt_own b) (bt_log b)\<rparr>"
  by (auto simp: begin_object_def end_object_def log_say_def modify_def)

text \<open>What opening the log of an object does to the rest of the program.\<close>

lemma log_open_Inr [boot]:
  "log_open out inst f b = Inr b' \<longleftrightarrow> (\<exists>g. setFileConnection (os_log out) inst f (bt_log b) =
     Inr (\<lparr>has_filelog = True, log_category = inst\<rparr>, g) \<and>
     b' = b\<lparr>bt_own := \<lparr>has_filelog = True, log_category = inst\<rparr>, bt_log := g\<rparr>)"
  by (auto simp: log_open_def setFileConnection_def)

definition named :: "string \<Rightarrow> logger" where
  "named cat = \<lparr>has_filelog = True, log_category = cat\<rparr>"

definition parser_links :: "config \<Rightarrow> zlink list" where
  "parser_links cfg =
     [(zsock Z_PULL False (parser_consumer cfg))\<lparr>zl_rcvtimeo := Some 1000, zl_linger := Some 0\<rparr>,
      (zsock Z_PUSH False (parser_producer cfg))\<lparr>zl_linger := Some 0\<rparr>]"

lemma start_reader_result:
  assumes "start_reader out cfg url dir b = Inr b'"
  shows "bt_links b' = bt_links b @ [(zsock Z_PUSH True (reader_endpoint cfg))\<lparr>zl_linger := Some 0\<rparr>]"
    "bt_loggers b' = bt_loggers b @ [named ''fzreader'']"
    "lines_of ''fzparser'' (bt_log b') = lines_of ''fzparser'' (bt_log b)"
  using assms by (auto simp: start_reader_def bindE_Inr_iff boot named_def)

lemma start_parser_result:
  assumes "start_parser out cfg dir i b = Inr b'"
  shows "i \<le> 6" "bt_links b' = bt_links b @ parser_links cfg" "bt_loggers b' = bt_loggers b @ [named (drop i ''fzfsm.'')]"
    "lines_of ''fzparser'' (bt_log b') = lines_of ''fzparser'' (bt_log b) @ [''thread '' @ dec i @ '' allocated'']"
proof -
  show "i \<le> 6" "bt_links b' = bt_links b @ parser_links cfg" "bt_loggers b' = bt_loggers b @ [named (drop i ''fzfsm.'')]"
    using assms by (auto simp: start_parser_def fsm_initlog_def bindE_Inr_iff boot named_def parser_links_def)
  have "length (drop i ''fzfsm.'') < length ''fzparser''" by simp
  then have d: "drop i ''fzfsm.'' \<noteq> ''fzparser''" by (metis less_irrefl)
  show "lines_of ''fzparser'' (bt_log b') = lines_of ''fzparser'' (bt_log b) @ [''thread '' @ dec i @ '' allocated'']"
    using assms d by (auto simp: start_parser_def fsm_initlog_def bindE_Inr_iff boot simp del: drop_Cons_numeral drop_Cons')
qed

lemma start_parsers_result:
  assumes "seqE (map (start_parser out cfg dir) [0 ..< n]) b = Inr b'"
  shows "n \<le> 7 \<and> bt_links b' = bt_links b @ concat (replicate n (parser_links cfg)) \<and>
    bt_loggers b' = bt_loggers b @ map (\<lambda>i. named (drop i ''fzfsm.'')) [0 ..< n] \<and>
    lines_of ''fzparser'' (bt_log b') = lines_of ''fzparser'' (bt_log b) @ map (\<lambda>i. ''thread '' @ dec i @ '' allocated'') [0 ..< n]"
  using assms
proof (induction n arbitrary: b')
  case (Suc n)
  then obtain b1 where b1: "seqE (map (start_parser out cfg dir) [0 ..< n]) b = Inr b1"
    "start_parser out cfg dir n b1 = Inr b'"
    by (auto simp: seqE_append bindE_Inr_iff)
  have "concat (replicate n (parser_links cfg)) @ parser_links cfg = concat (replicate (Suc n) (parser_links cfg))"
    by (metis append_Nil2 concat.simps concat_append replicate_Suc replicate_append_same)
  with Suc.IH [OF b1(1)] start_parser_result [OF b1(2)] show ?case by simp
qed simp

lemma start_writer_result:
  assumes "start_writer out cfg dir w b = Inr b'"
  shows "bt_links b' = bt_links b @ [(zsock Z_PULL True (writer_consumer cfg))\<lparr>zl_rcvtimeo := Some 1000\<rparr>,
      (zsock Z_PUB True (writer_spy cfg))\<lparr>zl_linger := Some 0\<rparr>]"
    "bt_loggers b' = bt_loggers b @ [named ''fzwriter'']"
    "lines_of ''fzparser'' (bt_log b') = lines_of ''fzparser'' (bt_log b)"
  using assms by (auto simp: start_writer_def bindE_Inr_iff boot named_def)

definition nm_links :: "config \<Rightarrow> zlink list" where
  "nm_links cfg =
     [(zsock Z_PUSH False (endpoint (nm_stats_ip cfg) FZC_COLLECTOR_PORT))\<lparr>zl_sndtimeo := Some 1000, zl_linger := Some 0\<rparr>,
      (zsock Z_REP True (endpoint (nm_interface cfg) FZNM_REP_PORT))\<lparr>zl_linger := Some 0\<rparr>,
      (zsock Z_PULL True (endpoint (nm_interface cfg) FZNM_PULL_PORT))\<lparr>zl_linger := Some 0\<rparr>]"

lemma start_nodemanager_result:
  assumes "start_nodemanager out cfg b = Inr b'"
  shows "os_host out \<noteq> None" "nm_stats_ip cfg \<noteq> []" "bt_links b' = bt_links b @ nm_links cfg"
    "bt_loggers b' = bt_loggers b @ [named ''fznodemanager'']"
    "lines_of ''fzparser'' (bt_log b') = lines_of ''fzparser'' (bt_log b)"
  using assms by (auto simp: start_nodemanager_def bindE_Inr_iff boot named_def nm_links_def)

definition reader_link :: "config \<Rightarrow> zlink" where
  "reader_link cfg = (zsock Z_PUSH True (reader_endpoint cfg))\<lparr>zl_linger := Some 0\<rparr>"

definition writer_links :: "config \<Rightarrow> zlink list" where
  "writer_links cfg =
     [(zsock Z_PULL True (writer_consumer cfg))\<lparr>zl_rcvtimeo := Some 1000\<rparr>,
      (zsock Z_PUB True (writer_spy cfg))\<lparr>zl_linger := Some 0\<rparr>]"

definition empty_boot :: "boot \<Rightarrow> bool" where
  "empty_boot b \<longleftrightarrow> bt_links b = [] \<and> bt_loggers b = [] \<and> lines_of ''fzparser'' (bt_log b) = []"

lemma start_compute_result:
  assumes "start_compute out s cfg b = Inr b'" "empty_boot b"
  shows "unat (st_nthreads s) \<le> 7 \<and>
    bt_links b' = reader_link cfg # concat (replicate (unat (st_nthreads s)) (parser_links cfg)) \<and>
    bt_loggers b' = named ''fzreader'' # map (\<lambda>i. named (drop i ''fzfsm.'')) [0 ..< unat (st_nthreads s)] \<and>
    lines_of ''fzparser'' (bt_log b') = map (\<lambda>i. ''thread '' @ dec i @ '' allocated'') [0 ..< unat (st_nthreads s)]"
proof -
  obtain b1 where b1: "start_reader out cfg (st_neturl s) (st_basedir s) b = Inr b1"
    "seqE (map (start_parser out cfg (st_basedir s)) [0 ..< unat (st_nthreads s)]) b1 = Inr b'"
    using assms(1) by (auto simp: start_compute_def bindE_Inr_iff)
  from start_reader_result [OF b1(1)] start_parsers_result [OF b1(2)] assms(2) show ?thesis
    by (simp add: empty_boot_def reader_link_def)
qed

lemma case_Inr_iff: "(case r of Inl e \<Rightarrow> Inl (f e) | Inr a \<Rightarrow> g a) = Inr x \<longleftrightarrow> (\<exists>a. r = Inr a \<and> g a = Inr x)"
  by (cases r) simp_all

lemma start_storage_result:
  assumes "start_storage out s cfg mem env base files b = Inr (w', b')"
  shows "bt_links b' = bt_links b @ writer_links cfg" "bt_loggers b' = bt_loggers b @ [named ''fzwriter'']"
    "lines_of ''fzparser'' (bt_log b') = lines_of ''fzparser'' (bt_log b)"
    "\<exists>w. new_writer (st_subdir s) (st_runtag s) (st_runid s) env base files (m_fileid mem) (m_esize mem) (m_dsize mem) = Inr w \<and>
      main_limits s w = Inr w'"
proof -
  obtain w where w: "new_writer (st_subdir s) (st_runtag s) (st_runid s) env base files (m_fileid mem) (m_esize mem) (m_dsize mem) = Inr w"
    "start_writer out cfg (st_basedir s) w b = Inr b'" "main_limits s w = Inr w'"
    using assms unfolding start_storage_def case_Inr_iff bindE_Inr_iff by blast
  from start_writer_result [OF w(2)] show "bt_links b' = bt_links b @ writer_links cfg"
    "bt_loggers b' = bt_loggers b @ [named ''fzwriter'']"
    "lines_of ''fzparser'' (bt_log b') = lines_of ''fzparser'' (bt_log b)"
    by (simp_all add: writer_links_def)
  from w show "\<exists>w. new_writer (st_subdir s) (st_runtag s) (st_runid s) env base files (m_fileid mem) (m_esize mem) (m_dsize mem) = Inr w \<and>
      main_limits s w = Inr w'" by blast
qed

text \<open>The links and loggers of a node, by the profile.\<close>

definition node_links :: "settings \<Rightarrow> config \<Rightarrow> zlink list" where
  "node_links s cfg =
     (if is_compute (st_profile s) then reader_link cfg # concat (replicate (unat (st_nthreads s)) (parser_links cfg)) else []) @
     (if is_storage (st_profile s) then writer_links cfg else []) @ nm_links cfg"

lemma main_threads_result:
  assumes "main_threads out s cfg mem env base files b0 = Inr (n, b)" "empty_boot b0"
  shows "\<exists>host. os_host out = Some host \<and> main_build s cfg host mem env base files = Inr n"
    "nm_stats_ip cfg \<noteq> []" "bt_links b = node_links s cfg"
    "is_compute (st_profile s) \<Longrightarrow> unat (st_nthreads s) \<le> 7 \<and>
       (\<forall>i<unat (st_nthreads s). bt_loggers b ! Suc i = named (drop i ''fzfsm.'')) \<and>
       lines_of ''fzparser'' (bt_log b) = map (\<lambda>i. ''thread '' @ dec i @ '' allocated'') [0 ..< unat (st_nthreads s)]"
proof -
  let ?c = "is_compute (st_profile s)" and ?st = "is_storage (st_profile s)"
  obtain b1 wr b2 where b1: "(if ?c then start_compute out s cfg b0 else Inr b0) = Inr b1"
    and b2: "(if ?st then bindE (start_storage out s cfg mem env base files b1) (\<lambda>(w, b2). Inr (Some w, b2))
       else Inr (None, b1)) = Inr (wr, b2)"
    and b3: "start_nodemanager out cfg b2 = Inr b"
    and n: "n = new_nodemgr (get_default [] (os_host out)) (st_profile s)
       (cf_str cfg ''fzdaq.fznodemanager.runcontrol_mode'') (m_state mem)
       (if ?c then Some (new_reader (m_rec mem)) else None)
       (if ?c then replicate (unat (st_nthreads s)) (new_parser (st_evformat s) (m_fsm mem)) else []) wr"
    using assms(1) by (auto simp: main_threads_def Let_def bindE_Inr_iff)
  have w: "if ?st then \<exists>w w'. wr = Some w' \<and> main_limits s w = Inr w' \<and> new_writer (st_subdir s) (st_runtag s)
      (st_runid s) env base files (m_fileid mem) (m_esize mem) (m_dsize mem) = Inr w else wr = None"
    using b2 start_storage_result(4) by (cases ?st) (fastforce simp: bindE_Inr_iff)+
  obtain host where h: "os_host out = Some host" using start_nodemanager_result(1) [OF b3] by blast
  have "main_build s cfg host mem env base files = Inr n"
    using w by (auto simp: main_build_def Let_def n h get_default_def split: if_splits)
  with h show "\<exists>host. os_host out = Some host \<and> main_build s cfg host mem env base files = Inr n" by blast
  show "nm_stats_ip cfg \<noteq> []" by (rule start_nodemanager_result(2) [OF b3])
  have l2: "bt_links b2 = bt_links b1 @ (if ?st then writer_links cfg else [])"
    "\<exists>xs. bt_loggers b2 = bt_loggers b1 @ xs" "lines_of ''fzparser'' (bt_log b2) = lines_of ''fzparser'' (bt_log b1)"
    using b2 start_storage_result(1-3) by (cases ?st; fastforce simp: bindE_Inr_iff)+
  show "bt_links b = node_links s cfg"
    using start_nodemanager_result(3) [OF b3] l2(1) b1 start_compute_result [OF _ assms(2)] assms(2)
    by (cases ?c) (auto simp: node_links_def empty_boot_def)
  show "unat (st_nthreads s) \<le> 7 \<and> (\<forall>i<unat (st_nthreads s). bt_loggers b ! Suc i = named (drop i ''fzfsm.'')) \<and>
      lines_of ''fzparser'' (bt_log b) = map (\<lambda>i. ''thread '' @ dec i @ '' allocated'') [0 ..< unat (st_nthreads s)]" if ?c
  proof -
    have c: "start_compute out s cfg b0 = Inr b1" using b1 that by simp
    from l2(2) start_nodemanager_result(4) [OF b3] obtain xs where "bt_loggers b = bt_loggers b1 @ xs" by auto
    with start_compute_result [OF c assms(2)] l2(3) start_nodemanager_result(5) [OF b3] show ?thesis
      by (simp add: nth_append)
  qed
qed

subsection \<open>The wiring\<close>

text \<open>A connected end finds a bound end of the other kind.\<close>

definition joined :: "zlink list \<Rightarrow> zlink \<Rightarrow> bool" where
  "joined ls l \<longleftrightarrow> (\<exists>l'\<in>set ls. zl_bound l' \<and> zl_ep l' = zl_ep l \<and>
     (zl_kind l = Z_PUSH \<and> zl_kind l' = Z_PULL \<or> zl_kind l = Z_PULL \<and> zl_kind l' = Z_PUSH))"

definition default_endpoints :: "config \<Rightarrow> bool" where
  "default_endpoints cfg \<longleftrightarrow> (\<forall>p\<in>{''fzdaq.fzreader.producer'', ''fzdaq.fzparser.consumer'', ''fzdaq.fzparser.producer'',
     ''fzdaq.fzwriter.consumer''}. getZMQEndpoint cfg p = [])"

lemma node_links_joined:
  assumes "default_endpoints cfg" "l \<in> set (node_links s cfg)" "\<not> zl_bound l"
    "zl_ep l \<noteq> endpoint (nm_stats_ip cfg) FZC_COLLECTOR_PORT"
  shows "joined (node_links s cfg) l \<longleftrightarrow> zl_kind l = Z_PULL \<or> st_profile s = ''all''"
proof -
  have e: "endpoint h p \<noteq> ''inproc://'' @ x" for h p x by (simp add: endpoint_def)
  have ep: "reader_endpoint cfg = ''inproc://fzreader''" "parser_consumer cfg = ''inproc://fzreader''"
    "parser_producer cfg = ''inproc://fzwriter''" "writer_consumer cfg = ''inproc://fzwriter''"
    using assms(1) by (simp_all add: default_endpoints_def reader_endpoint_def parser_consumer_def parser_producer_def
        writer_consumer_def endpoint_or_def)
  have p: "is_compute (st_profile s)" "l \<in> set (parser_links cfg)"
    using assms(2-4) by (auto simp: node_links_def reader_link_def writer_links_def nm_links_def zsock_def split: if_splits)
  then have "is_storage (st_profile s) \<longleftrightarrow> st_profile s = ''all''" by (auto simp: is_compute_def is_storage_def)
  moreover have "joined (node_links s cfg) l" if "zl_kind l = Z_PULL"
  proof -
    have "reader_link cfg \<in> set (node_links s cfg)" using p(1) by (simp add: node_links_def)
    moreover have "zl_ep l = ''inproc://fzreader''" using p(2) that by (auto simp: parser_links_def zsock_def ep)
    ultimately show ?thesis using that unfolding joined_def
      by (intro bexI [of _ "reader_link cfg"]) (simp_all add: reader_link_def zsock_def ep)
  qed
  moreover have "joined (node_links s cfg) l \<longleftrightarrow> is_storage (st_profile s)" if "zl_kind l \<noteq> Z_PULL"
  proof -
    have l: "zl_ep l = ''inproc://fzwriter''" "zl_kind l = Z_PUSH"
      using p(2) that by (auto simp: parser_links_def zsock_def ep)
    have "l' \<in> set (writer_links cfg) \<and> is_storage (st_profile s)"
      if "l' \<in> set (node_links s cfg)" "zl_bound l'" "zl_ep l' = ''inproc://fzwriter''" for l'
      using that e [of _ _ "''fzwriter''"]
      by (auto simp: node_links_def reader_link_def nm_links_def parser_links_def zsock_def ep split: if_splits)
    moreover have "hd (writer_links cfg) \<in> set (node_links s cfg)" if "is_storage (st_profile s)"
      using that by (simp add: node_links_def writer_links_def)
    moreover have "zl_bound (hd (writer_links cfg))" "zl_ep (hd (writer_links cfg)) = ''inproc://fzwriter''"
      "zl_kind (hd (writer_links cfg)) = Z_PULL"
      by (simp_all add: writer_links_def zsock_def ep)
    ultimately show ?thesis unfolding joined_def l by auto
  qed
  ultimately show ?thesis by blast
qed

text \<open>
  C30. The start of a node puts it together as a whole. When it succeeds, the node is the one
  \<open>main_build\<close> describes, the controller's address was configured, and the run-control sockets
  are bound to the ports to which the controller sends requests and pushes states. Unless
  endpoints are configured, every parser of a node with the profile all is connected to the
  reader and to the writer of the program; in the profile compute none of them is connected to
  a writer.
\<close>

theorem node_wiring:
  assumes "main_threads out s cfg mem env base files b0 = Inr (n, b)" "empty_boot b0"
  shows "(\<exists>host. os_host out = Some host \<and> main_build s cfg host mem env base files = Inr n) \<and>
    (\<exists>l\<in>set (bt_links b). \<not> zl_bound l \<and> zl_ep l = endpoint (nm_stats_ip cfg) FZC_COLLECTOR_PORT \<and> nm_stats_ip cfg \<noteq> []) \<and>
    (\<exists>l\<in>set (bt_links b). zl_bound l \<and> zl_kind l = Z_REP \<and> zl_ep l = endpoint (nm_interface cfg) FZNM_REP_PORT) \<and>
    (\<exists>l\<in>set (bt_links b). zl_bound l \<and> zl_kind l = Z_PULL \<and> zl_ep l = endpoint (nm_interface cfg) FZNM_PULL_PORT) \<and>
    (default_endpoints cfg \<longrightarrow> (\<forall>l\<in>set (bt_links b). \<not> zl_bound l \<and> zl_ep l \<noteq> endpoint (nm_stats_ip cfg) FZC_COLLECTOR_PORT \<longrightarrow>
      (joined (bt_links b) l \<longleftrightarrow> zl_kind l = Z_PULL \<or> st_profile s = ''all'')))"
proof -
  note r = main_threads_result [OF assms]
  have c: "\<exists>l\<in>set (node_links s cfg). \<not> zl_bound l \<and> zl_ep l = endpoint (nm_stats_ip cfg) FZC_COLLECTOR_PORT \<and> nm_stats_ip cfg \<noteq> []"
    using r(2) by (simp add: node_links_def nm_links_def zsock_def)
  have p: "\<exists>l\<in>set (node_links s cfg). zl_bound l \<and> zl_kind l = Z_REP \<and> zl_ep l = endpoint (nm_interface cfg) FZNM_REP_PORT"
    "\<exists>l\<in>set (node_links s cfg). zl_bound l \<and> zl_kind l = Z_PULL \<and> zl_ep l = endpoint (nm_interface cfg) FZNM_PULL_PORT"
    by (simp_all add: node_links_def nm_links_def zsock_def)
  have q: "\<forall>l\<in>set (node_links s cfg). \<not> zl_bound l \<and> zl_ep l \<noteq> endpoint (nm_stats_ip cfg) FZC_COLLECTOR_PORT \<longrightarrow>
      (joined (node_links s cfg) l \<longleftrightarrow> zl_kind l = Z_PULL \<or> st_profile s = ''all'')" if "default_endpoints cfg"
    using node_links_joined [OF that] by blast
  show ?thesis unfolding r(3) by (intro conjI) (rule r(1), rule c, rule p(1), rule p(2), rule impI, erule q)
qed

text \<open>
  C31. The log files of the parsers. A node never starts more than seven parsers: the name of
  the logger of the eighth state machine lies behind the end of a literal. And a parser that has
  started has lost its own log file, because the logger was handed to the state machine, which
  connected it to another category: its only line there is the one that it was allocated, and
  nothing it writes later is added.
\<close>

theorem parser_logs:
  assumes "main_threads out s cfg mem env base files b0 = Inr (n, b)" "empty_boot b0" "is_compute (st_profile s)"
  shows "unat (st_nthreads s) \<le> 7 \<and>
    lines_of ''fzparser'' (bt_log b) = map (\<lambda>i. ''thread '' @ dec i @ '' allocated'') [0 ..< unat (st_nthreads s)] \<and>
    (\<forall>i<unat (st_nthreads s). \<forall>p t g. lines_of ''fzparser'' (log_write p t (bt_loggers b ! Suc i) g) = lines_of ''fzparser'' g)"
proof -
  note r = main_threads_result(4) [OF assms]
  have d: "drop i ''fzfsm.'' \<noteq> ''fzparser''" for i
  proof -
    have "length (drop i ''fzfsm.'') < length ''fzparser''" by simp
    then show ?thesis by (metis less_irrefl)
  qed
  have "lines_of ''fzparser'' (log_write p t (bt_loggers b ! Suc i) g) = lines_of ''fzparser'' g"
    if "i < unat (st_nthreads s)" for i p t g
  proof -
    have "bt_loggers b ! Suc i = named (drop i ''fzfsm.'')" using r that by blast
    then show ?thesis using d [of i] by (simp only: named_def lines_of_simps logger.simps simp_thms if_False append_Nil2)
  qed
  with r show ?thesis by blast
qed

definition all_well :: outside where
  "all_well = \<lparr>os_socket = \<lambda>_. True, os_attach = \<lambda>_ _. True, os_log = \<lambda>_. True, os_udp = \<lambda>_. True, os_host = Some ''n1''\<rparr>"

definition stats_config :: config where
  "stats_config = \<lparr>cf_str = [''fzdaq.fznodemanager.stats.ip'' \<mapsto> ''10.0.0.1''], cf_uint = \<lambda>_. None\<rparr>"

definition two_parsers :: settings where
  "two_parsers = \<lparr>st_profile = ''compute'', st_basedir = ''/l'', st_evformat = 1, st_neturl = [], st_nthreads = 2,
     st_subdir = [], st_runtag = [], st_runid = 0, st_esize = 10, st_dsize = 100\<rparr>"

definition no_memory :: memory where
  "no_memory = \<lparr>m_rec = False, m_fsm = fsm_zero, m_state = IDLE, m_fileid = 0, m_esize = 0, m_dsize = 0\<rparr>"

definition boot0 :: boot where
  "boot0 = \<lparr>bt_links = [], bt_log = new_logging, bt_own = new_logger, bt_loggers = []\<rparr>"

lemma all_well_steps:
  "zmq_create all_well m k b = Inr b" "zmq_attach all_well m l b = Inr (b\<lparr>bt_links := bt_links b @ [l]\<rparr>)"
  "udp_bind all_well u b = Inr b"
  "log_open all_well i f b = Inr (b\<lparr>bt_own := named i,
     bt_log := (bt_log b)\<lparr>lg_calls := lg_calls (bt_log b) @ [Log_configure (lg_propfile (bt_log b)), Log_attach i f]\<rparr>\<rparr>)"
  by (simp_all add: all_well_def zmq_create_def zmq_attach_def udp_bind_def log_open_def setFileConnection_def named_def)

lemma two_parsers_start:
  "\<exists>n b. main_threads all_well two_parsers stats_config no_memory \<lparr>w_time = 0, w_mkdir = True\<rparr> None (\<lambda>_. None) boot0 = Inr (n, b)"
proof -
  have u: "unat (st_nthreads two_parsers) = 2" "is_compute (st_profile two_parsers)" "\<not> is_storage (st_profile two_parsers)"
    by (simp_all add: two_parsers_def is_compute_def is_storage_def)
  have 1: "\<exists>b. start_reader all_well cfg x y b0 = Inr b" for cfg x y b0
    by (simp add: start_reader_def begin_object_def end_object_def log_say_def modify_def all_well_steps)
  have 2: "\<exists>b. start_parser all_well cfg y i b0 = Inr b" if "i \<le> 6" for cfg y i b0
    using that by (simp add: start_parser_def fsm_initlog_def literal_at_def begin_object_def end_object_def log_say_def
        modify_def all_well_steps)
  have l: "[0 ..< 2] = [0 :: nat, 1]" by code_simp
  have "\<exists>b. seqE (map (start_parser all_well cfg y) [0 ..< 2]) b0 = Inr b" for cfg y b0
  proof -
    obtain b1 where "start_parser all_well cfg y 0 b0 = Inr b1" using 2 [of 0 cfg y b0] by auto
    moreover obtain b2 where "start_parser all_well cfg y 1 b1 = Inr b2" using 2 [of 1 cfg y b1] by auto
    ultimately show ?thesis by (simp only: l list.map seqE.simps bindE_simps) blast
  qed
  then have 3: "\<exists>b. start_compute all_well two_parsers cfg b0 = Inr b" for cfg b0
    using 1 [of cfg "st_neturl two_parsers" "st_basedir two_parsers" b0] by (auto simp: start_compute_def u)
  have h: "os_host all_well = Some ''n1''" "nm_stats_ip stats_config = ''10.0.0.1''"
    by (simp_all add: all_well_def nm_stats_ip_def stats_config_def get_default_def)
  have 4: "\<exists>b. start_nodemanager all_well stats_config b0 = Inr b" for b0
    by (simp add: start_nodemanager_def begin_object_def end_object_def log_say_def modify_def all_well_steps require_def h)
  obtain b1 where b1: "start_compute all_well two_parsers stats_config boot0 = Inr b1" using 3 by blast
  obtain b2 where "start_nodemanager all_well stats_config b1 = Inr b2" using 4 by blast
  with b1 show ?thesis by (simp add: main_threads_def u Let_def)
qed

lemma boot0_empty: "empty_boot boot0"
  by (simp add: empty_boot_def boot0_def new_logging_def lines_of_def)

theorem node_wiring_witness:
  "\<exists>n b. main_threads all_well two_parsers stats_config no_memory \<lparr>w_time = 0, w_mkdir = True\<rparr> None (\<lambda>_. None) boot0 = Inr (n, b) \<and>
     main_build two_parsers stats_config ''n1'' no_memory \<lparr>w_time = 0, w_mkdir = True\<rparr> None (\<lambda>_. None) = Inr n \<and>
     (\<forall>l\<in>set (bt_links b). \<not> zl_bound l \<and> zl_ep l \<noteq> endpoint ''10.0.0.1'' FZC_COLLECTOR_PORT \<longrightarrow>
        (joined (bt_links b) l \<longleftrightarrow> zl_kind l = Z_PULL))"
proof -
  have h: "os_host all_well = Some ''n1''" "nm_stats_ip stats_config = ''10.0.0.1''" "st_profile two_parsers \<noteq> ''all''"
    by (simp_all add: all_well_def nm_stats_ip_def stats_config_def get_default_def two_parsers_def)
  have d: "default_endpoints stats_config"
    by (simp add: default_endpoints_def getZMQEndpoint_def stats_config_def)
  obtain n b where r: "main_threads all_well two_parsers stats_config no_memory \<lparr>w_time = 0, w_mkdir = True\<rparr> None (\<lambda>_. None) boot0 = Inr (n, b)"
    using two_parsers_start by blast
  from node_wiring [OF r boot0_empty] h d r show ?thesis by auto
qed

theorem parser_logs_witness:
  "\<exists>n b. main_threads all_well two_parsers stats_config no_memory \<lparr>w_time = 0, w_mkdir = True\<rparr> None (\<lambda>_. None) boot0 = Inr (n, b) \<and>
     lines_of ''fzparser'' (bt_log b) = [''thread 0 allocated'', ''thread 1 allocated'']"
proof -
  obtain n b where r: "main_threads all_well two_parsers stats_config no_memory \<lparr>w_time = 0, w_mkdir = True\<rparr> None (\<lambda>_. None) boot0 = Inr (n, b)"
    using two_parsers_start by blast
  have c: "is_compute (st_profile two_parsers)" "unat (st_nthreads two_parsers) = 2"
    by (simp_all add: two_parsers_def is_compute_def)
  have d: "map (\<lambda>i. ''thread '' @ dec i @ '' allocated'') [0 ..< 2] = [''thread 0 allocated'', ''thread 1 allocated'']"
    by code_simp
  from parser_logs [OF r boot0_empty c(1)] r show ?thesis unfolding c(2) d by blast
qed

end
