(* ===== verification/FzWeblog.thy ===== *)
theory FzWeblog
  imports FzNodeTable FzText
begin

section \<open>The web log\<close>

text \<open>
  \<open>logger/FzHttpPost.cpp\<close>, which groups lines of key-value pairs into HTTP posts below the
  limit of PHP, and the thread of \<open>controller/weblog.cpp\<close>, which posts the last reports of
  the nodes. libcurl is left out: a form is the list of its pairs, a post performed is the
  list of the forms sent. \<open>sprintf\<close> into the 50 bytes of \<open>supp\<close> is an error when the text
  with its final zero does not fit; the name of the array has no percent sign. The counts
  are ints far from overflow.
\<close>

subsection \<open>Posts\<close>

datatype web_error = Overflow | Fsm_range

type_synonym form = "(string \<times> string) list"

definition fNHdrElements :: int where
  "fNHdrElements = 2"

record post =
  hp_url :: string
  hp_user :: string
  hp_category :: string
  hp_array :: string
  hp_max :: int
  hp_pairs_line :: int
  hp_line :: int
  hp_pairs :: int
  hp_form :: form
  hp_sent :: "form list"

text \<open>The three counts are not initialised by the constructor.\<close>

definition new_post :: "int \<Rightarrow> int \<Rightarrow> int \<Rightarrow> post" where
  "new_post a b c = \<lparr>hp_url = [], hp_user = ''SlowControls'', hp_category = ''SlowControls'',
     hp_array = [], hp_max = 1000, hp_pairs_line = a, hp_line = b, hp_pairs = c, hp_form = [], hp_sent = []\<rparr>"

definition AddKeyValuePair :: "string \<Rightarrow> string \<Rightarrow> post \<Rightarrow> post" where
  "AddKeyValuePair k v p = p\<lparr>hp_form := hp_form p @ [(k, v)], hp_pairs := hp_pairs p + 1\<rparr>"

definition SetServerURL :: "string \<Rightarrow> post \<Rightarrow> post" where "SetServerURL u p = p\<lparr>hp_url := u\<rparr>"
definition GetServerURL :: "post \<Rightarrow> string" where "GetServerURL p = hp_url p"
definition SetDBUserName :: "string \<Rightarrow> post \<Rightarrow> post" where "SetDBUserName u p = p\<lparr>hp_user := u\<rparr>"
definition SetDBCategory :: "string \<Rightarrow> post \<Rightarrow> post" where "SetDBCategory u p = p\<lparr>hp_category := u\<rparr>"
definition SetPHPLimit :: "int \<Rightarrow> post \<Rightarrow> post" where "SetPHPLimit m p = p\<lparr>hp_max := m\<rparr>"
definition SetPHPArrayName :: "string \<Rightarrow> post \<Rightarrow> post" where "SetPHPArrayName u p = p\<lparr>hp_array := u\<rparr>"

definition NewPost :: "post \<Rightarrow> post" where
  "NewPost p = p\<lparr>hp_form := [], hp_line := 0, hp_pairs_line := 0, hp_pairs := 0\<rparr>"

definition CheckPHPLimit :: "post \<Rightarrow> bool" where
  "CheckPHPLimit p = (hp_pairs p + fNHdrElements > hp_max p - hp_pairs_line p)"

definition SendPost :: "post \<Rightarrow> post" where
  "SendPost p =
     (if hp_pairs p = 0 then p
      else let p1 = AddKeyValuePair ''user'' (hp_user p) p;
               p2 = AddKeyValuePair ''category'' (hp_category p) p1
           in p2\<lparr>hp_sent := hp_sent p2 @ [hp_form p2], hp_form := [], hp_line := 0, hp_pairs := 0\<rparr>)"

definition NewLine :: "post \<Rightarrow> post" where
  "NewLine p =
     (if hp_pairs p = 0 then p
      else let p1 = (if hp_pairs_line p = 0 then p\<lparr>hp_pairs_line := hp_pairs p\<rparr> else p)
           in if CheckPHPLimit p1 then SendPost p1 else p1\<lparr>hp_line := hp_line p1 + 1\<rparr>)"

definition int_text :: "int \<Rightarrow> string" where
  "int_text n = (if n < 0 then CHR ''-'' # dec (nat (- n)) else dec (nat n))"

definition array_element :: "string \<Rightarrow> post \<Rightarrow> string" where
  "array_element k p = hp_array p @ ''['' @ int_text (hp_line p) @ '']['' @ k @ '']''"

definition AddToPost :: "string \<Rightarrow> string \<Rightarrow> (web_error, post) stmt" where
  "AddToPost k v p =
     (if length (array_element k p) \<ge> 50 then Inl Overflow
      else Inr (AddKeyValuePair (array_element k p) v p))"

definition AddToPost_int :: "string \<Rightarrow> int \<Rightarrow> (web_error, post) stmt" where
  "AddToPost_int k v = AddToPost k (int_text v)"

subsection \<open>The thread\<close>

definition u64_text :: "u64 \<Rightarrow> string" where "u64_text x = dec (unat x)"
definition u32_text :: "u32 \<Rightarrow> string" where "u32_text x = dec (unat x)"

text \<open>A total over the machines of a node: 32 bits, and \<open>fsm(i)\<close> must exist.\<close>

definition fsm_total :: "(NodeFsm \<Rightarrow> u64) \<Rightarrow> Node \<Rightarrow> u32" where
  "fsm_total f rep = fold (\<lambda>i s. s + ucast (f (n_fsm rep ! i))) [0..<unat (n_parser_num rep)] 0"

definition add_all :: "(string \<times> string) list \<Rightarrow> (web_error, post) stmt" where
  "add_all kvs = seqE (map (\<lambda>(k, v). AddToPost k v) kvs)"

definition reader_line :: "Node \<Rightarrow> ReaderReport \<Rightarrow> (string \<times> string) list" where
  "reader_line rep r = [
     (''hostname'', n_hostname rep),
     (''in_data'', u64_text (rr_in_bytes r)),
     (''in_databw'', u32_text (rr_in_bytes_bw r)),
     (''in_event'', u64_text (rr_in_events r)),
     (''in_eventbw'', u32_text (rr_in_events_bw r)),
     (''state_invalid'', u32_text (fsm_total nf_state_invalid rep)),
     (''events_empty'', u32_text (fsm_total nf_events_empty rep)),
     (''events_good'', u32_text (fsm_total nf_events_good rep)),
     (''events_bad'', u32_text (fsm_total nf_events_bad rep))]"

definition writer_line :: "Node \<Rightarrow> WriterReport \<Rightarrow> (string \<times> string) list" where
  "writer_line rep w = [
     (''hostname'', n_hostname rep),
     (''out_data'', u64_text (wr_out_bytes w)),
     (''out_databw'', u32_text (wr_out_bytes_bw w)),
     (''out_event'', u64_text (wr_out_events w)),
     (''out_eventbw'', u32_text (wr_out_events_bw w))]"

text \<open>The body of both loops: the post is begun with the first line that is sent.\<close>

definition post_line :: "string \<Rightarrow> (string \<times> string) list \<Rightarrow> bool \<times> post \<Rightarrow> web_error + (bool \<times> post)" where
  "post_line cat line s =
     (let p1 = (if fst s then snd s else NewPost (snd s))
      in bindE (add_all line (SetDBCategory cat p1)) (\<lambda>p2. Inr (True, NewLine p2)))"

fun reader_loop :: "Node list \<Rightarrow> Node \<Rightarrow> bool \<times> post \<Rightarrow> web_error + (Node \<times> bool \<times> post)" where
  "reader_loop [] rep s = Inr (rep, s)"
| "reader_loop (n # ns) rep s =
     (case n_reader n of
        None \<Rightarrow> reader_loop ns n s
      | Some r \<Rightarrow>
          if unat (n_parser_num n) > length (n_fsm n) then Inl Fsm_range
          else bindE (post_line ''daq_reader'' (reader_line n r) s) (reader_loop ns n))"

text \<open>The second loop walks over the map but never reads it: \<open>rep\<close> is what the first loop
  left there.\<close>

fun writer_loop :: "Node list \<Rightarrow> Node \<Rightarrow> bool \<times> post \<Rightarrow> web_error + (bool \<times> post)" where
  "writer_loop [] rep s = Inr s"
| "writer_loop (n # ns) rep s =
     (case n_writer rep of
        None \<Rightarrow> writer_loop ns rep s
      | Some w \<Rightarrow> bindE (post_line ''daq_writer'' (writer_line rep w) s) (writer_loop ns rep))"

definition send_if :: "bool \<times> post \<Rightarrow> post" where
  "send_if s = (if fst s then SendPost (snd s) else snd s)"

text \<open>One round over the nodes; \<open>rep\<close> outlives the round.\<close>

definition weblog_round :: "Node list \<Rightarrow> Node \<times> post \<Rightarrow> web_error + (Node \<times> post)" where
  "weblog_round ns s =
     bindE (reader_loop ns (fst s) (False, snd s)) (\<lambda>(rep, t).
     bindE (writer_loop ns rep (False, send_if t)) (\<lambda>u. Inr (rep, send_if u)))"

definition weblog_post :: "string \<Rightarrow> string \<Rightarrow> int \<Rightarrow> int \<Rightarrow> int \<Rightarrow> post" where
  "weblog_post url user a b c = SetDBUserName user (SetPHPArrayName ''par'' (SetServerURL url (new_post a b c)))"

subsection \<open>A line\<close>

lemma int_text_length:
  assumes "0 \<le> n" "n < 1000000"
  shows "length (int_text n) \<le> 6"
proof -
  have "nat n < 10 ^ 6" using assms by simp
  from dec_length [OF _ this] show ?thesis using assms(1) by (simp add: int_text_def)
qed

lemma AddKeyValuePair_fields [simp]:
  "hp_array (AddKeyValuePair k v p) = hp_array p" "hp_line (AddKeyValuePair k v p) = hp_line p"
  "hp_max (AddKeyValuePair k v p) = hp_max p" "hp_pairs_line (AddKeyValuePair k v p) = hp_pairs_line p"
  "hp_sent (AddKeyValuePair k v p) = hp_sent p" "hp_form (AddKeyValuePair k v p) = hp_form p @ [(k, v)]"
  "hp_pairs (AddKeyValuePair k v p) = hp_pairs p + 1"
  by (simp_all add: AddKeyValuePair_def)

lemma array_element_short:
  assumes "length (hp_array p) \<le> 10" "0 \<le> hp_line p" "hp_line p < 1000000" "length k \<le> 13"
  shows "length (array_element k p) < 50"
  using assms int_text_length [OF assms(2,3)] by (simp add: array_element_def)

lemma add_all_short:
  assumes "length (hp_array p) \<le> 10" "0 \<le> hp_line p" "hp_line p < 1000000" "\<forall>kv\<in>set kvs. length (fst kv) \<le> 13"
  shows "add_all kvs p = Inr (p\<lparr>hp_form := hp_form p @ map (\<lambda>kv. (array_element (fst kv) p, snd kv)) kvs,
           hp_pairs := hp_pairs p + int (length kvs)\<rparr>)"
  using assms
proof (induction kvs arbitrary: p)
  case (Cons kv kvs)
  let ?p = "AddKeyValuePair (array_element (fst kv) p) (snd kv) p"
  have e: "array_element k ?p = array_element k p" for k by (simp add: array_element_def)
  have "AddToPost (fst kv) (snd kv) p = Inr ?p"
    using array_element_short [OF Cons.prems(1-3), of "fst kv"] Cons.prems(4) by (simp add: AddToPost_def)
  then have "add_all (kv # kvs) p = add_all kvs ?p" by (simp add: add_all_def case_prod_unfold)
  also have "\<dots> = Inr (p\<lparr>hp_form := hp_form p @ map (\<lambda>kv. (array_element (fst kv) p, snd kv)) (kv # kvs),
           hp_pairs := hp_pairs p + int (length (kv # kvs))\<rparr>)"
    using Cons.IH [of ?p] Cons.prems by (simp add: e) (simp add: AddKeyValuePair_def)
  finally show ?case .
qed (simp add: add_all_def)

subsection \<open>What the server is told\<close>

text \<open>The values of a post without its two header fields, and all the values sent or
  waiting.\<close>

definition body :: "form \<Rightarrow> string list" where
  "body f = map snd (take (length f - 2) f)"

definition told :: "post \<Rightarrow> string list" where
  "told p = concat (map body (hp_sent p)) @ map snd (hp_form p)"

definition post_base :: "post \<Rightarrow> bool" where
  "post_base p \<longleftrightarrow> length (hp_array p) \<le> 10 \<and> 20 \<le> hp_max p \<and> hp_max p \<le> 1000000 \<and>
     (\<forall>f\<in>set (hp_sent p). int (length f) \<le> hp_max p)"

text \<open>A post between two lines of \<open>k\<close> pairs: there is room for another line.\<close>

definition post_open :: "nat \<Rightarrow> post \<Rightarrow> bool" where
  "post_open k p \<longleftrightarrow> post_base p \<and> hp_pairs p = int (length (hp_form p)) \<and> hp_pairs p = int k * hp_line p \<and>
     0 \<le> hp_line p \<and> (hp_pairs_line p = int k \<or> hp_pairs_line p = 0 \<and> hp_pairs p = 0) \<and>
     hp_pairs p + 2 + int k \<le> hp_max p"

definition web_state :: "nat \<Rightarrow> bool \<times> post \<Rightarrow> bool" where
  "web_state k s \<longleftrightarrow> (if fst s then post_open k (snd s) else post_base (snd s) \<and> hp_form (snd s) = [])"

lemma SendPost_told:
  assumes "post_base p" "hp_pairs p = int (length (hp_form p))" "hp_pairs p + 2 \<le> hp_max p"
  shows "told (SendPost p) = told p \<and> hp_form (SendPost p) = [] \<and> post_base (SendPost p) \<and>
    hp_pairs_line (SendPost p) = hp_pairs_line p \<and> hp_pairs (SendPost p) = 0 \<and>
    (hp_pairs p \<noteq> 0 \<longrightarrow> hp_line (SendPost p) = 0) \<and> hp_max (SendPost p) = hp_max p"
  using assms by (auto simp: SendPost_def told_def body_def post_base_def Let_def)

lemma post_line_told:
  assumes s: "web_state k s" and l: "length line = k" "0 < k" "k \<le> 9" "\<forall>kv\<in>set line. length (fst kv) \<le> 13"
  shows "\<exists>p'. post_line cat line s = Inr (True, p') \<and> web_state k (True, p') \<and>
    told p' = told (snd s) @ map snd line"
proof -
  define p1 where "p1 = SetDBCategory cat (if fst s then snd s else NewPost (snd s))"
  have o: "post_open k p1" and t1: "told p1 = told (snd s)"
    using s l by (auto simp: p1_def web_state_def post_open_def post_base_def told_def SetDBCategory_def NewPost_def
        split: if_splits)
  have "1 * hp_line p1 \<le> int k * hp_line p1"
    using o l(2) by (intro mult_right_mono) (auto simp: post_open_def)
  then have ln: "hp_line p1 < 1000000" using o by (auto simp: post_open_def post_base_def)
  define p2 where "p2 = p1\<lparr>hp_form := hp_form p1 @ map (\<lambda>kv. (array_element (fst kv) p1, snd kv)) line,
           hp_pairs := hp_pairs p1 + int (length line)\<rparr>"
  have a: "add_all line p1 = Inr p2"
    unfolding p2_def by (rule add_all_short) (use o ln l in \<open>auto simp: post_open_def post_base_def\<close>)
  define p3 where "p3 = (if hp_pairs_line p2 = 0 then p2\<lparr>hp_pairs_line := hp_pairs p2\<rparr> else p2)"
  have p3: "post_base p3" "hp_pairs p3 = int (length (hp_form p3))" "hp_pairs p3 + 2 \<le> hp_max p3"
    "hp_pairs_line p3 = int k" "hp_pairs p3 = int k * (hp_line p3 + 1)" "0 \<le> hp_line p3" "hp_pairs p3 \<noteq> 0"
    "told p3 = told p1 @ map snd line"
    using o l by (auto simp: p3_def p2_def post_open_def post_base_def told_def algebra_simps comp_def)
  have n: "NewLine p2 = (if CheckPHPLimit p3 then SendPost p3 else p3\<lparr>hp_line := hp_line p3 + 1\<rparr>)"
    using o l by (simp add: NewLine_def p3_def Let_def p2_def post_open_def)
  have "post_open k (NewLine p2)" "told (NewLine p2) = told p3"
    unfolding n using SendPost_told [OF p3(1-3)] p3 l
    by (auto simp: post_open_def CheckPHPLimit_def fNHdrElements_def post_base_def told_def)
  then show ?thesis using a t1 p3(8)
    by (simp add: post_line_def p1_def [symmetric] web_state_def Let_def)
qed

lemma send_if_told:
  assumes "web_state k s"
  shows "told (send_if s) = told (snd s) \<and> post_base (send_if s) \<and> hp_form (send_if s) = []"
  using assms SendPost_told [of "snd s"] by (auto simp: send_if_def web_state_def post_open_def)

definition reader_values :: "Node \<Rightarrow> string list" where
  "reader_values n = (case n_reader n of None \<Rightarrow> [] | Some r \<Rightarrow> map snd (reader_line n r))"

definition writer_values :: "Node \<Rightarrow> string list" where
  "writer_values n = (case n_writer n of None \<Rightarrow> [] | Some w \<Rightarrow> map snd (writer_line n w))"

definition fsm_ok :: "Node \<Rightarrow> bool" where
  "fsm_ok n \<longleftrightarrow> n_reader n \<noteq> None \<longrightarrow> unat (n_parser_num n) \<le> length (n_fsm n)"

lemma reader_loop_told:
  assumes "web_state 9 s" "list_all fsm_ok ns"
  shows "\<exists>s'. reader_loop ns rep s = Inr (if ns = [] then rep else last ns, s') \<and> web_state 9 s' \<and>
    told (snd s') = told (snd s) @ concat (map reader_values ns)"
  using assms
proof (induction ns arbitrary: rep s)
  case (Cons n ns)
  show ?case
  proof (cases "n_reader n")
    case None
    then show ?thesis using Cons.IH [of s n] Cons.prems by (simp add: reader_values_def)
  next
    case (Some r)
    have "\<exists>p'. post_line ''daq_reader'' (reader_line n r) s = Inr (True, p') \<and> web_state 9 (True, p') \<and>
        told p' = told (snd s) @ map snd (reader_line n r)"
      by (rule post_line_told [OF Cons.prems(1)]) (simp_all add: reader_line_def)
    then obtain p' where p': "post_line ''daq_reader'' (reader_line n r) s = Inr (True, p')"
      "web_state 9 (True, p')" "told p' = told (snd s) @ map snd (reader_line n r)" by blast
    moreover have "\<not> length (n_fsm n) < unat (n_parser_num n)"
      using Cons.prems(2) Some by (simp add: fsm_ok_def)
    ultimately show ?thesis using Cons.IH [OF p'(2), of n] Cons.prems(2) Some
      by (auto simp: reader_values_def)
  qed
qed simp

lemma writer_loop_told:
  assumes "web_state 5 s"
  shows "\<exists>s'. writer_loop ns rep s = Inr s' \<and> web_state 5 s' \<and>
    told (snd s') = told (snd s) @ concat (replicate (length ns) (writer_values rep))"
  using assms
proof (induction ns arbitrary: s)
  case (Cons n ns)
  show ?case
  proof (cases "n_writer rep")
    case None
    then show ?thesis using Cons.IH [OF Cons.prems] by (simp add: writer_values_def)
  next
    case (Some w)
    have "\<exists>p'. post_line ''daq_writer'' (writer_line rep w) s = Inr (True, p') \<and> web_state 5 (True, p') \<and>
        told p' = told (snd s) @ map snd (writer_line rep w)"
      by (rule post_line_told [OF Cons.prems]) (simp_all add: writer_line_def)
    then obtain p' where p': "post_line ''daq_writer'' (writer_line rep w) s = Inr (True, p')"
      "web_state 5 (True, p')" "told p' = told (snd s) @ map snd (writer_line rep w)" by blast
    with Cons.IH [OF p'(2)] Some show ?thesis by (auto simp: writer_values_def)
  qed
qed simp

text \<open>C36. What a round posts: no buffer overflows, no post exceeds the limit of PHP and the
  values arrive in order and once, whatever the grouping into posts. They are the lines of
  the nodes with a reader, then, once per node of the table, the writer line of the last
  node only: the writers of the other nodes are never posted.\<close>

theorem weblog_round_posts:
  assumes "post_base p" "hp_form p = []" "list_all fsm_ok ns"
  shows "\<exists>p'. weblog_round ns (rep, p) = Inr (if ns = [] then rep else last ns, p') \<and>
    (\<forall>f\<in>set (hp_sent p'). int (length f) \<le> hp_max p') \<and> hp_form p' = [] \<and>
    told p' = told p @ concat (map reader_values ns) @
      concat (replicate (length ns) (writer_values (if ns = [] then rep else last ns)))"
proof -
  let ?rep = "if ns = [] then rep else last ns"
  have "web_state 9 (False, p)" using assms(1,2) by (simp add: web_state_def)
  from reader_loop_told [OF this assms(3), of rep] obtain t where t:
    "reader_loop ns rep (False, p) = Inr (?rep, t)" "web_state 9 t"
    "told (snd t) = told p @ concat (map reader_values ns)" by auto
  note q = send_if_told [OF t(2)]
  have "web_state 5 (False, send_if t)" using q by (simp add: web_state_def)
  from writer_loop_told [OF this, of ns ?rep] obtain u where u:
    "writer_loop ns ?rep (False, send_if t) = Inr u" "web_state 5 u"
    "told (snd u) = told (send_if t) @ concat (replicate (length ns) (writer_values ?rep))" by auto
  note v = send_if_told [OF u(2)]
  have "weblog_round ns (rep, p) = Inr (?rep, send_if u)"
    using t(1) u(1) by (simp add: weblog_round_def del: split_paired_Ex)
  with q v t(3) u(3) show ?thesis by (simp add: post_base_def)
qed

definition web_nodes :: "Node list" where
  "web_nodes = [
     new_Node\<lparr>n_hostname := ''n1'', n_reader := Some new_ReaderReport, n_writer := Some new_WriterReport\<rparr>,
     new_Node\<lparr>n_hostname := ''n2'', n_writer := Some new_WriterReport\<rparr>]"

theorem weblog_round_posts_witness:
  "\<exists>p'. weblog_round web_nodes (new_Node, weblog_post ''u'' ''v'' 0 0 0) = Inr (last web_nodes, p') \<and>
     told p' = reader_values (hd web_nodes) @ writer_values (last web_nodes) @ writer_values (last web_nodes)"
proof -
  let ?p = "weblog_post ''u'' ''v'' 0 0 0"
  have "post_base ?p" "hp_form ?p = []" "told ?p = []"
    by (simp_all add: weblog_post_def new_post_def SetDBUserName_def SetPHPArrayName_def SetServerURL_def
        post_base_def told_def)
  moreover have "list_all fsm_ok web_nodes" by (simp add: web_nodes_def fsm_ok_def new_Node_def)
  ultimately have "\<exists>p'. weblog_round web_nodes (new_Node, ?p) = Inr (last web_nodes, p') \<and>
      told p' = concat (map reader_values web_nodes) @ concat (replicate (length web_nodes) (writer_values (last web_nodes)))"
    using weblog_round_posts [of ?p web_nodes new_Node] by (auto simp: web_nodes_def)
  then show ?thesis by (simp add: web_nodes_def reader_values_def new_Node_def)
qed

end
