(* ===== verification/FzCtlMain.thy ===== *)
theory FzCtlMain
  imports FzStart FzWeblog
begin

section \<open>The program of the controller\<close>

text \<open>
  \<open>controller/main.cpp\<close>, \<open>FzController.cpp\<close>, \<open>log.cpp\<close>, the configuration of the collector
  (\<open>collector.cpp\<close>), the run control (\<open>rcs.cpp\<close>) and the web log (\<open>weblog.cpp\<close>), and the
  start and the end of the four threads. The rounds of the threads are those of \<open>FzController\<close>,
  \<open>FzCli\<close> and \<open>FzWeblog\<close>.
\<close>

subsection \<open>State\<close>

record ctl_config = config +
  cf_int :: "string \<Rightarrow> int option"

datatype ctl_thread = Thr_collector | Thr_rcs | Thr_cli | Thr_weblog

text \<open>The open sockets, the threads that run and the members the configuration sets.\<close>

record fzc =
  fz_cfg :: ctl_config
  fz_hascfg :: bool
  fz_links :: "zlink list"
  fz_threads :: "ctl_thread list"
  fz_haswl :: bool
  fz_wl_url :: string
  fz_wl_user :: string
  fz_wl_interval :: int
  fz_exit :: bool
  fz_clog :: logger
  fz_log :: logging
  fz_context :: bool

text \<open>What the constructors find in uninitialised memory.\<close>

record ctl_memory =
  cm_hascfg :: bool
  cm_interval :: int

definition empty_config :: ctl_config where
  "empty_config = \<lparr>cf_str = \<lambda>_. None, cf_uint = \<lambda>_. None, cf_int = \<lambda>_. None\<rparr>"

datatype ctl_file = Ctl_read ctl_config | Ctl_syntax nat | Ctl_missing

definition fzc_members :: "ctl_memory \<Rightarrow> ctl_config \<Rightarrow> bool \<Rightarrow> fzc" where
  "fzc_members mem cfg has = \<lparr>fz_cfg = cfg, fz_hascfg = has, fz_links = [], fz_threads = [], fz_haswl = False,
     fz_wl_url = [], fz_wl_user = [], fz_wl_interval = cm_interval mem, fz_exit = False, fz_clog = new_logger,
     fz_log = new_logging, fz_context = True\<rparr>"

definition new_fzc_cfg :: "ctl_memory \<Rightarrow> (string \<Rightarrow> ctl_file) \<Rightarrow> string \<Rightarrow> start_error + fzc" where
  "new_fzc_cfg mem rd cfgfile =
     (case rd cfgfile of
        Ctl_syntax n \<Rightarrow> Inl (S_exit (''configuration file line '' @ dec n))
      | Ctl_missing \<Rightarrow> Inl (S_exit (''cannot open configuration file '' @ cfgfile))
      | Ctl_read cfg \<Rightarrow> Inr (fzc_members mem cfg True))"

text \<open>This constructor does not set \<open>hascfg\<close>.\<close>

definition new_fzc :: "ctl_memory \<Rightarrow> fzc" where
  "new_fzc mem = fzc_members mem empty_config (cm_hascfg mem)"

subsection \<open>Configuration\<close>

definition ctl_socket :: "outside \<Rightarrow> string \<Rightarrow> string \<Rightarrow> zlink \<Rightarrow> (start_error, fzc) stmt" where
  "ctl_socket out msg1 msg2 l c =
     (if \<not> os_socket out (zl_kind l) then Inl (S_exit msg1)
      else if \<not> os_attach out (fz_links c) l then Inl (S_exit (msg2 @ zl_ep l))
      else Inr (c\<lparr>fz_links := fz_links c @ [l]\<rparr>))"

definition ctl_say :: "log_priority \<Rightarrow> string \<Rightarrow> (start_error, fzc) stmt" where
  "ctl_say p t = modify (\<lambda>c. c\<lparr>fz_log := log_write p t (fz_clog c) (fz_log c)\<rparr>)"

definition configure_log :: "outside \<Rightarrow> (start_error, fzc) stmt" where
  "configure_log out c =
     (let g = (case cf_str (fz_cfg c) ''fzdaq.global.logpropfile'' of
                 Some f \<Rightarrow> setPropertyFile f (fz_log c) | None \<Rightarrow> fz_log c)
      in case setFileConnection (os_log out) ''fzcontroller'' ''/var/log/fzdaq/fzcontroller.log'' g of
           Inl e \<Rightarrow> Inl S_log
         | Inr (l, g') \<Rightarrow> Inr (c\<lparr>fz_clog := l, fz_log := g'\<rparr>))"

definition ctl_endpoint :: "nat \<Rightarrow> fzc \<Rightarrow> string" where
  "ctl_endpoint port c =
     (case (if fz_hascfg c then cf_str (fz_cfg c) ''fzdaq.fzcontroller.interface'' else None) of
        Some netint \<Rightarrow> endpoint netint port
      | None \<Rightarrow> endpoint ''eth0'' port)"

definition configure_collector :: "outside \<Rightarrow> (start_error, fzc) stmt" where
  "configure_collector out c =
     seqE [ctl_socket out ''FzController: failed to start ZeroMQ report pull''
             ''FzController: failed to bind ZeroMQ endpoint ''
             ((zsock Z_PULL True (ctl_endpoint FZC_COLLECTOR_PORT c))\<lparr>zl_rcvtimeo := Some 1000\<rparr>),
           ctl_say INFO ''node report monitoring loop started''] c"

definition FZC_RC_PORT :: nat where "FZC_RC_PORT = 5555"

definition configure_rcs :: "outside \<Rightarrow> (start_error, fzc) stmt" where
  "configure_rcs out c =
     ctl_socket out ''FzController: failed to start ZeroMQ run control reply''
       ''FzNodeManager: failed to bind ZeroMQ endpoint ''
       ((zsock Z_REP True (ctl_endpoint FZC_RC_PORT c))\<lparr>zl_rcvtimeo := Some 500, zl_linger := Some 0\<rparr>) c"

text \<open>An interval or a name that is missing switches the web log off again.\<close>

definition weblog_url :: "fzc \<Rightarrow> fzc" where
  "weblog_url c =
     (let c0 = c\<lparr>fz_haswl := False\<rparr> in
      if fz_hascfg c
      then (case cf_str (fz_cfg c) ''fzdaq.fzcontroller.weblog.url'' of
              Some u \<Rightarrow> c0\<lparr>fz_wl_url := u, fz_haswl := True\<rparr> | None \<Rightarrow> c0)
      else c0)"

definition weblog_user :: "fzc \<Rightarrow> fzc" where
  "weblog_user c =
     (case cf_str (fz_cfg c) ''fzdaq.fzcontroller.weblog.username'' of
        Some u \<Rightarrow> c\<lparr>fz_wl_user := u\<rparr> | None \<Rightarrow> c\<lparr>fz_haswl := False\<rparr>)"

definition weblog_interval :: "fzc \<Rightarrow> fzc" where
  "weblog_interval c =
     (case cf_int (fz_cfg c) ''fzdaq.fzcontroller.weblog.interval'' of
        Some n \<Rightarrow> c\<lparr>fz_wl_interval := n\<rparr> | None \<Rightarrow> c\<lparr>fz_haswl := False\<rparr>)"

definition configure_weblog :: "fzc \<Rightarrow> fzc" where
  "configure_weblog c =
     (let c1 = weblog_url c in if fz_haswl c1 then weblog_interval (weblog_user c1) else c1)"

definition fzc_configure :: "outside \<Rightarrow> (start_error, fzc) stmt" where
  "fzc_configure out =
     seqE [configure_log out, configure_collector out, configure_rcs out, modify configure_weblog]"

subsection \<open>Threads\<close>

definition start_thread :: "ctl_thread \<Rightarrow> fzc \<Rightarrow> fzc" where
  "start_thread t c = c\<lparr>fz_threads := fz_threads c @ [t]\<rparr>"

definition start_weblog :: "fzc \<Rightarrow> fzc" where
  "start_weblog c = (if fz_haswl c then start_thread Thr_weblog c else c)"

definition fzc_start :: "fzc \<Rightarrow> fzc" where
  "fzc_start c = start_weblog (start_thread Thr_cli (start_thread Thr_rcs (start_thread Thr_collector c)))"

text \<open>\<open>interrupt\<close> and \<open>join\<close>: the thread has ended.\<close>

definition join_thread :: "ctl_thread \<Rightarrow> fzc \<Rightarrow> fzc" where
  "join_thread t c = c\<lparr>fz_threads := removeAll t (fz_threads c)\<rparr>"

definition close_socket :: "zkind \<Rightarrow> fzc \<Rightarrow> fzc" where
  "close_socket k c = c\<lparr>fz_links := filter (\<lambda>l. zl_kind l \<noteq> k) (fz_links c)\<rparr>"

definition close_collector :: "fzc \<Rightarrow> fzc" where
  "close_collector c = close_socket Z_PULL (join_thread Thr_collector c)"

definition close_rcs :: "fzc \<Rightarrow> fzc" where
  "close_rcs c = close_socket Z_REP (join_thread Thr_rcs c)"

definition close_cli :: "fzc \<Rightarrow> fzc" where
  "close_cli c = join_thread Thr_cli c"

definition close_weblog :: "fzc \<Rightarrow> fzc" where
  "close_weblog c = (if fz_haswl c then join_thread Thr_weblog c else c)"

definition fzc_close :: "fzc \<Rightarrow> fzc" where
  "fzc_close c = (close_weblog (close_cli (close_rcs (close_collector c))))\<lparr>fz_context := False\<rparr>"

definition fzc_quit :: "fzc \<Rightarrow> bool" where
  "fzc_quit c = fz_exit c"

text \<open>The post the web log thread starts with.\<close>

definition weblog_start :: "int \<Rightarrow> int \<Rightarrow> int \<Rightarrow> fzc \<Rightarrow> post" where
  "weblog_start x y z c = weblog_post (fz_wl_url c) (fz_wl_user c) x y z"

subsection \<open>The program\<close>

record ctl_opts =
  co_help :: bool
  co_cfg :: "string option"

definition ctl_up :: "ctl_opts option \<Rightarrow> (string \<Rightarrow> ctl_file) \<Rightarrow> outside \<Rightarrow> ctl_memory \<Rightarrow> start_error + fzc" where
  "ctl_up opts rd out mem =
     (case opts of
        None \<Rightarrow> Inl (S_exit ''ERROR: '')
      | Some opt \<Rightarrow>
          if co_help opt then Inl (S_exit ''help'')
          else bindE (case co_cfg opt of Some f \<Rightarrow> new_fzc_cfg mem rd f | None \<Rightarrow> Inr (new_fzc mem)) (\<lambda>c.
               bindE (fzc_configure out c) (\<lambda>c'. Inr (fzc_start c'))))"

text \<open>The loop polls the flag that the thread of the command line sets on \<open>quit\<close> (the second
  component of \<open>cli_loop\<close>); \<open>None\<close> when it is never set and the loop goes on.\<close>

definition ctl_main ::
  "ctl_opts option \<Rightarrow> (string \<Rightarrow> ctl_file) \<Rightarrow> outside \<Rightarrow> ctl_memory \<Rightarrow> bool \<Rightarrow> start_error + fzc option" where
  "ctl_main opts rd out mem typed_quit =
     bindE (ctl_up opts rd out mem) (\<lambda>c.
       let c' = c\<lparr>fz_exit := typed_quit\<rparr> in Inr (if fzc_quit c' then Some (fzc_close c') else None))"

subsection \<open>From start to end\<close>

lemma ctl_steps:
  "ctl_socket out m1 m2 l c = Inr c' \<longleftrightarrow> os_socket out (zl_kind l) \<and> os_attach out (fz_links c) l \<and>
     c' = c\<lparr>fz_links := fz_links c @ [l]\<rparr>"
  "ctl_say p t c = Inr c' \<longleftrightarrow> c' = c\<lparr>fz_log := log_write p t (fz_clog c) (fz_log c)\<rparr>"
  "configure_log out c = Inr c' \<Longrightarrow> \<exists>l g. c' = c\<lparr>fz_clog := l, fz_log := g\<rparr>"
  by (auto simp: ctl_socket_def ctl_say_def modify_def configure_log_def Let_def split: sum.splits option.splits)

text \<open>A controller without a file has no values, whatever the flag says.\<close>

definition sound_cfg :: "fzc \<Rightarrow> bool" where
  "sound_cfg c \<longleftrightarrow> fz_hascfg c \<or> fz_cfg c = empty_config"

definition ctl_interface :: "ctl_config \<Rightarrow> string" where
  "ctl_interface cfg = get_default ''eth0'' (cf_str cfg ''fzdaq.fzcontroller.interface'')"

definition weblog_values :: "ctl_config \<Rightarrow> (string \<times> string \<times> int) option" where
  "weblog_values cfg =
     (case (cf_str cfg ''fzdaq.fzcontroller.weblog.url'', cf_str cfg ''fzdaq.fzcontroller.weblog.username'',
            cf_int cfg ''fzdaq.fzcontroller.weblog.interval'') of
        (Some u, Some n, Some i) \<Rightarrow> Some (u, n, i) | _ \<Rightarrow> None)"

lemma ctl_endpoint_sound: "sound_cfg c \<Longrightarrow> ctl_endpoint port c = endpoint (ctl_interface (fz_cfg c)) port"
  by (auto simp: ctl_endpoint_def ctl_interface_def sound_cfg_def empty_config_def get_default_def split: option.split)

lemma configure_weblog_sound:
  assumes "sound_cfg c"
  shows "fz_haswl (configure_weblog c) \<longleftrightarrow> weblog_values (fz_cfg c) \<noteq> None"
    "weblog_values (fz_cfg c) = Some (u, n, i) \<Longrightarrow>
      fz_wl_url (configure_weblog c) = u \<and> fz_wl_user (configure_weblog c) = n \<and> fz_wl_interval (configure_weblog c) = i"
  using assms by (auto simp: configure_weblog_def weblog_url_def weblog_user_def weblog_interval_def weblog_values_def
      sound_cfg_def empty_config_def Let_def split: option.splits)

lemma configure_weblog_frame [simp]:
  "fz_cfg (configure_weblog c) = fz_cfg c" "fz_links (configure_weblog c) = fz_links c"
  "fz_threads (configure_weblog c) = fz_threads c"
  by (simp_all add: configure_weblog_def weblog_url_def weblog_user_def weblog_interval_def Let_def split: option.split)

definition ctl_links :: "ctl_config \<Rightarrow> zlink list" where
  "ctl_links cfg =
     [(zsock Z_PULL True (endpoint (ctl_interface cfg) FZC_COLLECTOR_PORT))\<lparr>zl_rcvtimeo := Some 1000\<rparr>,
      (zsock Z_REP True (endpoint (ctl_interface cfg) FZC_RC_PORT))\<lparr>zl_rcvtimeo := Some 500, zl_linger := Some 0\<rparr>]"

lemma fzc_configure_result:
  assumes "fzc_configure out c = Inr c'" "sound_cfg c" "fz_links c = []" "fz_threads c = []"
  shows "\<exists>d. c' = configure_weblog d \<and> sound_cfg d \<and> fz_cfg d = fz_cfg c \<and> fz_links d = ctl_links (fz_cfg c) \<and> fz_threads d = []"
proof -
  obtain d1 d2 d3 where d: "configure_log out c = Inr d1" "configure_collector out d1 = Inr d2"
    "configure_rcs out d2 = Inr d3" "c' = configure_weblog d3"
    using assms(1) by (auto simp: fzc_configure_def bindE_Inr_iff modify_def)
  have 1: "sound_cfg d1" "fz_cfg d1 = fz_cfg c" "fz_links d1 = []" "fz_threads d1 = []"
    using ctl_steps(3) [OF d(1)] assms(2-4) by (auto simp: sound_cfg_def)
  have 2: "sound_cfg d2" "fz_cfg d2 = fz_cfg c" "fz_threads d2 = []"
    "fz_links d2 = [(zsock Z_PULL True (endpoint (ctl_interface (fz_cfg c)) FZC_COLLECTOR_PORT))\<lparr>zl_rcvtimeo := Some 1000\<rparr>]"
    using d(2) 1 by (auto simp: configure_collector_def bindE_Inr_iff ctl_steps(1,2) ctl_endpoint_sound sound_cfg_def)
  have "sound_cfg d3" "fz_cfg d3 = fz_cfg c" "fz_threads d3 = []" "fz_links d3 = ctl_links (fz_cfg c)"
    using d(3) 2 by (auto simp: configure_rcs_def ctl_steps(1) ctl_endpoint_sound sound_cfg_def ctl_links_def)
  with d(4) show ?thesis by blast
qed

lemma new_fzc_sound:
  "sound_cfg (new_fzc mem)" "new_fzc_cfg mem rd f = Inr c \<Longrightarrow> sound_cfg c"
  "fz_links (new_fzc mem) = []" "new_fzc_cfg mem rd f = Inr c \<Longrightarrow> fz_links c = []"
  "fz_threads (new_fzc mem) = []" "new_fzc_cfg mem rd f = Inr c \<Longrightarrow> fz_threads c = []"
  by (auto simp: sound_cfg_def new_fzc_def new_fzc_cfg_def fzc_members_def split: ctl_file.splits)

text \<open>
  C32. The controller from start to end. A start that succeeds, with or without a configuration
  file, listens on the port to which the nodes send their reports and on that of run control; it
  runs the three threads, and the web log exactly when the file has its address, user and
  interval, with these values; the flag the constructor leaves unset makes no difference. After
  \<open>quit\<close> every thread has been joined, every socket is closed and so is the context.
\<close>

theorem controller_lifecycle:
  assumes "ctl_up opts rd out mem = Inr c"
  shows "map (\<lambda>l. (zl_kind l, zl_bound l, zl_ep l)) (fz_links c) =
      [(Z_PULL, True, endpoint (ctl_interface (fz_cfg c)) FZC_COLLECTOR_PORT),
       (Z_REP, True, endpoint (ctl_interface (fz_cfg c)) FZC_RC_PORT)] \<and>
    fz_threads c = [Thr_collector, Thr_rcs, Thr_cli] @ (if weblog_values (fz_cfg c) \<noteq> None then [Thr_weblog] else []) \<and>
    (\<forall>u n i. weblog_values (fz_cfg c) = Some (u, n, i) \<longrightarrow>
       fz_wl_interval c = i \<and> (\<forall>x y z. hp_url (weblog_start x y z c) = u \<and> hp_user (weblog_start x y z c) = n)) \<and>
    (\<exists>c'. ctl_main opts rd out mem True = Inr (Some c') \<and> fz_threads c' = [] \<and> fz_links c' = [] \<and> \<not> fz_context c')"
proof -
  obtain c0 c1 where c: "fzc_configure out c0 = Inr c1" "c = fzc_start c1" "sound_cfg c0" "fz_links c0 = []" "fz_threads c0 = []"
    using assms new_fzc_sound by (fastforce simp: ctl_up_def bindE_Inr_iff split: option.splits if_splits)
  from fzc_configure_result [OF c(1,3-5)] obtain d where d: "c1 = configure_weblog d" "sound_cfg d"
    "fz_links d = ctl_links (fz_cfg d)" "fz_threads d = []" by metis
  note w = configure_weblog_sound [OF d(2)]
  have s: "fz_cfg c = fz_cfg d" "fz_links c = ctl_links (fz_cfg d)" "fz_haswl c \<longleftrightarrow> weblog_values (fz_cfg d) \<noteq> None"
    "fz_threads c = [Thr_collector, Thr_rcs, Thr_cli] @ (if weblog_values (fz_cfg d) \<noteq> None then [Thr_weblog] else [])"
    using w(1) d by (simp_all add: c(2) fzc_start_def start_weblog_def start_thread_def)
  have v: "fz_wl_url c = u \<and> fz_wl_user c = n \<and> fz_wl_interval c = i" if "weblog_values (fz_cfg d) = Some (u, n, i)" for u n i
    using w(2) [OF that] by (simp add: c(2) d(1) fzc_start_def start_weblog_def start_thread_def)
  have m: "ctl_main opts rd out mem True = Inr (Some (fzc_close (c\<lparr>fz_exit := True\<rparr>)))"
    by (simp add: ctl_main_def assms fzc_quit_def)
  have x: "fz_threads (fzc_close (c\<lparr>fz_exit := True\<rparr>)) = []" "fz_links (fzc_close (c\<lparr>fz_exit := True\<rparr>)) = []"
    "\<not> fz_context (fzc_close (c\<lparr>fz_exit := True\<rparr>))"
    using s by (simp_all add: fzc_close_def close_collector_def close_rcs_def close_cli_def close_weblog_def
        join_thread_def close_socket_def ctl_links_def zsock_def)
  have p: "hp_url (weblog_start x y z c) = fz_wl_url c" "hp_user (weblog_start x y z c) = fz_wl_user c" for x y z
    by (simp_all add: weblog_start_def weblog_post_def SetDBUserName_def SetPHPArrayName_def SetServerURL_def)
  have l: "map (\<lambda>l. (zl_kind l, zl_bound l, zl_ep l)) (ctl_links cfg) =
      [(Z_PULL, True, endpoint (ctl_interface cfg) FZC_COLLECTOR_PORT), (Z_REP, True, endpoint (ctl_interface cfg) FZC_RC_PORT)]"
    for cfg by (simp add: ctl_links_def zsock_def)
  show ?thesis unfolding s(1) using s(2,4) v m x p l by simp
qed

definition web_config :: ctl_config where
  "web_config = \<lparr>cf_str = [''fzdaq.fzcontroller.weblog.url'' \<mapsto> ''http://h/p'', ''fzdaq.fzcontroller.weblog.username'' \<mapsto> ''daq''],
     cf_uint = \<lambda>_. None, cf_int = [''fzdaq.fzcontroller.weblog.interval'' \<mapsto> 300]\<rparr>"

theorem controller_lifecycle_witness:
  "\<exists>c. ctl_up (Some \<lparr>co_help = False, co_cfg = Some ''f''\<rparr>) (\<lambda>_. Ctl_read web_config) all_well
      \<lparr>cm_hascfg = False, cm_interval = 0\<rparr> = Inr c \<and>
     fz_threads c = [Thr_collector, Thr_rcs, Thr_cli, Thr_weblog] \<and> fz_wl_interval c = 300"
proof -
  let ?mem = "\<lparr>cm_hascfg = False, cm_interval = 0\<rparr>"
  have s: "ctl_socket all_well m1 m2 l c = Inr (c\<lparr>fz_links := fz_links c @ [l]\<rparr>)" for m1 m2 l c
    by (simp add: ctl_socket_def all_well_def)
  have g: "\<exists>l g. configure_log all_well c = Inr (c\<lparr>fz_clog := l, fz_log := g\<rparr>)" for c
    by (simp add: configure_log_def setFileConnection_def all_well_def Let_def) blast
  have f: "\<exists>c'. fzc_configure all_well c = Inr c' \<and> fz_cfg c' = fz_cfg c" for c
  proof -
    obtain l g where "configure_log all_well c = Inr (c\<lparr>fz_clog := l, fz_log := g\<rparr>)" using g by blast
    then show ?thesis
      by (simp add: fzc_configure_def configure_collector_def configure_rcs_def s ctl_say_def modify_def)
  qed
  obtain c' where "fzc_configure all_well (fzc_members ?mem web_config True) = Inr c'" "fz_cfg c' = web_config"
    using f [of "fzc_members ?mem web_config True"] by (auto simp: fzc_members_def)
  then have "ctl_up (Some \<lparr>co_help = False, co_cfg = Some ''f''\<rparr>) (\<lambda>_. Ctl_read web_config) all_well ?mem = Inr (fzc_start c')"
    "fz_cfg (fzc_start c') = web_config"
    by (simp_all add: ctl_up_def new_fzc_cfg_def fzc_start_def start_weblog_def start_thread_def)
  moreover have "weblog_values web_config = Some (''http://h/p'', ''daq'', 300)"
    by (simp add: weblog_values_def web_config_def)
  ultimately show ?thesis using controller_lifecycle by fastforce
qed

end
