(* ===== verification/Spec2Isabelle.thy ===== *)
theory Spec2Isabelle
  imports FzFSM_Fields FzTools FzFSM_Words FzSystem FzCli FzTransmitter FzPipeline FzCtlMain
begin

text \<open>
  FzDAQ: the data acquisition of the FAZIA detector array (paths are below \<open>src/src/\<close> of the
  repository).

  The program of a node (\<open>main/FzDAQ-mt.cpp\<close>) is a pipeline of threads. A reader takes UDP
  packets and cuts the stream of 16-bit words into events, parsers turn the words of an event
  into a message of \<open>proto/FzEventSet.proto\<close>, a writer stores the messages as delimited records
  in files. A node manager in the same program moves all of them through the run-control states
  and reports their counters; it obeys the local command line or the requests of a controller,
  which runs on a machine of its own, keeps a table of the nodes from their reports, has its own
  command line and posts the counters to a web server. A separate program takes the messages and
  sends them to the FDT software, and two tools read the files.

  Theories and the code they model, in the order of their imports:

  \<^item> \<open>FzPrelude\<close>: the machine widths; \<open>stmt\<close>, statements that thread a state and may fail, with
    \<open>seqE\<close> and \<open>bindE\<close>; the weakest preconditions \<open>wpE\<close>, whose rules are the collection \<open>wp\<close>;
    partial list access \<open>nth_opt\<close>. \<open>FzText\<close>: decimal and hexadecimal output, input of
    numbers. \<open>FzFloat\<close>: the rounding to \<open>float\<close> the parser relies on.
  \<^item> \<open>FzEventSet\<close>, \<open>FzEventTree\<close>: the event messages as records, and the raw pointers of the
    parser into them as paths; the locales \<open>path_store\<close> and \<open>child_store\<close> state what an update
    at one path does to a read at another, for each of the four levels.
  \<^item> \<open>FzFSM_State\<close>, \<open>_Stmt\<close>, \<open>_Trans\<close>, \<open>_Basic\<close>, \<open>_Tag\<close>, \<open>_Process\<close>: \<open>parser/FzFSM.cpp\<close> and
    \<open>FzFSM.h\<close>. The object is the record \<open>fsm\<close>, a transition \<open>transNN\<close> a statement (where the two
    event formats differ, \<open>transNN_basic\<close> and \<open>transNN_tag\<close>), the dispatch \<open>process_step\<close>, the
    loop \<open>process_loop\<close>. A dereference of an unset pointer and a read behind the event are errors.
  \<^item> \<open>FzFSM_Inv\<close>, \<open>_Calm\<close>, \<open>_TagFit\<close>, \<open>_Fit\<close>, \<open>_Safety\<close>: one invariant per state of the machine,
    so no pointer is followed that does not point into the event. \<open>FzFSM_Frame\<close>: locales that
    lift what a single statement leaves alone to the transitions. \<open>FzFSM_Loop\<close>: when the loop
    ends. \<open>FzFSM_Report\<close>: what the counters count. \<open>FzFSM_Clean\<close>, \<open>FzFSM_Fields\<close>: the locale
    \<open>register_last\<close> (an event closed by its last word) with two interpretations, for the error
    flags and for the required fields. \<open>FzFSM_Words\<close>: the arithmetic on words.
  \<^item> \<open>FzWire\<close>: words as bytes and \<open>utils/FzProtobuf.h\<close>, the delimited records. The coder of
    protobuf is a parameter of which the theorems assume that it decodes what it encoded.
  \<^item> \<open>FzRC\<close>: \<open>rc/RCFSM.cpp\<close> with the labelled step relation it implements, and the locale
    \<open>rc_component\<close> of the threads that hold a run-control state.
  \<^item> \<open>FzReport\<close>: the messages of \<open>proto/FzNodeReport.proto\<close>. \<open>FzReader\<close>: \<open>reader/FzReader.cpp\<close>
    over the datagram path of \<open>utils/fossa.c\<close>. \<open>FzParser\<close>: \<open>parser/FzParser.cpp\<close>, and reader and
    parser together. \<open>FzWriter\<close>: \<open>writer/FzWriter.cpp\<close> on a file system of names and bytes. Each
    interprets \<open>rc_component\<close>. \<open>FzPipeline\<close>: the reader, any number of parsers and the writer
    with the queues between them; \<open>pl_step\<close> is a round of one of them or a change of its state.
    The locale \<open>message_store\<close> is what it asks of its end, interpreted on the writer.
  \<^item> \<open>FzNodeManager\<close>: \<open>nodemanager/FzNodeManager.cpp\<close>, with \<open>node_step\<close>, the rounds of all threads
    of a node in any interleaving. \<open>FzTable\<close>: \<open>human_byte\<close> of \<open>utils/FzUtils.cpp\<close> and the rows of
    the statistics both command lines print. \<open>FzMain\<close>: configuration, construction and command line
    of \<open>main/FzDAQ-mt.cpp\<close>, \<open>main/FzConfig.cpp\<close>, \<open>urlparse\<close> and \<open>devtoip\<close> of \<open>utils/FzUtils.cpp\<close>.
    \<open>FzLog\<close>: \<open>logger/FzLogger.cpp\<close> as the calls to log4cpp. \<open>FzStart\<close>: the options of the program
    and the sockets and logs its constructors open, in the order of \<open>main\<close>.
  \<^item> \<open>FzNodeTable\<close>: \<open>controller/map.cpp\<close>, with the locale \<open>report_table\<close> for what the rest of the
    controller uses of it. \<open>FzController\<close>: \<open>rcs.cpp\<close> and \<open>collector.cpp\<close>. \<open>FzCli\<close>: \<open>cli.cpp\<close>.
    \<open>FzWeblog\<close>: \<open>weblog.cpp\<close> and \<open>logger/FzHttpPost.cpp\<close>. \<open>FzCtlMain\<close>: \<open>controller/main.cpp\<close>,
    \<open>FzController.cpp\<close>, \<open>log.cpp\<close> and the configuration, start and end of every thread.
  \<^item> \<open>FzSystem\<close>: a controller and its nodes: \<open>sys_step\<close> is a round of a thread of the controller,
    the arrival of a pushed message in any order or its loss, or a round of a thread of a
    node. A forwarded request is executed by the node it is for, with the answer received or
    not, or arrives after the controller gave up (\<open>node_unicast\<close>).
  \<^item> \<open>FzTransmitter\<close>: \<open>transmitter/\<close>, from \<open>TcpOpen\<close> to the main loop. \<open>FzTools\<close>: \<open>read-fazia-pb.cpp\<close> and
    \<open>publish-fazia-pb.cpp\<close> of \<open>src/utils/\<close>.
\<close>

text \<open>
  What the theorems show. Parser: it follows no bad pointer on any input; it returns on every
  event of the tag format and on every event of the basic format without a zero word, and
  on a waveform of announced length zero of a datum of type QL1, I1, I2 or unknown of the basic
  format it does not return; its counters are exact; an event counted as good has no error
  flag; a closed event has every required field but the two that no transition asks for, and
  may hold detector and card numbers that are no enumerators, which a reader finds unset. Reader: what it sends is the stream cut after each register word, however the
  packets split it. Writer: the files of a run hold every message once and in order, whatever
  the rotation. The path from the wire to the disk: in every interleaving of the threads, with
  changes of run control at any time, once nothing is left on the way the files hold what the
  parsers made of every event of the stream, each once (\<open>pipeline_stores_stream\<close>); it assumes
  even datagrams, events below the size limit and a disk that takes new directories. Node: the
  state it reports is that of all its threads in every interleaving, no
  component it does not have is used. Controller: the table is one finite map with dates as
  long as it has fewer than 256 nodes, from then on its loops do not end; a node
  in remote mode that the controller knows at every event, and whose status no client writes
  itself, is in the state of the controller when what was pushed to it has arrived, and a reset
  brings every known node in remote mode back. This needs that messages to one node arrive as
  they were pushed, or that an event is sent only when nothing is on its way to it. Records, frames, files and URLs are read back as they were written. A node
  that starts is wired as the controller expects it; the controller ends with every thread and
  socket it began; the transmitter leaks no descriptor. Where the
  code departs from what it means to do, the theorem states what it does: the two uses of
  tables by the reading tool, \<open>rec\<close> on a storing node, the starts refused at the controller, the
  second loop of the web log, the amplitudes of the lock-in, the lost log files of the parsers,
  the send after a reconnection that failed.

  Loops and bounds. Loops over a list are recursive functions on it. Three loops may not end
  and are \<open>partial_function (option)\<close>, \<open>None\<close> standing for not returning: \<open>process_loop\<close>, and
  \<open>refresh_loop\<close> and \<open>clean_loop\<close> of the node table, whose counters have 8 bits. The loops of
  \<open>Tcp.cpp\<close> end with the list of what the socket does, and return \<open>None\<close> while that list is too
  short; no other fuel is used. Counters, lengths, sums and rates have the width of the code;
  indices into a message are natural numbers, guarded by its length.

  What is assumed of the surroundings. The transport delivers a message at most once
  and, within one connection, in the order sent, and hands over requests and reports decoded.
  The pushes of the controller have a connection each, so they arrive in any order or are
  lost, and the theorems about them that need more name it in their hypotheses; the clock is read
  once per call; uninitialised members are arguments of the constructors; what the kernel,
  ZeroMQ and log4cpp answer to a call is an argument, and what they are asked is recorded. Exceptions thrown by
  the transport are modelled where the code catches them (the receive of the parser).

  Not modelled: the parsing of program options by boost (its result is an argument) and most of
  what the main programs print while they start; the vendored libraries \<open>utils/fossa.c\<close>, but for
  its datagram path, and \<open>utils/zmq.hpp\<close>, which are not the program's own; patterns and thresholds
  of the logs and the sizes of socket buffers; the overload of \<open>AddToPost\<close> for doubles, \<open>human_bit\<close>
  and \<open>dumpEventOnScreen\<close>, which nothing calls; and the interleaving inside a round: the threads
  share the node table and the run-control state, and the lock is not taken in every place that
  uses it.
\<close>

end
